(* ===== verification/Prelude.thy ===== *)
theory Prelude
  imports Main "HOL-Library.Sublist" "HOL-Library.List_Lexorder" "HOL-Library.Char_ord"
    "HOL-Library.Product_Lexorder"
begin

text \<open>
  Shared material of the development: the result type of the handlers, the error type of
  \<^verbatim>\<open>src/error.rs\<close>, database tables as lists of rows with a primary key, a key/value
  interface with its laws, and the collections of rewrite rules the component theories use.
\<close>

named_theorems table_simps \<open>lookup and update laws of keyed tables\<close>
named_theorems fs_simps \<open>lookup and update laws of the file store\<close>
named_theorems frame_simps \<open>fields an operation leaves alone\<close>

section \<open>Errors as values\<close>

text \<open>
  \<open>AppError\<close>: the message is kept, the wrapped \<open>sqlx\<close> and \<open>anyhow\<close> errors are
  reduced to their text.
\<close>

datatype app_error =
    Unauthorized string
  | Forbidden string
  | BadRequest string
  | NotFound string
  | Sqlx string
  | Other string

type_synonym 'a res = "app_error + 'a"

text \<open>\<open>IntoResponse\<close>: the HTTP status and the message of the JSON error body.\<close>

fun into_response :: "app_error \<Rightarrow> nat \<times> string" where
  "into_response (Unauthorized m) = (401, m)"
| "into_response (Forbidden m) = (403, m)"
| "into_response (BadRequest m) = (400, m)"
| "into_response (NotFound m) = (404, m)"
| "into_response (Sqlx m) = (500, ''internal error'')"
| "into_response (Other m) = (500, ''internal error'')"

definition ok_or :: "app_error \<Rightarrow> 'a option \<Rightarrow> 'a res" where
  "ok_or e x = (case x of None \<Rightarrow> Inl e | Some v \<Rightarrow> Inr v)"

definition is_ok :: "'a res \<Rightarrow> bool" where
  "is_ok r = (case r of Inl _ \<Rightarrow> False | Inr _ \<Rightarrow> True)"

lemma ok_or_simps [simp]: "ok_or e None = Inl e" "ok_or e (Some v) = Inr v"
  by (simp_all add: ok_or_def)

lemma ok_or_Inr_iff [simp]: "ok_or e x = Inr v \<longleftrightarrow> x = Some v"
  by (cases x) simp_all

lemma is_ok_simps [simp]: "\<not> is_ok (Inl e)" "is_ok (Inr v)"
  by (simp_all add: is_ok_def)

section \<open>Tables\<close>

text \<open>
  A table is the list of its rows in insertion order (SQLite's rowid order). \<open>key\<close> reads
  the primary key. The four operations are the statements the code issues: a lookup by key, an
  \<open>UPDATE ... WHERE\<close>, an \<open>INSERT OR IGNORE\<close> and an
  \<open>INSERT ... ON CONFLICT DO UPDATE\<close>; \<open>DELETE ... WHERE p\<close> is a filter.
\<close>

definition tbl_find :: "('r \<Rightarrow> 'k) \<Rightarrow> 'k \<Rightarrow> 'r list \<Rightarrow> 'r option" where
  "tbl_find key k t = find (\<lambda>r. key r = k) t"

definition tbl_update :: "('r \<Rightarrow> bool) \<Rightarrow> ('r \<Rightarrow> 'r) \<Rightarrow> 'r list \<Rightarrow> 'r list" where
  "tbl_update p f t = map (\<lambda>r. if p r then f r else r) t"

definition tbl_insert_ignore :: "('r \<Rightarrow> 'k) \<Rightarrow> 'r \<Rightarrow> 'r list \<Rightarrow> 'r list" where
  "tbl_insert_ignore key r t = (if key r \<in> key ` set t then t else t @ [r])"

definition tbl_upsert :: "('r \<Rightarrow> 'k) \<Rightarrow> 'r \<Rightarrow> ('r \<Rightarrow> 'r) \<Rightarrow> 'r list \<Rightarrow> 'r list" where
  "tbl_upsert key r f t =
     (if key r \<in> key ` set t then tbl_update (\<lambda>x. key x = key r) f t else t @ [r])"

definition tbl_delete :: "('r \<Rightarrow> bool) \<Rightarrow> 'r list \<Rightarrow> 'r list" where
  "tbl_delete p t = filter (\<lambda>r. \<not> p r) t"

definition tbl_ok :: "('r \<Rightarrow> 'k) \<Rightarrow> 'r list \<Rightarrow> bool" where
  "tbl_ok key t = distinct (map key t)"

lemma tbl_find_Nil [simp]: "tbl_find key k [] = None"
  by (simp add: tbl_find_def)

lemma tbl_find_Cons [simp]:
  "tbl_find key k (r # t) = (if key r = k then Some r else tbl_find key k t)"
  by (simp add: tbl_find_def)

lemma tbl_find_append:
  "tbl_find key k (t @ u) = (case tbl_find key k t of None \<Rightarrow> tbl_find key k u | Some r \<Rightarrow> Some r)"
  by (induction t) simp_all

lemma tbl_find_None_iff: "tbl_find key k t = None \<longleftrightarrow> k \<notin> key ` set t"
  by (induction t) auto

lemma tbl_find_SomeD: "tbl_find key k t = Some r \<Longrightarrow> r \<in> set t \<and> key r = k"
  by (induction t) (auto split: if_splits)

lemma tbl_find_in_set: "tbl_ok key t \<Longrightarrow> r \<in> set t \<Longrightarrow> tbl_find key (key r) t = Some r"
  by (induction t) (auto simp: tbl_ok_def image_iff)

lemma tbl_update_simps [simp]:
  "tbl_update p f [] = []"
  "tbl_update p f (r # t) = (if p r then f r else r) # tbl_update p f t"
  "tbl_update p f (t @ u) = tbl_update p f t @ tbl_update p f u"
  by (simp_all add: tbl_update_def)

lemma set_tbl_update: "set (tbl_update p f t) = (\<lambda>r. if p r then f r else r) ` set t"
  by (simp add: tbl_update_def)

lemma tbl_update_keys [table_simps]:
  "(\<And>r. key (f r) = key r) \<Longrightarrow> map key (tbl_update p f t) = map key t"
  by (simp add: tbl_update_def comp_def if_distrib cong: if_cong)

lemma keys_update [table_simps]:
  "(\<And>r. key (f r) = key r) \<Longrightarrow> key ` set (tbl_update p f t) = key ` set t"
  using tbl_update_keys[of key f p t] by (metis list.set_map)

lemma tbl_ok_update [table_simps]:
  "(\<And>r. key (f r) = key r) \<Longrightarrow> tbl_ok key (tbl_update p f t) = tbl_ok key t"
  by (simp add: tbl_ok_def tbl_update_keys)

lemma tbl_ok_update_cond:
  "(\<And>r. p r \<Longrightarrow> key (f r) = key r) \<Longrightarrow> tbl_ok key (tbl_update p f t) = tbl_ok key t"
proof -
  assume "\<And>r. p r \<Longrightarrow> key (f r) = key r"
  then have "map key (tbl_update p f t) = map key t"
    by (simp add: tbl_update_def)
  then show ?thesis by (simp add: tbl_ok_def)
qed

lemma tbl_find_update_cond:
  assumes "\<And>r. p r \<Longrightarrow> key (f r) = key r"
  shows "tbl_find key k (tbl_update p f t) =
    map_option (\<lambda>r. if p r then f r else r) (tbl_find key k t)"
  using assms by (induction t) auto

lemma tbl_find_update [table_simps]:
  "(\<And>r. key (f r) = key r) \<Longrightarrow> tbl_find key k (tbl_update p f t) =
    map_option (\<lambda>r. if p r then f r else r) (tbl_find key k t)"
  by (simp add: tbl_find_update_cond)

lemma tbl_ok_insert_ignore [table_simps, intro]:
  "tbl_ok key t \<Longrightarrow> tbl_ok key (tbl_insert_ignore key r t)"
  by (auto simp: tbl_ok_def tbl_insert_ignore_def)

lemma tbl_find_insert_ignore [table_simps]:
  "tbl_find key k (tbl_insert_ignore key r t) =
    (case tbl_find key k t of Some x \<Rightarrow> Some x | None \<Rightarrow> if key r = k then Some r else None)"
proof (cases "tbl_find key k t")
  case None
  then have "k \<notin> key ` set t" by (simp add: tbl_find_None_iff)
  with None show ?thesis by (auto simp: tbl_insert_ignore_def tbl_find_append)
next
  case (Some x)
  then show ?thesis by (simp add: tbl_insert_ignore_def tbl_find_append)
qed

lemma set_tbl_insert_ignore:
  "set (tbl_insert_ignore key r t) = (if key r \<in> key ` set t then set t else insert r (set t))"
  by (simp add: tbl_insert_ignore_def)

lemma tbl_ok_upsert [table_simps]:
  "(\<And>x. key (f x) = key x) \<Longrightarrow> tbl_ok key t \<Longrightarrow> tbl_ok key (tbl_upsert key r f t)"
  unfolding tbl_upsert_def by (simp add: tbl_ok_update) (simp add: tbl_ok_def)

lemma tbl_find_upsert [table_simps]:
  assumes "\<And>x. key (f x) = key x"
  shows "tbl_find key k (tbl_upsert key r f t) =
    (if k = key r
     then (case tbl_find key k t of Some x \<Rightarrow> Some (f x) | None \<Rightarrow> Some r)
     else tbl_find key k t)"
proof (cases "tbl_find key (key r) t")
  case None
  then have "key r \<notin> key ` set t" by (simp add: tbl_find_None_iff)
  with None show ?thesis
    by (auto simp: tbl_upsert_def tbl_find_append split: option.splits)
next
  case (Some x)
  then have x: "x \<in> set t" "key x = key r" by (auto dest: tbl_find_SomeD)
  then have "key r \<in> key ` set t" by (metis image_eqI)
  moreover have "map_option (\<lambda>y. if key y = key r then f y else y) (tbl_find key k t) = tbl_find key k t"
    if "k \<noteq> key r"
    using that by (cases "tbl_find key k t") (auto dest: tbl_find_SomeD)
  ultimately show ?thesis
    using Some assms x by (auto simp: tbl_upsert_def tbl_find_update)
qed

lemma tbl_ok_delete [table_simps, intro]: "tbl_ok key t \<Longrightarrow> tbl_ok key (tbl_delete p t)"
  by (simp add: tbl_ok_def tbl_delete_def distinct_map_filter)

lemma set_tbl_delete [simp]: "set (tbl_delete p t) = {r \<in> set t. \<not> p r}"
  by (simp add: tbl_delete_def)

lemma tbl_find_delete [table_simps]:
  "tbl_ok key t \<Longrightarrow> tbl_find key k (tbl_delete p t) =
    (case tbl_find key k t of Some x \<Rightarrow> if p x then None else Some x | None \<Rightarrow> None)"
proof (induction t)
  case (Cons r t)
  then have "tbl_ok key t" and "key r \<notin> key ` set t" by (auto simp: tbl_ok_def)
  then have "tbl_find key (key r) (tbl_delete p t) = None"
    by (auto simp: tbl_find_None_iff)
  with Cons \<open>tbl_ok key t\<close> show ?case
    by (auto simp: tbl_delete_def)
qed (simp add: tbl_delete_def)

section \<open>Key/value stores\<close>

text \<open>
  What the components need of a key/value store: a value written is read back, and writing one
  key leaves the others alone. \<open>ok\<close> restricts the keys the laws cover.
\<close>

locale kv_store =
  fixes get :: "'s \<Rightarrow> 'k \<Rightarrow> 'v option"
    and put :: "'k \<Rightarrow> 'v \<Rightarrow> 's \<Rightarrow> 's"
    and ok :: "'k \<Rightarrow> bool"
  assumes get_put_same: "get (put k v s) k = Some v"
    and get_put_other: "ok k \<Longrightarrow> ok k' \<Longrightarrow> k' \<noteq> k \<Longrightarrow> get (put k v s) k' = get s k'"
begin

lemma get_put:
  "ok k \<Longrightarrow> ok k' \<Longrightarrow> get (put k v s) k' = (if k' = k then Some v else get s k')"
  by (simp add: get_put_same get_put_other)

lemma put_commute_get:
  "ok a \<Longrightarrow> ok b \<Longrightarrow> ok k \<Longrightarrow> a \<noteq> b \<Longrightarrow>
    get (put a v (put b w s)) k = get (put b w (put a v s)) k"
  by (simp add: get_put)

lemma put_put_get: "ok a \<Longrightarrow> ok k \<Longrightarrow> get (put a v (put a w s)) k = get (put a v s) k"
  by (simp add: get_put)

end

text \<open>A store that can also forget a key.\<close>

locale kv_store_del = kv_store get put ok
  for get :: "'s \<Rightarrow> 'k \<Rightarrow> 'v option" and put and ok +
  fixes del :: "'k \<Rightarrow> 's \<Rightarrow> 's"
  assumes get_del_same: "get (del k s) k = None"
    and get_del_other: "ok k \<Longrightarrow> ok k' \<Longrightarrow> k' \<noteq> k \<Longrightarrow> get (del k s) k' = get s k'"
begin

lemma get_del: "ok k \<Longrightarrow> ok k' \<Longrightarrow> get (del k s) k' = (if k' = k then None else get s k')"
  by (simp add: get_del_same get_del_other)

lemma get_fold_del:
  "list_all ok ks \<Longrightarrow> ok k \<Longrightarrow>
    get (fold del ks s) k = (if k \<in> set ks then None else get s k)"
  by (induction ks arbitrary: s) (auto simp: get_del)

lemma del_put_get: "ok a \<Longrightarrow> ok k \<Longrightarrow> get (del a (put a v s)) k = get (del a s) k"
  by (simp add: get_del get_put_other)

end

end
