(* ===== verification/RustStd.thy ===== *)
theory RustStd
  imports Prelude
begin

text \<open>
  The part of Rust's standard library the code uses on strings and integers. A Rust
  \<open>String\<close> is its UTF-8 bytes, a HOL \<^typ>\<open>string\<close>: searching, splitting and
  prefix tests work bytewise and agree with the code point versions on valid UTF-8, and
  \<open>len()\<close> counts bytes. White space is Unicode's \<open>White_Space\<close> property, as
  \<open>str::trim\<close> uses it. An \<open>i64\<close> is an \<^typ>\<open>int\<close>, with \<open>i64_wrap\<close> written out
  where release builds may wrap around.
\<close>

section \<open>Searching and splitting\<close>

definition starts_with :: "string \<Rightarrow> string \<Rightarrow> bool" where
  "starts_with p s = prefix p s"

definition ends_with :: "string \<Rightarrow> string \<Rightarrow> bool" where
  "ends_with p s = suffix p s"

fun contains_str :: "string \<Rightarrow> string \<Rightarrow> bool" where
  "contains_str p [] = (p = [])"
| "contains_str p (c # s) = (prefix p (c # s) \<or> contains_str p s)"

definition strip_prefix :: "string \<Rightarrow> string \<Rightarrow> string option" where
  "strip_prefix p s = (if prefix p s then Some (drop (length p) s) else None)"

definition strip_suffix :: "string \<Rightarrow> string \<Rightarrow> string option" where
  "strip_suffix p s = (if suffix p s then Some (take (length s - length p) s) else None)"

fun split_once_str :: "string \<Rightarrow> string \<Rightarrow> (string \<times> string) option" where
  "split_once_str p [] = (if p = [] then Some ([], []) else None)"
| "split_once_str p (c # s) =
     (if prefix p (c # s) then Some ([], drop (length p) (c # s))
      else map_option (\<lambda>(a, b). (c # a, b)) (split_once_str p s))"

definition rsplit_once_str :: "string \<Rightarrow> string \<Rightarrow> (string \<times> string) option" where
  "rsplit_once_str p s =
     map_option (\<lambda>(a, b). (rev b, rev a)) (split_once_str (rev p) (rev s))"

fun split_on :: "char \<Rightarrow> string \<Rightarrow> string list" where
  "split_on c [] = [[]]"
| "split_on c (x # s) =
     (case split_on c s of
        [] \<Rightarrow> [[x]]
      | w # ws \<Rightarrow> if x = c then [] # w # ws else (x # w) # ws)"

fun join_with :: "string \<Rightarrow> string list \<Rightarrow> string" where
  "join_with sep [] = []"
| "join_with sep [s] = s"
| "join_with sep (s # t # r) = s @ sep @ join_with sep (t # r)"

text \<open>\<open>str::replacen\<close> with a one character pattern.\<close>

fun replacen_char :: "char \<Rightarrow> string \<Rightarrow> nat \<Rightarrow> string \<Rightarrow> string" where
  "replacen_char c r n [] = []"
| "replacen_char c r 0 s = s"
| "replacen_char c r (Suc n) (x # s) =
     (if x = c then r @ replacen_char c r n s else x # replacen_char c r (Suc n) s)"

definition replace_char :: "char \<Rightarrow> string \<Rightarrow> string \<Rightarrow> string" where
  "replace_char c r s = concat (map (\<lambda>x. if x = c then r else [x]) s)"

section \<open>White space and case\<close>

text \<open>The UTF-8 encodings of the code points with \<open>White_Space\<close>.\<close>

definition ws_list :: "string list" where
  "ws_list =
     [[CHR 0x09], [CHR 0x0A], [CHR 0x0B], [CHR 0x0C], [CHR 0x0D], [CHR 0x20],
      [CHR 0xC2, CHR 0x85], [CHR 0xC2, CHR 0xA0], [CHR 0xE1, CHR 0x9A, CHR 0x80],
      [CHR 0xE2, CHR 0x80, CHR 0x80], [CHR 0xE2, CHR 0x80, CHR 0x81],
      [CHR 0xE2, CHR 0x80, CHR 0x82], [CHR 0xE2, CHR 0x80, CHR 0x83],
      [CHR 0xE2, CHR 0x80, CHR 0x84], [CHR 0xE2, CHR 0x80, CHR 0x85],
      [CHR 0xE2, CHR 0x80, CHR 0x86], [CHR 0xE2, CHR 0x80, CHR 0x87],
      [CHR 0xE2, CHR 0x80, CHR 0x88], [CHR 0xE2, CHR 0x80, CHR 0x89],
      [CHR 0xE2, CHR 0x80, CHR 0x8A], [CHR 0xE2, CHR 0x80, CHR 0xA8],
      [CHR 0xE2, CHR 0x80, CHR 0xA9], [CHR 0xE2, CHR 0x80, CHR 0xAF],
      [CHR 0xE2, CHR 0x81, CHR 0x9F], [CHR 0xE3, CHR 0x80, CHR 0x80]]"

text \<open>Drop one of the given prefixes as often as possible.\<close>

function trim_any :: "string list \<Rightarrow> string \<Rightarrow> string" where
  "trim_any ps s =
     (case find (\<lambda>p. p \<noteq> [] \<and> prefix p s) ps of
        None \<Rightarrow> s
      | Some p \<Rightarrow> trim_any ps (drop (length p) s))"
  by pat_completeness auto
termination
  by (relation "measure (\<lambda>(ps, s). length s)")
     (auto simp: find_Some_iff prefix_def)

declare trim_any.simps [simp del]

definition trim_start :: "string \<Rightarrow> string" where
  "trim_start s = trim_any ws_list s"

definition trim_end :: "string \<Rightarrow> string" where
  "trim_end s = rev (trim_any (map rev ws_list) (rev s))"

definition trim :: "string \<Rightarrow> string" where
  "trim s = trim_end (trim_start s)"

definition trim_start_matches :: "char \<Rightarrow> string \<Rightarrow> string" where
  "trim_start_matches c s = dropWhile (\<lambda>x. x = c) s"

definition trim_end_matches :: "char \<Rightarrow> string \<Rightarrow> string" where
  "trim_end_matches c s = rev (dropWhile (\<lambda>x. x = c) (rev s))"

text \<open>\<open>str::lines\<close>: split at line feeds, drop a carriage return before one, no last empty line.\<close>

definition strip_cr :: "string \<Rightarrow> string" where
  "strip_cr s = (if s \<noteq> [] \<and> last s = CHR 0x0D then butlast s else s)"

definition lines_of :: "string \<Rightarrow> string list" where
  "lines_of s =
     (let ps = split_on (CHR 0x0A) s
      in map strip_cr (butlast ps) @ (if last ps = [] then [] else [last ps]))"

definition code :: "char \<Rightarrow> nat" where
  "code c = of_char c"

definition is_ascii_digit :: "char \<Rightarrow> bool" where
  "is_ascii_digit c = (48 \<le> code c \<and> code c \<le> 57)"

definition is_ascii_upper :: "char \<Rightarrow> bool" where
  "is_ascii_upper c = (65 \<le> code c \<and> code c \<le> 90)"

definition is_ascii_lower :: "char \<Rightarrow> bool" where
  "is_ascii_lower c = (97 \<le> code c \<and> code c \<le> 122)"

definition is_ascii_alphanumeric :: "char \<Rightarrow> bool" where
  "is_ascii_alphanumeric c = (is_ascii_digit c \<or> is_ascii_upper c \<or> is_ascii_lower c)"

definition to_ascii_lower :: "char \<Rightarrow> char" where
  "to_ascii_lower c = (if is_ascii_upper c then char_of (code c + 32) else c)"

definition to_ascii_lowercase :: "string \<Rightarrow> string" where
  "to_ascii_lowercase s = map to_ascii_lower s"

definition eq_ignore_ascii_case :: "string \<Rightarrow> string \<Rightarrow> bool" where
  "eq_ignore_ascii_case a b = (to_ascii_lowercase a = to_ascii_lowercase b)"

section \<open>Integers\<close>

definition i64_min :: int where "i64_min = - (2 ^ 63)"
definition i64_max :: int where "i64_max = 2 ^ 63 - 1"
definition u64_max :: int where "u64_max = 2 ^ 64 - 1"

definition is_i64 :: "int \<Rightarrow> bool" where
  "is_i64 i = (i64_min \<le> i \<and> i \<le> i64_max)"

text \<open>Two's complement wrap-around: the value an \<open>i64\<close> operation leaves in a release build.\<close>

definition i64_wrap :: "int \<Rightarrow> int" where
  "i64_wrap i = (i + 2 ^ 63) mod 2 ^ 64 - 2 ^ 63"

definition digit :: "nat \<Rightarrow> char" where
  "digit d = char_of (48 + d)"

fun show_nat :: "nat \<Rightarrow> string" where
  "show_nat n = (if n < 10 then [digit n] else show_nat (n div 10) @ [digit (n mod 10)])"

declare show_nat.simps [simp del]

definition show_int :: "int \<Rightarrow> string" where
  "show_int i = (if i < 0 then CHR ''-'' # show_nat (nat (- i)) else show_nat (nat i))"

fun read_digits :: "nat \<Rightarrow> string \<Rightarrow> nat option" where
  "read_digits acc [] = Some acc"
| "read_digits acc (c # s) =
     (if is_ascii_digit c then read_digits (10 * acc + (code c - 48)) s else None)"

definition parse_nat :: "string \<Rightarrow> nat option" where
  "parse_nat s = (if s = [] then None else read_digits 0 s)"

text \<open>\<open>str::parse::<i64>\<close> and \<open>str::parse::<u64>\<close>: an optional sign, digits, no overflow.\<close>

definition parse_i64 :: "string \<Rightarrow> int option" where
  "parse_i64 s =
     (let r = (case s of
                 c # t \<Rightarrow> (if c = CHR ''-'' then map_option (\<lambda>n. - int n) (parse_nat t)
                           else if c = CHR ''+'' then map_option int (parse_nat t)
                           else map_option int (parse_nat s))
               | [] \<Rightarrow> None)
      in case r of Some i \<Rightarrow> if is_i64 i then Some i else None | None \<Rightarrow> None)"

definition parse_u64 :: "string \<Rightarrow> int option" where
  "parse_u64 s =
     (let r = (case s of
                 c # t \<Rightarrow> (if c = CHR ''+'' then parse_nat t else parse_nat s)
               | [] \<Rightarrow> None)
      in case r of Some n \<Rightarrow> if int n \<le> u64_max then Some (int n) else None | None \<Rightarrow> None)"

section \<open>Facts about searching and splitting\<close>

lemma contains_str_iff: "contains_str p s \<longleftrightarrow> sublist p s"
  by (induction s) (auto simp: sublist_Cons_right)

lemma starts_with_append [simp]: "starts_with p (p @ s)"
  by (simp add: starts_with_def)

lemma strip_prefix_append [simp]: "strip_prefix p (p @ s) = Some s"
  by (simp add: strip_prefix_def)

lemma strip_prefix_SomeD: "strip_prefix p s = Some t \<Longrightarrow> s = p @ t"
  by (auto simp: strip_prefix_def prefix_def split: if_splits)

lemma split_once_str_SomeD: "split_once_str p s = Some (a, b) \<Longrightarrow> s = a @ p @ b"
proof (induction s arbitrary: a)
  case (Cons c s)
  then show ?case by (auto simp: prefix_def split: if_splits)
qed (auto split: if_splits)

lemma split_once_char:
  "split_once_str [c] s =
    (if c \<in> set s then Some (takeWhile (\<lambda>x. x \<noteq> c) s, tl (dropWhile (\<lambda>x. x \<noteq> c) s)) else None)"
  by (induction s) auto

lemma split_once_char_append: "c \<notin> set a \<Longrightarrow> split_once_str [c] (a @ c # b) = Some (a, b)"
  by (induction a) auto

lemma split_once_char_SomeD:
  "split_once_str [c] s = Some (a, b) \<Longrightarrow> s = a @ c # b \<and> c \<notin> set a"
proof (induction s arbitrary: a)
  case (Cons d s)
  then show ?case by (auto split: if_splits)
qed simp

lemma split_once_str_append:
  assumes "p \<noteq> []" and "\<not> sublist p (a @ butlast p)"
  shows "split_once_str p (a @ p @ b) = Some (a, b)"
  using assms(2)
proof (induction a)
  case Nil
  show ?case
  proof (cases p)
    case (Cons c q)
    then show ?thesis by simp
  qed (use assms(1) in simp)
next
  case (Cons c a)
  have IH: "split_once_str p (a @ p @ b) = Some (a, b)"
    using Cons by (simp add: sublist_Cons_right)
  have "\<not> prefix p (c # a @ p @ b)"
  proof
    assume "prefix p (c # a @ p @ b)"
    then have "p = take (length p) (c # a @ p @ b)"
      by (metis append_eq_conv_conj prefix_def)
    moreover have "take (length p) (c # a @ p @ b) = take (length p) (c # a @ butlast p)"
      using assms(1) by (cases p) (auto simp: butlast_conv_take min_def take_Cons' not_le)
    ultimately have "prefix p (c # a @ butlast p)"
      by (metis take_is_prefix)
    with Cons.prems show False by (auto simp: sublist_Cons_right)
  qed
  with IH show ?case by simp
qed

lemma split_on_nonempty [simp]: "split_on c s \<noteq> []"
  by (cases s) (auto split: list.split)

lemma split_on_none: "c \<notin> set s \<Longrightarrow> split_on c s = [s]"
  by (induction s) (auto split: list.split)

lemma split_on_append: "c \<notin> set a \<Longrightarrow> split_on c (a @ c # s) = a # split_on c s"
  by (induction a) (auto split: list.split)

lemma split_on_join:
  "xs \<noteq> [] \<Longrightarrow> (\<And>x. x \<in> set xs \<Longrightarrow> c \<notin> set x) \<Longrightarrow> split_on c (join_with [c] xs) = xs"
proof (induction xs)
  case (Cons x xs)
  then show ?case by (cases xs) (simp_all add: split_on_none split_on_append)
qed simp

lemma rsplit_once_str_SomeD: "rsplit_once_str p s = Some (a, b) \<Longrightarrow> s = a @ p @ b"
  unfolding rsplit_once_str_def
  by (auto dest!: split_once_str_SomeD) (metis append.assoc rev_append rev_rev_ident)

text \<open>
  Splitting at the last \<open>--\<close>: it is found when the tail has no \<open>--\<close> and does not
  start with a dash.
\<close>

definition no_dd :: "string \<Rightarrow> bool" where
  "no_dd s = (\<not> sublist ''--'' (CHR ''-'' # s))"

lemma rsplit_dd_append:
  assumes "no_dd b"
  shows "rsplit_once_str ''--'' (a @ ''--'' @ b) = Some (a, b)"
proof -
  have "\<not> sublist ''--'' (rev b @ butlast ''--'')"
  proof
    assume "sublist ''--'' (rev b @ butlast ''--'')"
    then have "sublist (rev ''--'') (rev (rev b @ butlast ''--''))"
      by (simp only: sublist_rev)
    then show False using assms by (simp add: no_dd_def)
  qed
  then have "split_once_str ''--'' (rev b @ ''--'' @ rev a) = Some (rev b, rev a)"
    by (intro split_once_str_append) auto
  then show ?thesis by (simp add: rsplit_once_str_def)
qed

lemma no_dd_no_dash: "CHR ''-'' \<notin> set s \<Longrightarrow> no_dd s"
proof -
  assume "CHR ''-'' \<notin> set s"
  moreover have "set ''--'' \<subseteq> set s" if "sublist ''--'' s" using that by (rule set_mono_sublist)
  ultimately show ?thesis
    unfolding no_dd_def by (cases s) (auto simp: sublist_Cons_right)
qed

section \<open>Facts about numbers\<close>

lemma code_char_of [simp]: "n < 256 \<Longrightarrow> code (char_of n) = n"
  by (simp add: code_def)

lemma code_digit [simp]: "d < 10 \<Longrightarrow> code (digit d) = 48 + d"
  by (simp add: digit_def)

lemma is_ascii_digit_digit [simp]: "d < 10 \<Longrightarrow> is_ascii_digit (digit d)"
  by (simp add: is_ascii_digit_def)

lemma show_nat_nonempty [simp]: "show_nat n \<noteq> []"
  by (subst show_nat.simps) simp

lemma show_nat_digits: "c \<in> set (show_nat n) \<Longrightarrow> is_ascii_digit c"
proof (induction n rule: show_nat.induct)
  case (1 n)
  then show ?case
    by (cases "n < 10") (auto simp: show_nat.simps[of n])
qed

lemma read_digits_append:
  "read_digits acc (s @ t) = (case read_digits acc s of None \<Rightarrow> None | Some a \<Rightarrow> read_digits a t)"
  by (induction acc s rule: read_digits.induct) auto

lemma read_digits_show_nat: "read_digits 0 (show_nat n) = Some n"
proof (induction n rule: show_nat.induct)
  case (1 n)
  show ?case
  proof (cases "n < 10")
    case True
    then show ?thesis by (simp add: show_nat.simps[of n])
  next
    case False
    with 1 show ?thesis
      by (simp add: show_nat.simps[of n] read_digits_append)
  qed
qed

lemma parse_nat_show_nat [simp]: "parse_nat (show_nat n) = Some n"
  by (simp add: parse_nat_def read_digits_show_nat)

lemma show_nat_inj [simp]: "show_nat m = show_nat n \<longleftrightarrow> m = n"
  by (metis option.inject parse_nat_show_nat)

lemma show_nat_hd: "show_nat n = c # t \<Longrightarrow> is_ascii_digit c"
  using show_nat_digits[of c n] by simp

lemma parse_i64_show_int: "is_i64 i \<Longrightarrow> parse_i64 (show_int i) = Some i"
proof -
  assume i: "is_i64 i"
  show ?thesis
  proof (cases "i < 0")
    case True
    with i show ?thesis by (simp add: parse_i64_def show_int_def)
  next
    case False
    obtain c t where ct: "show_nat (nat i) = c # t"
      using show_nat_nonempty[of "nat i"] by (cases "show_nat (nat i)") auto
    then have "is_ascii_digit c" by (rule show_nat_hd)
    then have "c \<noteq> CHR ''-''" "c \<noteq> CHR ''+''" by (auto simp: is_ascii_digit_def code_def)
    with False i ct show ?thesis
      using parse_nat_show_nat[of "nat i"] by (simp add: parse_i64_def show_int_def)
  qed
qed

lemma show_int_nonneg_digits: "0 \<le> i \<Longrightarrow> c \<in> set (show_int i) \<Longrightarrow> is_ascii_digit c"
  by (auto simp: show_int_def intro: show_nat_digits)

lemma show_int_chars: "c \<in> set (show_int i) \<Longrightarrow> is_ascii_digit c \<or> c = CHR ''-''"
  by (auto simp: show_int_def split: if_splits intro: show_nat_digits)

lemma show_int_nonempty [simp]: "show_int i \<noteq> []"
  by (simp add: show_int_def)

lemma show_int_inj [simp]: "show_int i = show_int j \<longleftrightarrow> i = j"
proof
  have hd_neg: "show_nat n \<noteq> CHR ''-'' # s" for n s
    using show_nat_hd[of n "CHR ''-''" s] by (auto simp: is_ascii_digit_def code_def)
  assume "show_int i = show_int j"
  then show "i = j"
    using hd_neg[of "nat i"] hd_neg[of "nat j"] hd_neg[of "nat i", symmetric] hd_neg[of "nat j", symmetric]
    by (auto simp: show_int_def nat_eq_iff split: if_splits)
qed simp

lemma parse_nat_SomeD: "parse_nat s = Some n \<Longrightarrow> s \<noteq> [] \<and> (\<forall>c \<in> set s. is_ascii_digit c)"
proof -
  have "\<forall>c \<in> set s. is_ascii_digit c" if "read_digits acc s = Some n" for acc
    using that by (induction acc s rule: read_digits.induct) (auto split: if_splits)
  then show "parse_nat s = Some n \<Longrightarrow> ?thesis" by (auto simp: parse_nat_def split: if_splits)
qed

lemma parse_i64_chars:
  assumes "parse_i64 s = Some i" and "c \<in> set s"
  shows "is_ascii_digit c \<or> c = CHR ''-'' \<or> c = CHR ''+''"
  using assms
  by (auto simp: parse_i64_def split: list.splits option.splits if_splits dest!: parse_nat_SomeD)

lemma parse_i64_range: "parse_i64 s = Some i \<Longrightarrow> is_i64 i"
  by (auto simp: parse_i64_def Let_def split: list.splits option.splits if_splits)

lemma i64_wrap_id: "is_i64 i \<Longrightarrow> i64_wrap i = i"
  by (simp add: i64_wrap_def is_i64_def i64_min_def i64_max_def)

lemma i64_wrap_range: "is_i64 (i64_wrap i)"
proof -
  have "0 \<le> (i + 2 ^ 63) mod (2 ^ 64 :: int)" "(i + 2 ^ 63) mod (2 ^ 64 :: int) < 2 ^ 64"
    by simp_all
  then show ?thesis
    by (simp add: is_i64_def i64_wrap_def i64_min_def i64_max_def)
qed

lemma no_dd_show_int: "0 \<le> i \<Longrightarrow> no_dd (show_int i)"
  by (rule no_dd_no_dash) (auto dest!: show_int_nonneg_digits simp: is_ascii_digit_def code_def)

end
