(* ===== verification/F64.thy ===== *)
theory F64
  imports RustStd "HOL-Library.Log_Nat"
begin

text \<open>
  IEEE 754 binary floating point as the code uses it: \<open>f64\<close> values, comparisons that are
  false on NaN, arithmetic rounded to nearest even, and Rust's saturating casts. A finite value
  is its exact rational; the two zeros are one value (they compare equal, and the code never
  divides by a zero it has not excluded). \<open>f32\<close> values are \<open>f64\<close> values of the
  smaller format, so widening is the identity.
\<close>

datatype f64 = Fin rat | PInf | NInf | NaN

section \<open>Rounding\<close>

definition pow2 :: "int \<Rightarrow> rat" where
  "pow2 e = (if 0 \<le> e then 2 ^ nat e else 1 / 2 ^ nat (- e))"

text \<open>\<open>ilog2 q\<close> is the exponent of \<open>q\<close>: \<open>pow2 e \<le> q < pow2 (e + 1)\<close> for positive \<open>q\<close>.\<close>

definition ilog2 :: "rat \<Rightarrow> int" where
  "ilog2 q =
     (let (n, d) = quotient_of q; e = bitlen n - bitlen d
      in if pow2 e \<le> q then e else e - 1)"

definition round_half_even :: "rat \<Rightarrow> int" where
  "round_half_even q =
     (let f = \<lfloor>q\<rfloor>; r = q - of_int f
      in if r < 1 / 2 then f else if 1 / 2 < r then f + 1 else if even f then f else f + 1)"

text \<open>Round an exact rational to the format with \<open>p\<close> significant bits and exponents \<open>emin..emax\<close>.\<close>

definition round_to :: "nat \<Rightarrow> int \<Rightarrow> int \<Rightarrow> rat \<Rightarrow> f64" where
  "round_to p emin emax q =
     (if q = 0 then Fin 0
      else let u = pow2 (max (ilog2 \<bar>q\<bar>) emin - (int p - 1));
               v = of_int (round_half_even (q / u)) * u
           in if pow2 (emax + 1) \<le> v then PInf
              else if v \<le> - pow2 (emax + 1) then NInf
              else Fin v)"

definition rnd :: "rat \<Rightarrow> f64" where
  "rnd q = round_to 53 (- 1022) 1023 q"

definition rnd32 :: "rat \<Rightarrow> f64" where
  "rnd32 q = round_to 24 (- 126) 127 q"

section \<open>Comparison\<close>

fun f_lt :: "f64 \<Rightarrow> f64 \<Rightarrow> bool" where
  "f_lt (Fin a) (Fin b) = (a < b)"
| "f_lt (Fin a) PInf = True"
| "f_lt NInf (Fin b) = True"
| "f_lt NInf PInf = True"
| "f_lt _ _ = False"

fun f_le :: "f64 \<Rightarrow> f64 \<Rightarrow> bool" where
  "f_le (Fin a) (Fin b) = (a \<le> b)"
| "f_le NaN b = False"
| "f_le a NaN = False"
| "f_le a PInf = True"
| "f_le NInf b = True"
| "f_le _ _ = False"

abbreviation f_gt :: "f64 \<Rightarrow> f64 \<Rightarrow> bool" where "f_gt a b \<equiv> f_lt b a"
abbreviation f_ge :: "f64 \<Rightarrow> f64 \<Rightarrow> bool" where "f_ge a b \<equiv> f_le b a"

text \<open>\<open>a == b\<close>: NaN equals nothing.\<close>

definition f_eq :: "f64 \<Rightarrow> f64 \<Rightarrow> bool" where
  "f_eq a b = (a \<noteq> NaN \<and> a = b)"

text \<open>\<open>f64::max\<close> and \<open>f64::min\<close> ignore a NaN operand.\<close>

definition f_max :: "f64 \<Rightarrow> f64 \<Rightarrow> f64" where
  "f_max a b = (if a = NaN then b else if b = NaN then a else if f_lt a b then b else a)"

definition f_min :: "f64 \<Rightarrow> f64 \<Rightarrow> f64" where
  "f_min a b = (if a = NaN then b else if b = NaN then a else if f_lt b a then b else a)"

section \<open>Arithmetic\<close>

fun f_neg :: "f64 \<Rightarrow> f64" where
  "f_neg (Fin a) = Fin (- a)"
| "f_neg PInf = NInf"
| "f_neg NInf = PInf"
| "f_neg NaN = NaN"

fun f_add :: "f64 \<Rightarrow> f64 \<Rightarrow> f64" where
  "f_add (Fin a) (Fin b) = rnd (a + b)"
| "f_add NaN _ = NaN"
| "f_add _ NaN = NaN"
| "f_add PInf NInf = NaN"
| "f_add NInf PInf = NaN"
| "f_add PInf _ = PInf"
| "f_add NInf _ = NInf"
| "f_add _ b = b"

definition f_sub :: "f64 \<Rightarrow> f64 \<Rightarrow> f64" where
  "f_sub a b = f_add a (f_neg b)"

definition f_sgn_inf :: "rat \<Rightarrow> f64 \<Rightarrow> f64" where
  "f_sgn_inf a i = (if a = 0 then NaN else if 0 < a then i else f_neg i)"

fun f_mul :: "f64 \<Rightarrow> f64 \<Rightarrow> f64" where
  "f_mul (Fin a) (Fin b) = rnd (a * b)"
| "f_mul NaN _ = NaN"
| "f_mul _ NaN = NaN"
| "f_mul (Fin a) i = f_sgn_inf a i"
| "f_mul i (Fin b) = f_sgn_inf b i"
| "f_mul PInf b = b"
| "f_mul NInf b = f_neg b"

text \<open>Division; a zero divisor is taken as \<open>+0\<close>.\<close>

fun f_div :: "f64 \<Rightarrow> f64 \<Rightarrow> f64" where
  "f_div (Fin a) (Fin b) =
     (if b = 0 then (if a = 0 then NaN else if 0 < a then PInf else NInf) else rnd (a / b))"
| "f_div NaN _ = NaN"
| "f_div _ NaN = NaN"
| "f_div (Fin a) _ = Fin 0"
| "f_div i (Fin b) = (if b < 0 then f_neg i else i)"
| "f_div _ _ = NaN"

section \<open>Casts\<close>

definition trunc_rat :: "rat \<Rightarrow> int" where
  "trunc_rat q = (if 0 \<le> q then \<lfloor>q\<rfloor> else \<lceil>q\<rceil>)"

text \<open>\<open>as i64\<close> and \<open>as u64\<close>: towards zero, saturating, NaN to 0.\<close>

fun f_to_i64 :: "f64 \<Rightarrow> int" where
  "f_to_i64 (Fin a) = max i64_min (min i64_max (trunc_rat a))"
| "f_to_i64 PInf = i64_max"
| "f_to_i64 NInf = i64_min"
| "f_to_i64 NaN = 0"

fun f_to_u64 :: "f64 \<Rightarrow> int" where
  "f_to_u64 (Fin a) = max 0 (min u64_max (trunc_rat a))"
| "f_to_u64 PInf = u64_max"
| "f_to_u64 NInf = 0"
| "f_to_u64 NaN = 0"

definition f_of_int :: "int \<Rightarrow> f64" where
  "f_of_int i = rnd (of_int i)"

abbreviation f_zero :: f64 where "f_zero \<equiv> Fin 0"

section \<open>Order facts\<close>

lemma f_le_refl: "a \<noteq> NaN \<Longrightarrow> f_le a a"
  by (cases a) simp_all

lemma f_le_trans: "f_le a b \<Longrightarrow> f_le b c \<Longrightarrow> f_le a c"
  by (cases a; cases b; cases c) simp_all

lemma f_lt_imp_le: "f_lt a b \<Longrightarrow> f_le a b"
  by (cases a; cases b) simp_all

lemma f_le_total: "a \<noteq> NaN \<Longrightarrow> b \<noteq> NaN \<Longrightarrow> f_le a b \<or> f_le b a"
  by (cases a; cases b) auto

lemma f_not_lt: "a \<noteq> NaN \<Longrightarrow> b \<noteq> NaN \<Longrightarrow> \<not> f_lt a b \<longleftrightarrow> f_le b a"
  by (cases a; cases b) auto

lemma f_le_not_nan: "f_le a b \<Longrightarrow> a \<noteq> NaN \<and> b \<noteq> NaN"
  by (cases a; cases b) auto

lemma f_lt_nan [simp]: "\<not> f_lt NaN b" "\<not> f_lt a NaN"
  by (cases b; simp) (cases a; simp)

lemma f_le_nan [simp]: "\<not> f_le NaN b" "\<not> f_le a NaN"
  by (cases b; simp) (cases a; simp)

section \<open>Rounding is monotone\<close>

lemma pow2_pos [simp]: "0 < pow2 e"
  by (simp add: pow2_def)

lemma pow2_pos_simps [simp]: "0 \<le> pow2 e" "pow2 e \<noteq> 0" "\<not> pow2 e \<le> 0" "\<bar>pow2 e\<bar> = pow2 e"
  using pow2_pos[of e] by linarith+

lemma pow2_add: "pow2 (a + b) = pow2 a * pow2 b"
proof -
  have pr: "pow2 e = power_int 2 e" for e
    by (simp add: pow2_def power_int_def inverse_eq_divide power_one_over)
  show ?thesis by (simp add: pr power_int_add)
qed

lemma pow2_mono: "a \<le> b \<Longrightarrow> pow2 a \<le> pow2 b"
proof -
  assume "a \<le> b"
  then have "1 \<le> pow2 (b - a)" by (simp add: pow2_def)
  then have "pow2 a * 1 \<le> pow2 a * pow2 (b - a)" by (intro mult_left_mono) (simp_all add: less_imp_le)
  then show ?thesis using pow2_add[of a "b - a"] by simp
qed

lemma pow2_nat: "pow2 (int n) = 2 ^ n"
  by (simp add: pow2_def)

lemma bitlen_range:
  assumes "0 < n" shows "pow2 (bitlen n - 1) \<le> of_int n" and "of_int n < pow2 (bitlen n)"
proof -
  have b: "2 ^ nat (bitlen n - 1) \<le> n" "n < 2 ^ nat (bitlen n)"
    using bitlen_bounds[OF assms] by auto
  have p: "0 < bitlen n" using assms bitlen_nonneg[of n] bitlen_eq_zero_iff[of n] by linarith
  have "(of_int (2 ^ nat (bitlen n - 1)) :: rat) \<le> of_int n" using b(1) by (simp only: of_int_le_iff)
  then show "pow2 (bitlen n - 1) \<le> of_int n" using p by (simp add: pow2_def)
  have "(of_int n :: rat) < of_int (2 ^ nat (bitlen n))" using b(2) by (simp only: of_int_less_iff)
  then show "of_int n < pow2 (bitlen n)" using p by (simp add: pow2_def)
qed

lemma ilog2_range:
  assumes "0 < q" shows "pow2 (ilog2 q) \<le> q" and "q < pow2 (ilog2 q + 1)"
proof -
  obtain n d where nd: "quotient_of q = (n, d)" by (cases "quotient_of q")
  then have d: "0 < d" and q: "q = of_int n / of_int d"
    using quotient_of_denom_pos quotient_of_div by blast+
  with assms have n: "0 < n" by (simp add: zero_less_divide_iff)
  let ?e = "bitlen n - bitlen d"
  have "of_int n < pow2 (?e + 1) * of_int d"
  proof -
    have "of_int n < pow2 (?e + 1 + (bitlen d - 1))" using bitlen_range(2)[OF n] by simp
    also have "... = pow2 (?e + 1) * pow2 (bitlen d - 1)" by (rule pow2_add)
    also have "... \<le> pow2 (?e + 1) * of_int d"
      using bitlen_range(1)[OF d] by (intro mult_left_mono) (simp_all add: less_imp_le)
    finally show ?thesis .
  qed
  then have hi: "q < pow2 (?e + 1)" using d by (simp add: q pos_divide_less_eq)
  have "pow2 (?e - 1) * of_int d \<le> of_int n"
  proof -
    have "pow2 (?e - 1) * of_int d \<le> pow2 (?e - 1) * pow2 (bitlen d)"
      using bitlen_range(2)[OF d] by (intro mult_left_mono) (simp_all add: less_imp_le)
    also have "... = pow2 (bitlen n - 1)" by (simp add: pow2_add[symmetric])
    also have "... \<le> of_int n" by (rule bitlen_range(1)[OF n])
    finally show ?thesis .
  qed
  then have lo: "pow2 (?e - 1) \<le> q" using d by (simp add: q pos_le_divide_eq)
  show "pow2 (ilog2 q) \<le> q" "q < pow2 (ilog2 q + 1)"
    using hi lo by (auto simp: ilog2_def nd Let_def)
qed

lemma ilog2_mono: "0 < a \<Longrightarrow> a \<le> b \<Longrightarrow> ilog2 a \<le> ilog2 b"
proof (rule ccontr)
  assume a: "0 < a" "a \<le> b" and "\<not> ilog2 a \<le> ilog2 b"
  then have "pow2 (ilog2 b + 1) \<le> pow2 (ilog2 a)" by (intro pow2_mono) simp
  with ilog2_range(1)[of a] ilog2_range(2)[of b] a show False by simp
qed

lemma round_half_even_bounds:
  "\<lfloor>q\<rfloor> \<le> round_half_even q" "round_half_even q \<le> \<lfloor>q\<rfloor> + 1"
  by (auto simp: round_half_even_def Let_def)

lemma round_half_even_int [simp]: "round_half_even (of_int i) = i"
  by (simp add: round_half_even_def Let_def)

lemma round_half_even_simps [simp]: "round_half_even 0 = 0" "round_half_even (2 ^ n) = 2 ^ n"
  using round_half_even_int[of 0] round_half_even_int[of "2 ^ n"] by simp_all

lemma round_half_even_mono: "a \<le> b \<Longrightarrow> round_half_even a \<le> round_half_even b"
proof -
  assume ab: "a \<le> b"
  show ?thesis
  proof (cases "\<lfloor>a\<rfloor> = \<lfloor>b\<rfloor>")
    case True
    with ab show ?thesis by (auto simp: round_half_even_def Let_def)
  next
    case False
    then have "\<lfloor>a\<rfloor> + 1 \<le> \<lfloor>b\<rfloor>" using floor_mono[OF ab] by simp
    then show ?thesis using round_half_even_bounds(2)[of a] round_half_even_bounds(1)[of b] by linarith
  qed
qed

lemma round_half_even_neg: "round_half_even (- q) = - round_half_even q"
proof (cases "q = of_int \<lfloor>q\<rfloor>")
  case True
  then show ?thesis by (metis of_int_minus round_half_even_int)
next
  case False
  then have "of_int \<lfloor>q\<rfloor> < q" using of_int_floor_le[of q] by linarith
  then have f: "\<lfloor>- q\<rfloor> = - \<lfloor>q\<rfloor> - 1" by (intro floor_unique) (auto, linarith+)
  show ?thesis unfolding round_half_even_def Let_def f by (auto simp: field_simps)
qed

text \<open>The rounded magnitude, before the overflow test.\<close>

definition grid :: "nat \<Rightarrow> int \<Rightarrow> rat \<Rightarrow> rat" where
  "grid p emin q =
     (let u = pow2 (max (ilog2 \<bar>q\<bar>) emin - (int p - 1)) in of_int (round_half_even (q / u)) * u)"

lemma round_to_grid:
  "round_to p emin emax q =
    (if q = 0 then Fin 0
     else if pow2 (emax + 1) \<le> grid p emin q then PInf
     else if grid p emin q \<le> - pow2 (emax + 1) then NInf
     else Fin (grid p emin q))"
  by (simp add: round_to_def grid_def Let_def)

lemma grid_neg: "grid p emin (- q) = - grid p emin q"
  by (simp add: grid_def Let_def round_half_even_neg)

lemma grid_nonneg: "0 \<le> q \<Longrightarrow> 0 \<le> grid p emin q"
proof -
  assume "0 \<le> q"
  then have "round_half_even 0 \<le> round_half_even (q / pow2 e)" for e
    by (intro round_half_even_mono) (simp add: less_imp_le)
  then show ?thesis by (simp add: grid_def Let_def less_imp_le)
qed

lemma grid_mono_pos:
  assumes "0 < a" "a \<le> b" "1 \<le> p" shows "grid p emin a \<le> grid p emin b"
proof -
  define ea where "ea = max (ilog2 a) emin"
  define eb where "eb = max (ilog2 b) emin"
  let ?u = "\<lambda>e. pow2 (e - (int p - 1))"
  have le: "ea \<le> eb" using ilog2_mono[OF assms(1,2)] by (simp add: ea_def eb_def)
  have ga: "grid p emin a = of_int (round_half_even (a / ?u ea)) * ?u ea"
    and gb: "grid p emin b = of_int (round_half_even (b / ?u eb)) * ?u eb"
    using assms by (simp_all add: grid_def ea_def eb_def Let_def)
  show ?thesis
  proof (cases "ea = eb")
    case True
    have "a / ?u eb \<le> b / ?u eb" using assms by (intro divide_right_mono) (simp_all add: less_imp_le)
    then have "of_int (round_half_even (a / ?u eb)) \<le> (of_int (round_half_even (b / ?u eb)) :: rat)"
      using round_half_even_mono by simp
    then show ?thesis unfolding ga gb True by (intro mult_right_mono) (simp_all add: less_imp_le)
  next
    case False
    with le have lt: "ea + 1 \<le> eb" by simp
    then have eb: "eb = ilog2 b" by (auto simp: ea_def eb_def max_def split: if_splits)
    have up: "pow2 (int p) = of_int (2 ^ p)" and um: "pow2 (int p - 1) = of_int (2 ^ (p - 1))"
      using assms(3) by (simp_all add: pow2_def nat_diff_distrib)
    have "a < pow2 (ilog2 a + 1)" using ilog2_range(2)[OF assms(1)] .
    also have "... \<le> pow2 (ea + 1)" by (intro pow2_mono) (simp add: ea_def)
    also have "... = pow2 (int p) * ?u ea" by (simp add: pow2_add[symmetric])
    finally have "a / ?u ea \<le> of_int (2 ^ p)" by (simp add: up pos_divide_le_eq)
    then have "round_half_even (a / ?u ea) \<le> 2 ^ p"
      using round_half_even_mono[of "a / ?u ea" "of_int (2 ^ p)"] by simp
    then have "(of_int (round_half_even (a / ?u ea)) :: rat) \<le> of_int (2 ^ p)" by (simp only: of_int_le_iff)
    then have "grid p emin a \<le> of_int (2 ^ p) * ?u ea"
      unfolding ga by (intro mult_right_mono) (simp_all add: less_imp_le)
    also have "... = pow2 (ea + 1)" unfolding up[symmetric] by (simp add: pow2_add[symmetric])
    also have "... \<le> pow2 eb" using lt by (rule pow2_mono)
    also have "... = of_int (2 ^ (p - 1)) * ?u eb" unfolding um[symmetric] by (simp add: pow2_add[symmetric])
    also have "... \<le> grid p emin b"
    proof -
      have "pow2 (int p - 1) * ?u eb \<le> b"
        using ilog2_range(1)[of b] assms eb by (simp add: pow2_add[symmetric])
      then have "of_int (2 ^ (p - 1)) \<le> b / ?u eb" by (simp add: um pos_le_divide_eq)
      then have "2 ^ (p - 1) \<le> round_half_even (b / ?u eb)"
        using round_half_even_mono[of "of_int (2 ^ (p - 1))"] by simp
      then have "(of_int (2 ^ (p - 1)) :: rat) \<le> of_int (round_half_even (b / ?u eb))"
        by (simp only: of_int_le_iff)
      then show ?thesis unfolding gb by (intro mult_right_mono) (simp_all add: less_imp_le)
    qed
    finally show ?thesis .
  qed
qed

lemma grid_zero [simp]: "grid p emin 0 = 0"
  by (simp add: grid_def)

lemma grid_mono: "1 \<le> p \<Longrightarrow> a \<le> b \<Longrightarrow> grid p emin a \<le> grid p emin b"
proof -
  assume p: "1 \<le> p" and ab: "a \<le> b"
  consider "0 < a" | "a \<le> 0" "0 \<le> b" | "b < 0" by linarith
  then show ?thesis
  proof cases
    case 1
    then show ?thesis using p ab by (intro grid_mono_pos)
  next
    case 2
    then show ?thesis using grid_nonneg[of "- a" p emin] grid_nonneg[of b p emin] by (simp add: grid_neg)
  next
    case 3
    then show ?thesis using grid_mono_pos[of "- b" "- a" p emin] p ab by (simp add: grid_neg)
  qed
qed

lemma round_to_mono: "1 \<le> p \<Longrightarrow> a \<le> b \<Longrightarrow> f_le (round_to p emin emax a) (round_to p emin emax b)"
proof -
  assume p: "1 \<le> p" and ab: "a \<le> b"
  have g: "grid p emin a \<le> grid p emin b" using p ab by (rule grid_mono)
  have R: "round_to p emin emax q =
    (if pow2 (emax + 1) \<le> grid p emin q then PInf
     else if grid p emin q \<le> - pow2 (emax + 1) then NInf else Fin (grid p emin q))" for q
    using pow2_pos[of "emax + 1"] by (auto simp: round_to_grid not_le[symmetric])
  show ?thesis unfolding R using g pow2_pos[of "emax + 1"] by (auto split: if_splits)
qed

lemma rnd_mono: "a \<le> b \<Longrightarrow> f_le (rnd a) (rnd b)"
  unfolding rnd_def by (rule round_to_mono) simp

lemma rnd_zero [simp]: "rnd 0 = Fin 0" "rnd32 0 = Fin 0"
  by (simp_all add: rnd_def rnd32_def round_to_def)

lemma rnd_not_nan [simp]: "rnd q \<noteq> NaN" "rnd32 q \<noteq> NaN"
  by (simp_all add: rnd_def rnd32_def round_to_def Let_def)

lemma rnd_nonneg: "0 \<le> q \<Longrightarrow> f_le f_zero (rnd q)"
  using rnd_mono[of 0 q] by simp

lemma rnd_pinf_or: "rnd q = PInf \<or> rnd q = NInf \<or> (\<exists>v. rnd q = Fin v)"
  by (cases "rnd q") auto

lemma f_le_pinf: "a \<noteq> NaN \<Longrightarrow> f_le a PInf"
  by (cases a) simp_all

text \<open>Adding keeps the order, as long as no infinities of opposite sign meet.\<close>

lemma f_add_mono_nonneg:
  assumes "f_le a b" "f_le f_zero a" "f_le f_zero c"
  shows "f_le (f_add a c) (f_add b c)"
proof (cases c)
  case (Fin z)
  then show ?thesis using assms
    using rnd_pinf_or by (cases a; cases b) (auto intro: rnd_mono f_le_refl f_le_pinf)
next
  case PInf
  then show ?thesis using assms by (cases a; cases b) auto
qed (use assms in simp_all)

lemma f_add_nonneg: "f_le f_zero a \<Longrightarrow> f_le f_zero b \<Longrightarrow> f_le f_zero (f_add a b)"
  by (cases a; cases b) (auto intro: rnd_nonneg)

lemma f_le_zero_add:
  assumes "f_le f_zero a" "f_le f_zero b" "f_le a c" shows "f_le f_zero (f_add c b)"
  using assms f_add_nonneg f_le_trans by blast

lemma f_mul_nonneg: "f_le f_zero a \<Longrightarrow> f_le f_zero b \<Longrightarrow> f_mul a b \<noteq> NaN \<Longrightarrow> f_le f_zero (f_mul a b)"
  by (cases a; cases b) (auto intro: rnd_nonneg simp: f_sgn_inf_def split: if_splits)

section \<open>Representable values\<close>

text \<open>A multiple of a power of two in range, with at most \<open>p\<close> significant bits, is on its own grid.\<close>

lemma grid_exact:
  assumes p: "1 \<le> p" and v: "v = of_int k * pow2 s" and k: "\<bar>k\<bar> \<le> 2 ^ p"
    and s: "emin - (int p - 1) \<le> s"
  shows "grid p emin v = v"
proof (cases "k = 0")
  case True
  then show ?thesis by (simp add: v)
next
  case False
  define E where "E = max (ilog2 \<bar>v\<bar>) emin"
  let ?t = "E - (int p - 1)"
  have abs: "\<bar>v\<bar> = of_int \<bar>k\<bar> * pow2 s" by (simp add: v abs_mult)
  with False have pos: "0 < \<bar>v\<bar>" by simp
  have "\<exists>i. v = of_int i * pow2 ?t"
  proof (cases "\<bar>k\<bar> = 2 ^ p")
    case True
    then have av: "\<bar>v\<bar> = pow2 (int p + s)" by (simp add: abs pow2_add pow2_nat)
    have "ilog2 \<bar>v\<bar> = int p + s"
    proof (rule ccontr)
      assume "ilog2 \<bar>v\<bar> \<noteq> int p + s"
      then consider "ilog2 \<bar>v\<bar> + 1 \<le> int p + s" | "int p + s + 1 \<le> ilog2 \<bar>v\<bar>" by linarith
      then show False
      proof cases
        case 1
        then show False using pow2_mono[OF 1] ilog2_range(2)[OF pos] av by simp
      next
        case 2
        have "pow2 (int p + s) < pow2 (int p + s + 1)" using pow2_add[of "int p + s" 1] by (simp add: pow2_def[of 1])
        then show False using pow2_mono[OF 2] ilog2_range(1)[OF pos] av by simp
      qed
    qed
    then have t: "?t = s + 1" using s by (simp add: E_def)
    obtain c where c: "k = c * 2"
    proof -
      have "(2::int) ^ p = 2 ^ (p - 1) * 2" using p power_minus_mult[of p "2::int"] by simp
      with True have "k = 2 ^ (p - 1) * 2 \<or> k = - (2 ^ (p - 1)) * 2" by linarith
      then show ?thesis using that by blast
    qed
    have "pow2 (s + 1) = pow2 s * 2" using pow2_add[of s 1] by (simp add: pow2_def[of 1])
    then have "v = of_int c * pow2 ?t" unfolding t by (simp add: v c)
    then show ?thesis by blast
  next
    case False
    with k have "\<bar>k\<bar> < 2 ^ p" by simp
    then have "(of_int \<bar>k\<bar> :: rat) < of_int (2 ^ p)" by (simp only: of_int_less_iff)
    then have "\<bar>v\<bar> < pow2 (int p) * pow2 s" unfolding abs by (simp add: pow2_nat)
    then have lt: "\<bar>v\<bar> < pow2 (int p + s)" by (simp add: pow2_add)
    have "ilog2 \<bar>v\<bar> < int p + s"
    proof (rule ccontr)
      assume "\<not> ilog2 \<bar>v\<bar> < int p + s"
      then show False using pow2_mono[of "int p + s" "ilog2 \<bar>v\<bar>"] ilog2_range(1)[OF pos] lt by simp
    qed
    then have "?t \<le> s" using s by (simp add: E_def)
    then have "pow2 s = of_int (2 ^ nat (s - ?t)) * pow2 ?t"
      using pow2_add[of "s - ?t" ?t] by (simp add: pow2_def[of "s - ?t"])
    then have "v = of_int (k * 2 ^ nat (s - ?t)) * pow2 ?t" using v by simp
    then show ?thesis by blast
  qed
  then obtain i where i: "v = of_int i * pow2 ?t" by blast
  then have "v / pow2 ?t = of_int i" using pow2_pos[of ?t] by (simp add: field_simps)
  then have "of_int (round_half_even (v / pow2 ?t)) * pow2 ?t = v" using i by simp
  then show ?thesis unfolding grid_def E_def[symmetric] Let_def .
qed

lemma grid_multiple:
  assumes p: "1 \<le> p"
  shows "\<exists>k s. grid p emin q = of_int k * pow2 s \<and> \<bar>k\<bar> \<le> 2 ^ p \<and> emin - (int p - 1) \<le> s"
proof (cases "q = 0")
  case True
  then show ?thesis by (intro exI[of _ 0] exI[of _ "emin - (int p - 1)"]) simp
next
  case False
  define E where "E = max (ilog2 \<bar>q\<bar>) emin"
  let ?u = "pow2 (E - (int p - 1))"
  let ?k = "round_half_even (q / ?u)"
  have "\<bar>q\<bar> < pow2 (ilog2 \<bar>q\<bar> + 1)" using ilog2_range(2)[of "\<bar>q\<bar>"] False by simp
  also have "... \<le> pow2 (E + 1)" by (intro pow2_mono) (simp add: E_def)
  also have "... = pow2 (int p) * ?u" by (simp add: pow2_add[symmetric])
  finally have "\<bar>q\<bar> / ?u \<le> 2 ^ p" by (simp add: pos_divide_le_eq pow2_nat)
  then have "q / ?u \<le> 2 ^ p" "- (q / ?u) \<le> 2 ^ p"
    by (auto simp: abs_if field_simps split: if_splits)
  then have "?k \<le> 2 ^ p" "round_half_even (- (q / ?u)) \<le> 2 ^ p"
    using round_half_even_mono[of _ "2 ^ p"] by (metis round_half_even_simps(2))+
  then have "\<bar>?k\<bar> \<le> 2 ^ p" by (simp add: round_half_even_neg abs_if)
  then show ?thesis
    by (intro exI[of _ ?k] exI[of _ "E - (int p - 1)"]) (simp add: grid_def E_def Let_def)
qed

lemma grid_idem: "1 \<le> p \<Longrightarrow> grid p emin (grid p emin q) = grid p emin q"
  using grid_multiple[of p emin q] grid_exact[of p _ _ _ emin] by metis

lemma rnd_idem: "rnd q = Fin v \<Longrightarrow> rnd v = Fin v"
proof -
  assume "rnd q = Fin v"
  then have v: "v = grid 53 (- 1022) q" and b: "\<not> pow2 1024 \<le> v" "\<not> v \<le> - pow2 1024"
    by (auto simp: rnd_def round_to_grid split: if_splits)
  have "grid 53 (- 1022) v = v" unfolding v by (rule grid_idem) simp
  then show ?thesis using b by (simp add: rnd_def round_to_grid)
qed

lemma rnd_int:
  assumes "\<bar>i\<bar> \<le> 2 ^ 53" shows "f_of_int i = Fin (of_int i)"
proof -
  have g: "grid 53 (- 1022) (of_int i) = of_int i"
    using assms grid_exact[of 53 "of_int i" i 0 "- 1022"] by (simp add: pow2_def)
  have "\<bar>of_int i\<bar> \<le> (2 ^ 53 :: rat)"
    using assms by (metis of_int_abs of_int_le_iff of_int_numeral of_int_power)
  also have "... < pow2 1024" by (simp add: pow2_def)
  finally show ?thesis using g by (auto simp: f_of_int_def rnd_def round_to_grid abs_if split: if_splits)
qed

text \<open>The values arithmetic produces: fixed by rounding.\<close>

definition f_repr :: "f64 \<Rightarrow> bool" where
  "f_repr a = (case a of Fin q \<Rightarrow> rnd q = Fin q | _ \<Rightarrow> True)"

lemma f_repr_simps [simp]: "f_repr PInf" "f_repr NInf" "f_repr NaN" "f_repr (Fin 0)"
  by (simp_all add: f_repr_def)

lemma f_repr_rnd [simp]: "f_repr (rnd q)"
  by (cases "rnd q") (auto simp: f_repr_def dest: rnd_idem)

lemma f_repr_add [simp]: "f_repr b \<Longrightarrow> f_repr (f_add a b)"
  by (cases a; cases b) simp_all

lemma f_le_add_right:
  assumes "f_repr b" "f_le f_zero b" "f_le f_zero c" shows "f_le b (f_add b c)"
proof (cases b)
  case (Fin x)
  show ?thesis
  proof (cases c)
    case (Fin y)
    have "rnd x = Fin x" using assms(1) \<open>b = Fin x\<close> by (simp add: f_repr_def)
    moreover have "f_le (rnd x) (rnd (x + y))" using assms(3) Fin by (intro rnd_mono) simp
    ultimately show ?thesis using \<open>b = Fin x\<close> Fin by simp
  qed (use assms Fin in simp_all)
qed (use assms in \<open>cases c; simp\<close>)+

text \<open>Summing part of a list of non-negative numbers gives at most the whole.\<close>

lemma foldl_add_sub:
  assumes "list_all (\<lambda>x. f_le f_zero (f x)) xs" "f_le a b" "f_le f_zero a" "f_repr b"
    and "list_all (\<lambda>x. f_repr (f x)) xs"
  shows "f_le (foldl f_add a (map f (filter P xs))) (foldl f_add b (map f xs)) \<and>
    f_le f_zero (foldl f_add a (map f (filter P xs)))"
  using assms
proof (induction xs arbitrary: a b)
  case (Cons x xs)
  have b: "f_le f_zero b" using Cons.prems f_le_trans by blast
  have c: "f_le f_zero (f x)" "f_repr (f x)" using Cons.prems by simp_all
  show ?case
  proof (cases "P x")
    case True
    have "f_le (f_add a (f x)) (f_add b (f x))" using Cons.prems c by (intro f_add_mono_nonneg) auto
    then show ?thesis using True Cons.IH[of "f_add a (f x)" "f_add b (f x)"] Cons.prems c f_add_nonneg by simp
  next
    case False
    have "f_le a (f_add b (f x))" using f_le_add_right[OF Cons.prems(4) b c(1)] Cons.prems(2) f_le_trans by blast
    then show ?thesis using False Cons.IH[of a "f_add b (f x)"] Cons.prems c by simp
  qed
qed simp

end
