(* ===== verification/F64Text.thy ===== *)
theory F64Text
  imports F64
begin

text \<open>
  Floating point numbers as text and the remaining float operations of the code:
  \<open>str::parse::<f64>\<close>, \<open>Display\<close> for \<open>f64\<close> (the shortest decimal that reads back as
  the same value, never in scientific notation), fixed-point formatting, \<open>floor\<close>,
  \<open>%\<close> and \<open>clamp\<close>.
\<close>

section \<open>Parsing\<close>

definition digits_value :: "string \<Rightarrow> nat" where
  "digits_value s = (case read_digits 0 s of Some n \<Rightarrow> n | None \<Rightarrow> 0)"

definition dec_value :: "string \<Rightarrow> string \<Rightarrow> rat" where
  "dec_value ip fp = of_nat (digits_value (ip @ fp)) / 10 ^ length fp"

definition parse_exp :: "string \<Rightarrow> int option" where
  "parse_exp s =
     (case s of
        [] \<Rightarrow> None
      | c # t \<Rightarrow> (if c = CHR ''-'' then map_option (\<lambda>n. - int n) (parse_nat t)
                 else if c = CHR ''+'' then map_option int (parse_nat t)
                 else map_option int (parse_nat s)))"

definition pow10 :: "int \<Rightarrow> rat" where
  "pow10 e = (if 0 \<le> e then 10 ^ nat e else 1 / 10 ^ nat (- e))"

definition split_frac :: "string \<Rightarrow> string \<times> string" where
  "split_frac r =
     (case r of
        c # t \<Rightarrow> (if c = CHR ''.'' then (takeWhile is_ascii_digit t, dropWhile is_ascii_digit t) else ([], r))
      | [] \<Rightarrow> ([], []))"

definition parse_dec :: "string \<Rightarrow> rat option" where
  "parse_dec s =
     (let ip = takeWhile is_ascii_digit s;
          (fp, r) = split_frac (dropWhile is_ascii_digit s)
      in if ip = [] \<and> fp = [] then None
         else case r of
                [] \<Rightarrow> Some (dec_value ip fp)
              | c # t \<Rightarrow> (if c = CHR ''e'' \<or> c = CHR ''E''
                         then map_option (\<lambda>e. dec_value ip fp * pow10 e) (parse_exp t)
                         else None))"

definition parse_unsigned :: "string \<Rightarrow> f64 option" where
  "parse_unsigned s =
     (let l = to_ascii_lowercase s
      in if l = ''inf'' \<or> l = ''infinity'' then Some PInf
         else if l = ''nan'' then Some NaN
         else map_option rnd (parse_dec s))"

definition parse_f64 :: "string \<Rightarrow> f64 option" where
  "parse_f64 s =
     (case s of
        [] \<Rightarrow> None
      | c # t \<Rightarrow> (if c = CHR ''-'' then map_option f_neg (parse_unsigned t)
                 else if c = CHR ''+'' then parse_unsigned t
                 else parse_unsigned s))"

section \<open>Printing\<close>

text \<open>\<open>m\<close> units of the \<open>k\<close>-th decimal place; \<open>k\<close> may be negative.\<close>

definition dec_rat :: "int \<Rightarrow> int \<Rightarrow> rat" where
  "dec_rat m k = of_int m * pow10 (- k)"

definition pad_left :: "nat \<Rightarrow> char \<Rightarrow> string \<Rightarrow> string" where
  "pad_left n c s = replicate (n - length s) c @ s"

definition render_dec :: "nat \<Rightarrow> int \<Rightarrow> string" where
  "render_dec m k =
     (if k \<le> 0 then show_nat m @ replicate (nat (- k)) (CHR ''0'')
      else let s = pad_left (nat k + 1) (CHR ''0'') (show_nat m)
           in take (length s - nat k) s @ ''.'' @ drop (length s - nat k) s)"

text \<open>The two neighbours of \<open>a\<close> with \<open>k\<close> decimals, the nearer one first.\<close>

definition neighbours :: "int \<Rightarrow> rat \<Rightarrow> int list" where
  "neighbours k a =
     (let x = a * pow10 k; f = \<lfloor>x\<rfloor>
      in if x - of_int f \<le> 1 / 2 then [f, f + 1] else [f + 1, f])"

fun shortest :: "nat \<Rightarrow> int \<Rightarrow> rat \<Rightarrow> int \<times> int" where
  "shortest 0 k a = (\<lfloor>a * pow10 k\<rfloor>, k)"
| "shortest (Suc n) k a =
     (case find (\<lambda>m. rnd (dec_rat m k) = Fin a) (neighbours k a) of
        Some m \<Rightarrow> (m, k)
      | None \<Rightarrow> shortest n (k + 1) a)"

text \<open>
  A finite \<open>f64\<close> is an integer over a power of two, so its expansion ends after as many decimals
  as the denominator has twos: the search stops there at the latest.
\<close>

definition show_pos :: "rat \<Rightarrow> string" where
  "show_pos a =
     (let k0 = - int (length (show_nat (nat \<lfloor>a\<rfloor>)));
          k1 = bitlen (snd (quotient_of a));
          (m, k) = shortest (nat (k1 - k0)) k0 a
      in render_dec (nat m) k)"

definition show_f64 :: "f64 \<Rightarrow> string" where
  "show_f64 x =
     (case x of
        Fin a \<Rightarrow> (if a = 0 then ''0'' else if a < 0 then CHR ''-'' # show_pos (- a) else show_pos a)
      | PInf \<Rightarrow> ''inf'' | NInf \<Rightarrow> ''-inf'' | NaN \<Rightarrow> ''NaN'')"

text \<open>\<open>{:0w.3}\<close> of a value that is not negative: three decimals, half to even, padded with zeros.\<close>

definition fmt_fixed3 :: "nat \<Rightarrow> f64 \<Rightarrow> string" where
  "fmt_fixed3 w x =
     (case x of
        Fin a \<Rightarrow> pad_left w (CHR ''0'') (render_dec (nat (round_half_even (a * 1000))) 3)
      | PInf \<Rightarrow> pad_left w (CHR '' '') ''inf''
      | NInf \<Rightarrow> pad_left w (CHR '' '') ''-inf''
      | NaN \<Rightarrow> pad_left w (CHR '' '') ''NaN'')"

section \<open>Operations\<close>

fun f_floor :: "f64 \<Rightarrow> f64" where
  "f_floor (Fin a) = Fin (of_int \<lfloor>a\<rfloor>)"
| "f_floor x = x"

text \<open>\<open>a % b\<close>: the sign of \<open>a\<close>, exact.\<close>

fun f_rem :: "f64 \<Rightarrow> f64 \<Rightarrow> f64" where
  "f_rem (Fin a) (Fin b) = (if b = 0 then NaN else Fin (a - b * of_int (trunc_rat (a / b))))"
| "f_rem (Fin a) PInf = Fin a"
| "f_rem (Fin a) NInf = Fin a"
| "f_rem _ _ = NaN"

text \<open>\<open>f64::clamp\<close>: NaN stays NaN.\<close>

definition f_clamp :: "f64 \<Rightarrow> f64 \<Rightarrow> f64 \<Rightarrow> f64" where
  "f_clamp lo hi x = (if f_lt x lo then lo else if f_lt hi x then hi else x)"

section \<open>What is printed reads back\<close>

lemma read_digits_zeros: "read_digits 0 (replicate n (CHR ''0'') @ s) = read_digits 0 s"
  by (induction n) (simp_all add: is_ascii_digit_def code_def)

lemma read_digits_trailing: "read_digits a (replicate n (CHR ''0'')) = Some (a * 10 ^ n)"
  by (induction n arbitrary: a) (simp_all add: is_ascii_digit_def code_def)

lemma digits_value_show [simp]: "digits_value (show_nat n) = n"
  by (simp add: digits_value_def read_digits_show_nat)

lemma digits_value_pad: "digits_value (pad_left n (CHR ''0'') s) = digits_value s"
  by (simp add: digits_value_def pad_left_def read_digits_zeros)

lemma digits_value_trailing: "digits_value (show_nat m @ replicate n (CHR ''0'')) = m * 10 ^ n"
  by (simp add: digits_value_def read_digits_append read_digits_show_nat read_digits_trailing)

lemma zero_digit [simp]: "is_ascii_digit (CHR ''0'')"
  by (simp add: is_ascii_digit_def code_def)

lemma pad_left_digits: "\<forall>c \<in> set s. is_ascii_digit c \<Longrightarrow> c \<in> set (pad_left n (CHR ''0'') s) \<Longrightarrow> is_ascii_digit c"
  by (auto simp: pad_left_def)

lemma take_drop_digits:
  assumes "\<forall>c \<in> set s. is_ascii_digit c"
  shows "takeWhile is_ascii_digit (take n s @ CHR ''.'' # drop n s) = take n s"
    and "dropWhile is_ascii_digit (take n s @ CHR ''.'' # drop n s) = CHR ''.'' # drop n s"
    and "takeWhile is_ascii_digit (drop n s) = drop n s"
    and "dropWhile is_ascii_digit (drop n s) = []"
proof -
  have t: "c \<in> set (take n s) \<Longrightarrow> is_ascii_digit c" and d: "c \<in> set (drop n s) \<Longrightarrow> is_ascii_digit c" for c
    using assms by (auto dest: in_set_takeD in_set_dropD)
  have dot: "\<not> is_ascii_digit (CHR ''.'')" by (simp add: is_ascii_digit_def code_def)
  show "takeWhile is_ascii_digit (take n s @ CHR ''.'' # drop n s) = take n s"
    using t dot by (subst takeWhile_append2) auto
  show "dropWhile is_ascii_digit (take n s @ CHR ''.'' # drop n s) = CHR ''.'' # drop n s"
    using t dot by (subst dropWhile_append2) auto
  show "takeWhile is_ascii_digit (drop n s) = drop n s"
    using d by (simp add: takeWhile_eq_all_conv)
  show "dropWhile is_ascii_digit (drop n s) = []"
    using d by (simp add: dropWhile_eq_Nil_conv)
qed

lemma parse_dec_digits:
  assumes "s \<noteq> []" and "\<forall>c \<in> set s. is_ascii_digit c"
  shows "parse_dec s = Some (of_nat (digits_value s))"
proof -
  have t: "takeWhile is_ascii_digit s = s" and d: "dropWhile is_ascii_digit s = []"
    using assms(2) by (simp_all add: takeWhile_eq_all_conv dropWhile_eq_Nil_conv)
  show ?thesis
    unfolding parse_dec_def t d Let_def using assms(1) by (simp add: split_frac_def dec_value_def)
qed

lemma parse_dec_point:
  assumes "\<forall>c \<in> set s. is_ascii_digit c" and "0 < n" and "n \<le> length s"
  shows "parse_dec (take n s @ CHR ''.'' # drop n s) =
    Some (of_nat (digits_value s) / 10 ^ (length s - n))"
proof -
  have "take n s \<noteq> []" using assms(2,3) by auto
  then show ?thesis
    unfolding parse_dec_def Let_def take_drop_digits[OF assms(1)] split_frac_def
    by (simp add: take_drop_digits[OF assms(1)] dec_value_def)
qed

text \<open>The digits of a decimal with a point, and where the point goes.\<close>

lemma render_dec_point:
  assumes "0 < k"
  obtains s n where "render_dec m k = take n s @ CHR ''.'' # drop n s" "0 < n" "n \<le> length s"
    "length s - n = nat k" "\<forall>c \<in> set s. is_ascii_digit c" "digits_value s = m"
proof -
  define s where "s = pad_left (nat k + 1) (CHR ''0'') (show_nat m)"
  have len: "nat k + 1 \<le> length s" by (simp add: s_def pad_left_def)
  show ?thesis
  proof (rule that[of "length s - nat k" s])
    show "render_dec m k = take (length s - nat k) s @ CHR ''.'' # drop (length s - nat k) s"
      using assms by (simp add: render_dec_def s_def Let_def)
    show "\<forall>c \<in> set s. is_ascii_digit c"
      unfolding s_def by (auto intro: pad_left_digits show_nat_digits)
    show "digits_value s = m" by (simp add: s_def digits_value_pad)
  qed (use len in simp_all)
qed

lemma parse_dec_render: "parse_dec (render_dec m k) = Some (dec_rat (int m) k)"
proof (cases "k \<le> 0")
  case True
  have "parse_dec (show_nat m @ replicate (nat (- k)) (CHR ''0'')) =
      Some (of_nat (digits_value (show_nat m @ replicate (nat (- k)) (CHR ''0''))))"
    by (rule parse_dec_digits) (auto intro: show_nat_digits)
  then show ?thesis
    using True by (simp add: render_dec_def digits_value_trailing dec_rat_def pow10_def)
next
  case False
  then have k: "0 < k" by simp
  obtain s n where s: "render_dec m k = take n s @ CHR ''.'' # drop n s" "0 < n" "n \<le> length s"
      "length s - n = nat k" "\<forall>c \<in> set s. is_ascii_digit c" "digits_value s = m"
    by (rule render_dec_point[OF k, of m])
  have "parse_dec (render_dec m k) = Some (of_nat m / 10 ^ nat k)"
    using parse_dec_point[OF s(5,2,3)] unfolding s(1,4,6) .
  then show ?thesis using False by (simp add: dec_rat_def pow10_def)
qed

lemma parse_dec_padded:
  assumes "0 < k" shows "parse_dec (pad_left w (CHR ''0'') (render_dec m k)) = Some (dec_rat (int m) k)"
proof -
  obtain s n where s: "render_dec m k = take n s @ CHR ''.'' # drop n s" "0 < n" "n \<le> length s"
      "length s - n = nat k" "\<forall>c \<in> set s. is_ascii_digit c" "digits_value s = m"
    by (rule render_dec_point[OF assms, of m])
  define j where "j = w - length (render_dec m k)"
  define z where "z = replicate j (CHR ''0'') @ s"
  have "take (n + j) z = replicate j (CHR ''0'') @ take n s" "drop (n + j) z = drop n s"
    by (simp_all add: z_def)
  then have "pad_left w (CHR ''0'') (render_dec m k) = take (n + j) z @ CHR ''.'' # drop (n + j) z"
    unfolding pad_left_def j_def[symmetric] unfolding s(1) by simp
  moreover have "parse_dec (take (n + j) z @ CHR ''.'' # drop (n + j) z) =
      Some (of_nat (digits_value z) / 10 ^ (length z - (n + j)))"
    using s(2,3,5) by (intro parse_dec_point) (auto simp: z_def)
  moreover have "digits_value z = m" "length z - (n + j) = nat k"
    using s(4,6) by (simp_all add: z_def digits_value_def read_digits_zeros)
  ultimately show ?thesis using assms by (simp add: dec_rat_def pow10_def)
qed

text \<open>A representable value is an integer over a power of two.\<close>

lemma pow10_pos [simp]: "0 < pow10 e"
  by (simp add: pow10_def)

lemma pow10_neg_mult [simp]: "pow10 k * pow10 (- k) = 1"
  by (simp add: pow10_def)

lemma rnd_fin_dyadic: "rnd q = Fin a \<Longrightarrow> \<exists>i e. a = of_int i * pow2 e"
proof -
  assume "rnd q = Fin a"
  then have "a = grid 53 (- 1022) q" by (auto simp: rnd_def round_to_grid split: if_splits)
  then show ?thesis using grid_multiple[of 53 "- 1022" q] by auto
qed

lemma dvd_power2: "(d::int) dvd 2 ^ n \<Longrightarrow> 0 < d \<Longrightarrow> \<exists>j. d = 2 ^ j"
proof (induction n arbitrary: d)
  case 0
  then have "d = 2 ^ 0" by simp
  then show ?case by blast
next
  case (Suc n)
  show ?case
  proof (cases "even d")
    case True
    then obtain c where c: "d = 2 * c" by (elim evenE)
    with Suc.prems have "c dvd 2 ^ n" "0 < c" by auto
    then obtain j where "c = 2 ^ j" using Suc.IH by blast
    then have "d = 2 ^ Suc j" using c by simp
    then show ?thesis by blast
  next
    case False
    then have "coprime d (2 ^ Suc n)" by (simp add: coprime_commute)
    then have "d dvd 1" using Suc.prems(1) by (metis coprime_absorb_left is_unit_left_imp_coprime)
    then have "d = 2 ^ 0" using Suc.prems(2) by simp
    then show ?thesis by blast
  qed
qed

lemma dyadic_denominator:
  assumes "a = of_int i * pow2 e"
  shows "\<exists>j. snd (quotient_of a) = 2 ^ j"
proof -
  obtain n d where nd: "quotient_of a = (n, d)" by (cases "quotient_of a")
  then have a: "a = of_int n / of_int d" and d: "0 < d" and cop: "coprime n d"
    by (auto intro: quotient_of_div quotient_of_denom_pos quotient_of_coprime)
  have "(of_int n / of_int d :: rat) = of_int (i * 2 ^ nat e) / 2 ^ nat (- e)"
    using a[symmetric] unfolding assms pow2_def by (cases "0 \<le> e") simp_all
  then have "(of_int (n * 2 ^ nat (- e)) :: rat) = of_int (i * 2 ^ nat e * d)"
    using d by (simp add: field_simps)
  then have "n * 2 ^ nat (- e) = i * 2 ^ nat e * d" by (simp only: of_int_eq_iff)
  then have "d dvd n * 2 ^ nat (- e)" by simp
  then have "d dvd 2 ^ nat (- e)" using cop by (simp add: coprime_commute coprime_dvd_mult_right_iff)
  then show ?thesis using dvd_power2 d nd by simp
qed

lemma exact_decimals:
  assumes "rnd q = Fin a"
  shows "of_int \<lfloor>a * pow10 (bitlen (snd (quotient_of a)))\<rfloor> = a * pow10 (bitlen (snd (quotient_of a)))"
proof -
  obtain n d where nd: "quotient_of a = (n, d)" by (cases "quotient_of a")
  then have a: "a = of_int n / of_int d" by (rule quotient_of_div)
  obtain i e where "a = of_int i * pow2 e" using rnd_fin_dyadic[OF assms] by blast
  then obtain j where j: "d = 2 ^ j" using dyadic_denominator nd by fastforce
  have b: "bitlen d = int j + 1" using bitlen_pow2[of 1 j] j by (simp add: bitlen_alt_def)
  have "a * pow10 (bitlen d) = of_int (n * 5 ^ j * 10)"
    unfolding b unfolding a j by (simp add: pow10_def nat_add_distrib power_mult_distrib[of 2 5 j, symmetric] field_simps)
  then show ?thesis using nd by simp
qed

lemma neighbours_nonneg: "0 < a \<Longrightarrow> m \<in> set (neighbours k a) \<Longrightarrow> 0 \<le> m"
proof -
  assume "0 < a" and m: "m \<in> set (neighbours k a)"
  then have "0 \<le> \<lfloor>a * pow10 k\<rfloor>" by (simp add: less_imp_le)
  then show ?thesis using m by (auto simp: neighbours_def Let_def split: if_splits)
qed

lemma shortest_reads_back:
  assumes r: "rnd a = Fin a" and pos: "0 < a"
  shows "of_int \<lfloor>a * pow10 (k + int n)\<rfloor> = a * pow10 (k + int n) \<Longrightarrow> shortest n k a = (m, k') \<Longrightarrow>
    0 \<le> m \<and> rnd (dec_rat m k') = Fin a"
proof (induction n arbitrary: k)
  case 0
  then have mk: "k' = k" "of_int m = a * pow10 k" by auto
  have "dec_rat m k' = a * (pow10 k * pow10 (- k))" by (simp only: dec_rat_def mk mult.assoc)
  moreover have "0 < (of_int m :: rat)" using pos mk(2) by simp
  ultimately show ?case using r by simp
next
  case (Suc n)
  show ?case
  proof (cases "find (\<lambda>m. rnd (dec_rat m k) = Fin a) (neighbours k a)")
    case None
    then show ?thesis using Suc.IH[of "k + 1"] Suc.prems by (simp add: add.assoc)
  next
    case (Some c)
    then have "c \<in> set (neighbours k a)" "rnd (dec_rat c k) = Fin a"
      by (auto simp: find_Some_iff)
    then show ?thesis using Suc.prems(2) Some neighbours_nonneg[OF pos] by auto
  qed
qed

lemma render_first: "\<exists>c t. render_dec m k = c # t \<and> is_ascii_digit c"
proof (cases "k \<le> 0")
  case True
  obtain c t where "show_nat m = c # t" using show_nat_nonempty by (metis neq_Nil_conv)
  then show ?thesis using True show_nat_hd by (auto simp: render_dec_def)
next
  case False
  define s where "s = pad_left (nat k + 1) (CHR ''0'') (show_nat m)"
  have "nat k + 1 \<le> length s" by (simp add: s_def pad_left_def)
  then obtain c t where s: "s = c # t" by (cases s) auto
  with \<open>nat k + 1 \<le> length s\<close> obtain n where n: "length s - nat k = Suc n"
    by (cases "length s - nat k") auto
  have "is_ascii_digit c"
    using s unfolding s_def by (metis list.set_intros(1) pad_left_digits show_nat_digits)
  moreover have "render_dec m k = take (length s - nat k) s @ CHR ''.'' # drop (length s - nat k) s"
    using False by (simp add: render_dec_def s_def Let_def)
  ultimately show ?thesis unfolding s n[unfolded s] by simp
qed

lemma parse_unsigned_digits:
  assumes "is_ascii_digit c"
  shows "parse_unsigned (c # t) = map_option rnd (parse_dec (c # t))"
proof -
  have "to_ascii_lower c = c" "c \<noteq> CHR ''i''" "c \<noteq> CHR ''n''"
    using assms by (auto simp: to_ascii_lower_def is_ascii_upper_def is_ascii_digit_def code_def)
  then show ?thesis by (simp add: parse_unsigned_def to_ascii_lowercase_def)
qed

lemma show_pos_reads_back:
  assumes r: "rnd a = Fin a" and pos: "0 < a"
  shows "\<exists>c t. show_pos a = c # t \<and> is_ascii_digit c \<and> parse_unsigned (show_pos a) = Some (Fin a)"
proof -
  define k0 where "k0 = - int (length (show_nat (nat \<lfloor>a\<rfloor>)))"
  define k1 where "k1 = bitlen (snd (quotient_of a))"
  obtain m k where mk: "shortest (nat (k1 - k0)) k0 a = (m, k)" by (cases "shortest (nat (k1 - k0)) k0 a")
  have "k0 + int (nat (k1 - k0)) = k1" using bitlen_nonneg by (simp add: k0_def k1_def)
  then have m: "0 \<le> m" "rnd (dec_rat m k) = Fin a"
    using shortest_reads_back[OF r pos _ mk] exact_decimals[OF r] by (simp_all add: k1_def)
  have s: "show_pos a = render_dec (nat m) k"
    using mk by (simp add: show_pos_def k0_def k1_def Let_def)
  obtain c t where "render_dec (nat m) k = c # t" "is_ascii_digit c" using render_first by blast
  then show ?thesis using s m parse_unsigned_digits parse_dec_render[of "nat m" k] by simp
qed

text \<open>Every value arithmetic produces is printed so that it reads back exactly.\<close>

lemma parse_show_special:
  "parse_f64 ''inf'' = Some PInf" "parse_f64 ''-inf'' = Some NInf" "parse_f64 ''NaN'' = Some NaN"
  by code_simp+

lemma parse_show_f64: "f_repr x \<Longrightarrow> parse_f64 (show_f64 x) = Some x"
proof (cases x)
  case (Fin a)
  assume "f_repr x"
  with Fin have r: "rnd a = Fin a" by (simp add: f_repr_def)
  have neg: "rnd (- a) = Fin (- a)"
    using r by (auto simp: rnd_def round_to_grid grid_neg split: if_splits)
  consider "a = 0" | "0 < a" | "a < 0" by linarith
  then show ?thesis
  proof cases
    case 1
    then show ?thesis using Fin parse_unsigned_digits[of "CHR ''0''" "[]"] parse_dec_digits[of "''0''"]
      by (simp add: show_f64_def parse_f64_def digits_value_def) (simp add: code_def)
  next
    case 2
    then obtain c t where "show_pos a = c # t" "is_ascii_digit c" "parse_unsigned (show_pos a) = Some (Fin a)"
      using show_pos_reads_back[OF r] by blast
    then show ?thesis using Fin 2 by (auto simp: show_f64_def parse_f64_def is_ascii_digit_def code_def)
  next
    case 3
    then have "parse_unsigned (show_pos (- a)) = Some (Fin (- a))"
      using show_pos_reads_back[OF neg] by auto
    then show ?thesis using Fin 3 by (simp add: show_f64_def parse_f64_def)
  qed
qed (simp_all add: show_f64_def parse_show_special)

end
