(* ===== verification/Models.thy ===== *)
theory Models
  imports F64
begin

text \<open>
  The data model: the rows of \<^verbatim>\<open>src/models.rs\<close> and of the SQLite schema
  (\<^verbatim>\<open>migrations/\<close>), the configuration of \<^verbatim>\<open>src/config.rs\<close>, and the
  application state of \<^verbatim>\<open>src/state.rs\<close>: configuration, the tables, the file store
  holding blobs and caches, the clock, and the in-memory parts. SQLite's own failures (a locked
  or corrupt database) are not modelled: every statement runs, and only constraint violations
  are errors.
\<close>

section \<open>Rows\<close>

record user =
  u_id :: int
  u_identity :: string
  u_username :: string
  u_password_hash :: string
  u_email :: "string option"
  u_is_admin :: int
  u_created_at :: int

record device =
  d_dongle_id :: string
  d_serial :: string
  d_imei :: string
  d_imei2 :: string
  d_public_key :: string
  d_owner_id :: "int option"
  d_online :: int
  d_last_athena_ping :: int
  d_uploads_allowed :: int
  d_alias :: string
  d_device_type :: string
  d_server_storage :: int
  d_last_gps_lat :: f64
  d_last_gps_lng :: f64
  d_last_gps_time :: int
  d_created_at :: int
  d_last_addr :: string

record route =
  r_fullname :: string
  r_device_dongle_id :: string
  r_start_time :: int
  r_end_time :: int
  r_start_lat :: f64
  r_start_lng :: f64
  r_end_lat :: f64
  r_end_lng :: f64
  r_length :: f64
  r_segment_numbers :: "int list"
  r_segment_start_times :: "int list"
  r_segment_end_times :: "int list"
  r_maxcamera :: int
  r_maxdcamera :: int
  r_maxecamera :: int
  r_maxqcamera :: int
  r_maxlog :: int
  r_maxqlog :: int
  r_platform :: string
  r_git_remote :: string
  r_git_branch :: string
  r_git_commit :: string
  r_is_public :: int
  r_created_at :: int
  r_engaged_meters :: f64
  r_telem_meters :: f64
  r_engaged_seconds :: f64
  r_drive_seconds :: f64
  r_max_speed :: f64
  r_disengage_count :: int
  r_hard_brake_count :: int
  r_hard_accel_count :: int
  r_max_temp :: f64
  r_min_free :: f64
  r_max_mem :: int
  r_sync_types :: "string option"

record segment =
  s_canonical_name :: string
  s_route :: string
  s_number :: int
  s_qcam_url :: string
  s_fcam_url :: string
  s_dcam_url :: string
  s_ecam_url :: string
  s_qlog_url :: string
  s_rlog_url :: string
  s_qcam_duration :: f64
  s_start_lat :: f64
  s_start_lng :: f64
  s_end_lat :: f64
  s_end_lng :: f64
  s_miles :: f64
  s_start_time :: int
  s_end_time :: int
  s_created_at :: int
  s_engaged_meters :: f64
  s_telem_meters :: f64
  s_engaged_seconds :: f64
  s_drive_seconds :: f64
  s_max_speed :: f64
  s_disengage_count :: int
  s_hard_brake_count :: int
  s_hard_accel_count :: int
  s_max_temp :: f64
  s_min_free :: f64
  s_max_mem :: int

text \<open>A row of \<open>authorized_users\<close>.\<close>

record share =
  sh_user_id :: int
  sh_dongle_id :: string
  sh_created_at :: int

record movie_row =
  m_fullname :: string
  m_cam :: string
  m_seg_count :: int
  m_bytes :: int
  m_duration :: f64
  m_built_at :: int
  m_disabled :: int

record subs_row =
  sb_fullname :: string
  sb_seg_count :: int
  sb_cues :: int
  sb_bytes :: int
  sb_built_at :: int
  sb_disabled :: int

record param_row =
  p_dongle_id :: string
  p_key :: string
  p_value :: string
  p_pending :: int
  p_updated_at :: int

text \<open>Primary keys.\<close>

definition share_key :: "share \<Rightarrow> int \<times> string" where
  "share_key r = (sh_user_id r, sh_dongle_id r)"

definition movie_pk :: "movie_row \<Rightarrow> string \<times> string" where
  "movie_pk r = (m_fullname r, m_cam r)"

definition param_pk :: "param_row \<Rightarrow> string \<times> string" where
  "param_pk r = (p_dongle_id r, p_key r)"

text \<open>The rows an \<open>INSERT\<close> naming only the listed columns creates: schema defaults elsewhere.\<close>

definition new_route :: "string \<Rightarrow> string \<Rightarrow> int \<Rightarrow> route" where
  "new_route name dongle created =
     \<lparr>r_fullname = name, r_device_dongle_id = dongle, r_start_time = 0, r_end_time = 0,
      r_start_lat = f_zero, r_start_lng = f_zero, r_end_lat = f_zero, r_end_lng = f_zero,
      r_length = f_zero, r_segment_numbers = [], r_segment_start_times = [],
      r_segment_end_times = [], r_maxcamera = -1, r_maxdcamera = -1, r_maxecamera = -1,
      r_maxqcamera = -1, r_maxlog = -1, r_maxqlog = -1, r_platform = '''', r_git_remote = '''',
      r_git_branch = '''', r_git_commit = '''', r_is_public = 0, r_created_at = created,
      r_engaged_meters = f_zero, r_telem_meters = f_zero, r_engaged_seconds = f_zero,
      r_drive_seconds = f_zero, r_max_speed = f_zero, r_disengage_count = 0,
      r_hard_brake_count = 0, r_hard_accel_count = 0, r_max_temp = f_zero,
      r_min_free = Fin (-1), r_max_mem = 0, r_sync_types = None\<rparr>"

definition new_segment :: "string \<Rightarrow> string \<Rightarrow> int \<Rightarrow> int \<Rightarrow> segment" where
  "new_segment name route number created =
     \<lparr>s_canonical_name = name, s_route = route, s_number = number, s_qcam_url = '''',
      s_fcam_url = '''', s_dcam_url = '''', s_ecam_url = '''', s_qlog_url = '''', s_rlog_url = '''',
      s_qcam_duration = f_zero, s_start_lat = f_zero, s_start_lng = f_zero, s_end_lat = f_zero,
      s_end_lng = f_zero, s_miles = f_zero, s_start_time = 0, s_end_time = 0,
      s_created_at = created, s_engaged_meters = f_zero, s_telem_meters = f_zero,
      s_engaged_seconds = f_zero, s_drive_seconds = f_zero, s_max_speed = f_zero,
      s_disengage_count = 0, s_hard_brake_count = 0, s_hard_accel_count = 0,
      s_max_temp = f_zero, s_min_free = Fin (-1), s_max_mem = 0\<rparr>"

section \<open>Configuration\<close>

record config =
  c_bind :: string
  c_data_dir :: string
  c_jwt_secret_b64 :: string
  c_public_url :: string
  c_web_dir :: string
  c_retain_days :: int
  c_retain_max_drives :: int
  c_retain_gb :: f64
  c_vaapi_device :: "string option"
  c_sync_enabled :: bool
  c_sync_interval_secs :: int
  c_sync_fullres :: bool
  c_device_autoprune :: bool
  c_movie_enabled :: bool
  c_movie_interval_secs :: int
  c_subs_enabled :: bool
  c_whisper_url :: string
  c_denoise_enabled :: bool
  c_denoise_url :: string
  c_denoise_atten_db :: "f64 option"
  c_tailnet_login_server :: string

definition path_join :: "string \<Rightarrow> string \<Rightarrow> string" where
  "path_join a b = a @ ''/'' @ b"

definition blobs_dir :: "config \<Rightarrow> string" where
  "blobs_dir c = path_join (c_data_dir c) ''blobs''"

definition transcode_dir :: "config \<Rightarrow> string" where
  "transcode_dir c = path_join (c_data_dir c) ''transcode''"

definition ssh_dir :: "config \<Rightarrow> string" where
  "ssh_dir c = path_join (c_data_dir c) ''ssh''"

section \<open>Application state\<close>

text \<open>
  Files: the list of (path, contents) pairs, the newest binding first. \<open>sha256_hex\<close> is the
  hexadecimal SHA-256 digest of the \<^verbatim>\<open>sha2\<close> and \<^verbatim>\<open>hex\<close> crates, a parameter;
  \<open>disk_ok\<close> says which paths the operating system can currently write. \<open>user_seq\<close> is
  the \<open>AUTOINCREMENT\<close> counter of \<open>users\<close>: the largest id ever given out.
\<close>

type_synonym files = "(string \<times> string) list"

text \<open>One file to pull or reconcile (\<^verbatim>\<open>sync_queue.rs\<close>).\<close>

record queue_item =
  q_dongle :: string
  q_addr :: string
  q_ts :: string
  q_seg :: int
  q_file :: string
  q_key :: string

text \<open>\<open>Inner\<close>: \<open>pending\<close> in order, its keys, and the items being processed.\<close>

record sync_queue =
  sq_pending :: "queue_item list"
  sq_pending_keys :: "string list"
  sq_active :: "(string \<times> string \<times> string) list"

record movie_queue =
  mq_current :: "string option"
  mq_queued :: "string list"
  mq_wake :: bool

record app_state =
  cfg :: config
  sha256_hex :: "string \<Rightarrow> string"
  disk_ok :: "string \<Rightarrow> bool"
  now_millis :: int
  users :: "user list"
  user_seq :: int
  devices :: "device list"
  routes :: "route list"
  segments :: "segment list"
  authorized_users :: "share list"
  settings_tbl :: "(string \<times> string) list"
  movies_tbl :: "movie_row list"
  subs_tbl :: "subs_row list"
  device_params_tbl :: "param_row list"
  files_on_disk :: files
  connections :: "string list"
  syncing :: "string list"
  queue :: sync_queue
  movie_q :: movie_queue

definition now_secs :: "app_state \<Rightarrow> int" where
  "now_secs st = now_millis st div 1000"

section \<open>Well-formed databases\<close>

text \<open>
  What the schema enforces: primary keys and unique columns are distinct, and every
  \<open>REFERENCES\<close> column points at a row (foreign keys are on by default in
  \<^verbatim>\<open>sqlx\<close>'s SQLite driver).
\<close>

definition keys_ok :: "app_state \<Rightarrow> bool" where
  "keys_ok st =
     (tbl_ok u_id (users st) \<and> tbl_ok u_identity (users st) \<and> tbl_ok u_username (users st) \<and>
      tbl_ok d_dongle_id (devices st) \<and> tbl_ok r_fullname (routes st) \<and>
      tbl_ok s_canonical_name (segments st) \<and> tbl_ok share_key (authorized_users st) \<and>
      tbl_ok fst (settings_tbl st) \<and> tbl_ok movie_pk (movies_tbl st) \<and>
      tbl_ok sb_fullname (subs_tbl st) \<and> tbl_ok param_pk (device_params_tbl st) \<and>
      (\<forall>u \<in> set (users st). u_id u \<le> user_seq st))"

definition refs_ok :: "app_state \<Rightarrow> bool" where
  "refs_ok st =
     ((\<forall>d \<in> set (devices st). \<forall>i. d_owner_id d = Some i \<longrightarrow> i \<in> u_id ` set (users st)) \<and>
      (\<forall>r \<in> set (routes st). r_device_dongle_id r \<in> d_dongle_id ` set (devices st)) \<and>
      (\<forall>s \<in> set (segments st). s_route s \<in> r_fullname ` set (routes st)) \<and>
      (\<forall>a \<in> set (authorized_users st).
         sh_user_id a \<in> u_id ` set (users st) \<and> sh_dongle_id a \<in> d_dongle_id ` set (devices st)))"

definition db_ok :: "app_state \<Rightarrow> bool" where
  "db_ok st = (keys_ok st \<and> refs_ok st)"

definition load_device :: "app_state \<Rightarrow> string \<Rightarrow> device option" where
  "load_device st dongle = tbl_find d_dongle_id dongle (devices st)"

definition find_route :: "app_state \<Rightarrow> string \<Rightarrow> route option" where
  "find_route st name = tbl_find r_fullname name (routes st)"

definition find_segment :: "app_state \<Rightarrow> string \<Rightarrow> segment option" where
  "find_segment st name = tbl_find s_canonical_name name (segments st)"

lemma keys_okD:
  assumes "keys_ok st"
  shows "tbl_ok u_id (users st)" "tbl_ok u_identity (users st)" "tbl_ok u_username (users st)"
    "tbl_ok d_dongle_id (devices st)" "tbl_ok r_fullname (routes st)"
    "tbl_ok s_canonical_name (segments st)" "tbl_ok share_key (authorized_users st)"
    "tbl_ok fst (settings_tbl st)" "tbl_ok movie_pk (movies_tbl st)"
    "tbl_ok sb_fullname (subs_tbl st)" "tbl_ok param_pk (device_params_tbl st)"
  using assms by (simp_all add: keys_ok_def)

text \<open>A concrete state for the witnesses: empty tables, an ASCII stand-in for the digest.\<close>

definition demo_config :: config where
  "demo_config =
     \<lparr>c_bind = ''0.0.0.0:8099'', c_data_dir = ''./data'', c_jwt_secret_b64 = ''c2VjcmV0'',
      c_public_url = ''http://hc'', c_web_dir = ''./web/dist'', c_retain_days = 30,
      c_retain_max_drives = 30, c_retain_gb = Fin 100, c_vaapi_device = None,
      c_sync_enabled = True, c_sync_interval_secs = 60, c_sync_fullres = False,
      c_device_autoprune = False, c_movie_enabled = True, c_movie_interval_secs = 120,
      c_subs_enabled = False, c_whisper_url = ''http://127.0.0.1:8571'',
      c_denoise_enabled = False, c_denoise_url = ''http://127.0.0.1:8573'',
      c_denoise_atten_db = None, c_tailnet_login_server = ''''\<rparr>"

definition empty_state :: app_state where
  "empty_state =
     \<lparr>cfg = demo_config, sha256_hex = (\<lambda>_. ''0a1b''), disk_ok = (\<lambda>_. True),
      now_millis = 1700000000000, users = [], user_seq = 0, devices = [], routes = [], segments = [],
      authorized_users = [], settings_tbl = [], movies_tbl = [], subs_tbl = [],
      device_params_tbl = [], files_on_disk = [], connections = [], syncing = [],
      queue = \<lparr>sq_pending = [], sq_pending_keys = [], sq_active = []\<rparr>,
      movie_q = \<lparr>mq_current = None, mq_queued = [], mq_wake = False\<rparr>\<rparr>"

definition demo_device :: "string \<Rightarrow> device" where
  "demo_device dongle =
     \<lparr>d_dongle_id = dongle, d_serial = '''', d_imei = '''', d_imei2 = '''', d_public_key = ''pem'',
      d_owner_id = None, d_online = 1, d_last_athena_ping = 0, d_uploads_allowed = 1,
      d_alias = '''', d_device_type = ''unknown'', d_server_storage = 0,
      d_last_gps_lat = f_zero, d_last_gps_lng = f_zero, d_last_gps_time = 0,
      d_created_at = 0, d_last_addr = ''100.64.0.7''\<rparr>"

lemma empty_state_ok: "db_ok empty_state"
  by (simp add: db_ok_def keys_ok_def refs_ok_def empty_state_def tbl_ok_def)

end
