(* ===== verification/Storage.thy ===== *)
theory Storage
  imports Models
begin

text \<open>
  \<^verbatim>\<open>src/storage.rs\<close>: the file store and the blob store on top of it. A blob's path is
  its root, two shard directories taken from the key's digest, and the sanitised key. The laws
  of the blob store are stated as an interpretation of \<open>kv_store_del\<close>: they hold for every
  digest function, on keys that survive sanitising.
\<close>

section \<open>Files\<close>

definition fs_get :: "files \<Rightarrow> string \<Rightarrow> string option" where
  "fs_get fs p = map_of fs p"

definition fs_put :: "string \<Rightarrow> string \<Rightarrow> files \<Rightarrow> files" where
  "fs_put p c fs = (p, c) # filter (\<lambda>e. fst e \<noteq> p) fs"

definition fs_del :: "string \<Rightarrow> files \<Rightarrow> files" where
  "fs_del p fs = filter (\<lambda>e. fst e \<noteq> p) fs"

definition fs_rename :: "string \<Rightarrow> string \<Rightarrow> files \<Rightarrow> files" where
  "fs_rename p q fs =
     (case fs_get fs p of None \<Rightarrow> fs | Some c \<Rightarrow> fs_put q c (fs_del p fs))"

definition file_exists :: "app_state \<Rightarrow> string \<Rightarrow> bool" where
  "file_exists st p = (fs_get (files_on_disk st) p \<noteq> None)"

definition remove_file :: "string \<Rightarrow> app_state \<Rightarrow> app_state" where
  "remove_file p st = st\<lparr>files_on_disk := fs_del p (files_on_disk st)\<rparr>"

text \<open>The bytes of the files under a directory (\<open>dir_size\<close> of \<^verbatim>\<open>retention.rs\<close>).\<close>

definition dir_size :: "files \<Rightarrow> string \<Rightarrow> int" where
  "dir_size fs base =
     sum_list (map (\<lambda>(p, c). int (length c)) (filter (\<lambda>(p, c). prefix (base @ ''/'') p) fs))"

definition files_ok :: "files \<Rightarrow> bool" where
  "files_ok fs = distinct (map fst fs)"

lemma map_of_filter_fst: "map_of (filter (\<lambda>e. fst e \<noteq> q) fs) p = (if p = q then None else map_of fs p)"
  by (induction fs) auto

lemma fs_get_put [fs_simps]: "fs_get (fs_put p c fs) q = (if q = p then Some c else fs_get fs q)"
  by (auto simp: fs_get_def fs_put_def map_of_filter_fst)

lemma fs_get_del [fs_simps]: "fs_get (fs_del p fs) q = (if q = p then None else fs_get fs q)"
  by (simp add: fs_get_def fs_del_def map_of_filter_fst)

lemma files_ok_put [fs_simps]: "files_ok fs \<Longrightarrow> files_ok (fs_put p c fs)"
  by (auto simp: files_ok_def fs_put_def distinct_map_filter)

lemma files_ok_del [fs_simps]: "files_ok fs \<Longrightarrow> files_ok (fs_del p fs)"
  by (simp add: files_ok_def fs_del_def distinct_map_filter)

lemma dir_size_nonneg: "0 \<le> dir_size fs base"
  unfolding dir_size_def by (rule sum_list_nonneg) auto

lemma dir_size_del_le: "dir_size (fs_del p fs) base \<le> dir_size fs base"
  by (induction fs) (auto simp: dir_size_def fs_del_def)

text \<open>A step that changes nothing but files.\<close>

definition only_files :: "app_state \<Rightarrow> app_state \<Rightarrow> bool" where
  "only_files st st' \<longleftrightarrow> st' = st\<lparr>files_on_disk := files_on_disk st'\<rparr>"

lemma only_filesI [simp]: "only_files st st" "only_files st (st\<lparr>files_on_disk := fs\<rparr>)"
  by (simp_all add: only_files_def)

lemma only_files_trans: "only_files a b \<Longrightarrow> only_files b c \<Longrightarrow> only_files a c"
  unfolding only_files_def by (metis app_state.surjective app_state.update_convs(15))

lemma only_files_frame:
  assumes "only_files st st'"
  shows "cfg st' = cfg st" "sha256_hex st' = sha256_hex st" "users st' = users st"
    "devices st' = devices st" "routes st' = routes st" "segments st' = segments st"
    "authorized_users st' = authorized_users st" "settings_tbl st' = settings_tbl st"
    "movies_tbl st' = movies_tbl st" "subs_tbl st' = subs_tbl st"
    "device_params_tbl st' = device_params_tbl st" "queue st' = queue st"
    "movie_q st' = movie_q st" "now_millis st' = now_millis st" "disk_ok st' = disk_ok st"
    "user_seq st' = user_seq st" "connections st' = connections st" "syncing st' = syncing st"
  by (subst assms[unfolded only_files_def], simp)+

section \<open>Keys\<close>

text \<open>\<open>blob_key\<close>: the canonical key of a segment file.\<close>

definition blob_key :: "string \<Rightarrow> string \<Rightarrow> int \<Rightarrow> string \<Rightarrow> string" where
  "blob_key dongle timestamp segment file =
     dongle @ ''_'' @ timestamp @ ''--'' @ show_int segment @ ''--'' @ file"

definition split_fullname :: "string \<Rightarrow> (string \<times> string) res" where
  "split_fullname fullname = ok_or (BadRequest ''bad route name'') (split_once_str ''|'' fullname)"

definition sanitize :: "string \<Rightarrow> string" where
  "sanitize key =
     map (\<lambda>c. if c = CHR ''/'' \<or> c = CHR 0x5C \<or> c = CHR 0x00 then CHR ''_'' else c) key"

definition fullname_of :: "string \<Rightarrow> string \<Rightarrow> string" where
  "fullname_of dongle timestamp = dongle @ ''|'' @ timestamp"

definition canonical_of :: "string \<Rightarrow> string \<Rightarrow> int \<Rightarrow> string" where
  "canonical_of dongle timestamp segment =
     dongle @ ''|'' @ timestamp @ ''--'' @ show_int segment"

text \<open>\<open>Path::with_extension\<close> on a file name.\<close>

definition with_extension :: "string \<Rightarrow> string \<Rightarrow> string" where
  "with_extension ext name =
     (case rsplit_once_str ''.'' name of
        Some (stem, _) \<Rightarrow> (if stem = [] then name else stem) @ ''.'' @ ext
      | None \<Rightarrow> name @ ''.'' @ ext)"

section \<open>The blob store\<close>

definition shard_dir :: "app_state \<Rightarrow> string \<Rightarrow> string" where
  "shard_dir st key =
     (let hex = sha256_hex st key
      in path_join (path_join (blobs_dir (cfg st)) (take 2 hex)) (take 2 (drop 2 hex)))"

definition path_for :: "app_state \<Rightarrow> string \<Rightarrow> string" where
  "path_for st key = path_join (shard_dir st key) (sanitize key)"

definition blob_tmp :: "app_state \<Rightarrow> string \<Rightarrow> string" where
  "blob_tmp st key = path_join (shard_dir st key) (with_extension ''part'' (sanitize key))"

text \<open>The files after a successful \<open>put\<close>: a temporary file, renamed over the target.\<close>

definition blob_write :: "string \<Rightarrow> string \<Rightarrow> app_state \<Rightarrow> app_state" where
  "blob_write key bytes st =
     st\<lparr>files_on_disk :=
          fs_rename (blob_tmp st key) (path_for st key)
            (fs_put (blob_tmp st key) bytes (files_on_disk st))\<rparr>"

text \<open>
  \<open>put\<close>: an I/O error writing the temporary file or renaming it is returned to the caller. A
  failed rename leaves the temporary file behind.
\<close>

definition blob_put :: "app_state \<Rightarrow> string \<Rightarrow> string \<Rightarrow> app_state \<times> (string + string)" where
  "blob_put st key bytes =
     (if \<not> disk_ok st (blob_tmp st key) then (st, Inl ''io error'')
      else if \<not> disk_ok st (path_for st key)
      then (st\<lparr>files_on_disk := fs_put (blob_tmp st key) bytes (files_on_disk st)\<rparr>, Inl ''io error'')
      else (blob_write key bytes st, Inr (path_for st key)))"

definition blob_get :: "app_state \<Rightarrow> string \<Rightarrow> string option" where
  "blob_get st key = fs_get (files_on_disk st) (path_for st key)"

definition blob_exists :: "app_state \<Rightarrow> string \<Rightarrow> bool" where
  "blob_exists st key = (blob_get st key \<noteq> None)"

definition blob_size :: "app_state \<Rightarrow> string \<Rightarrow> int option" where
  "blob_size st key = map_option (\<lambda>c. int (length c)) (blob_get st key)"

text \<open>
  \<open>delete\<close>: removing the file may be refused, and the error is returned; a file that is not there is no
  error. \<open>grants\<close> tells which removals the disk allows. \<open>blob_delete\<close> is what an allowed
  deletion does to the state. Every caller drops the answer.
\<close>

definition blob_delete :: "string \<Rightarrow> app_state \<Rightarrow> app_state" where
  "blob_delete key st = remove_file (path_for st key) st"

definition blob_unlink :: "(string \<Rightarrow> bool) \<Rightarrow> app_state \<Rightarrow> string \<Rightarrow> app_state \<times> (string + unit)" where
  "blob_unlink grants st key =
     (if \<not> grants (path_for st key) then (st, Inl ''io error'')
      else if file_exists st (path_for st key) then (blob_delete key st, Inr ())
      else (st, Inr ()))"

section \<open>Laws\<close>

text \<open>A key that sanitising leaves alone and that is not itself named like a temporary file.\<close>

definition clean_key :: "string \<Rightarrow> bool" where
  "clean_key key =
     (CHR ''/'' \<notin> set key \<and> CHR 0x5C \<notin> set key \<and> CHR 0x00 \<notin> set key \<and> \<not> suffix ''.part'' key)"

text \<open>Strings without path separators, and the keys built from them.\<close>

definition plain :: "string \<Rightarrow> bool" where
  "plain s = (CHR ''/'' \<notin> set s \<and> CHR 0x5C \<notin> set s \<and> CHR 0x00 \<notin> set s)"

lemma plain_simps [simp]:
  "plain []" "plain (c # s) = (c \<noteq> CHR ''/'' \<and> c \<noteq> CHR 0x5C \<and> c \<noteq> CHR 0x00 \<and> plain s)"
  "plain (s @ t) = (plain s \<and> plain t)"
  by (auto simp: plain_def)

lemma plain_show_int [simp]: "plain (show_int i)"
proof -
  have "c \<in> set (show_int i) \<Longrightarrow> c \<noteq> CHR ''/'' \<and> c \<noteq> CHR 0x5C \<and> c \<noteq> CHR 0x00" for c
    using show_int_chars[of c i] by (auto simp: is_ascii_digit_def code_def)
  then show ?thesis by (auto simp: plain_def)
qed

lemma suffix_part_dash: "suffix ''.part'' (x @ ''--'' @ f) \<Longrightarrow> suffix ''.part'' f"
proof -
  assume "suffix ''.part'' (x @ ''--'' @ f)"
  then have "suffix ''.part'' ((x @ ''--'') @ f)" by simp
  then consider "suffix ''.part'' f" | u where "''.part'' = u @ f" "suffix u (x @ ''--'')"
    unfolding suffix_append by blast
  then show ?thesis
  proof cases
    case 2
    show ?thesis
    proof (cases "u = []")
      case False
      obtain z where "x @ ''--'' = z @ u" using 2(2) by (auto simp: suffix_def)
      then have "last (x @ ''--'') = last (z @ u)" by (rule arg_cong)
      with False have "last u = CHR ''-''" by simp
      moreover have "last u \<in> set (u @ f)" using False by simp
      then have "last u \<in> set ''.part''" unfolding 2(1) .
      ultimately show ?thesis by simp
    qed (use 2 in simp)
  qed
qed

lemma clean_keyI: "plain k \<Longrightarrow> \<not> suffix ''.part'' k \<Longrightarrow> clean_key k"
  by (simp add: clean_key_def plain_def)

lemma clean_blob_key:
  "plain d \<Longrightarrow> plain t \<Longrightarrow> plain f \<Longrightarrow> \<not> suffix ''.part'' f \<Longrightarrow> clean_key (blob_key d t n f)"
  using suffix_part_dash[of "d @ ''_'' @ t @ ''--'' @ show_int n" f]
  by (intro clean_keyI) (auto simp: blob_key_def)

lemma sanitize_no_slash: "CHR ''/'' \<notin> set (sanitize key)"
  by (auto simp: sanitize_def)

lemma sanitize_id:
  "CHR ''/'' \<notin> set key \<Longrightarrow> CHR 0x5C \<notin> set key \<Longrightarrow> CHR 0x00 \<notin> set key \<Longrightarrow> sanitize key = key"
  unfolding sanitize_def by (rule map_idI) auto

lemma sanitize_clean [simp]: "clean_key key \<Longrightarrow> sanitize key = key"
  by (simp add: clean_key_def sanitize_id)

lemma sanitize_idem: "sanitize (sanitize key) = sanitize key"
  by (simp add: sanitize_def)

text \<open>The last component of a joined path, when it has no slash, determines the file name.\<close>

lemma takeWhile_up_to: "c \<notin> set x \<Longrightarrow> takeWhile (\<lambda>d. d \<noteq> c) (x @ c # y) = x"
  by (induction x) auto

lemma path_join_name_inj:
  assumes "path_join a x = path_join b y" and "CHR ''/'' \<notin> set x" and "CHR ''/'' \<notin> set y"
  shows "x = y"
proof -
  have "takeWhile (\<lambda>c. c \<noteq> CHR ''/'') (rev (path_join a x)) = rev x"
    using assms(2) by (simp add: path_join_def takeWhile_up_to)
  moreover have "takeWhile (\<lambda>c. c \<noteq> CHR ''/'') (rev (path_join b y)) = rev y"
    using assms(3) by (simp add: path_join_def takeWhile_up_to)
  ultimately show ?thesis using assms(1) by simp
qed

lemma path_for_eqD: "path_for st k = path_for st k' \<Longrightarrow> sanitize k = sanitize k'"
  unfolding path_for_def using path_join_name_inj sanitize_no_slash by blast

lemma path_for_inj: "clean_key k \<Longrightarrow> clean_key k' \<Longrightarrow> path_for st k = path_for st k' \<longleftrightarrow> k = k'"
  using path_for_eqD[of st k k'] by auto

lemma with_extension_part_suffix: "suffix ''.part'' (with_extension ''part'' name)"
  by (auto simp: with_extension_def suffix_def split: option.splits)

lemma with_extension_no_slash:
  "CHR ''/'' \<notin> set name \<Longrightarrow> CHR ''/'' \<notin> set (with_extension ''part'' name)"
  by (auto simp: with_extension_def split: option.splits dest!: rsplit_once_str_SomeD)

lemma blob_tmp_ne_path: "clean_key k \<Longrightarrow> blob_tmp st k' \<noteq> path_for st k"
proof
  assume k: "clean_key k" and eq: "blob_tmp st k' = path_for st k"
  have "with_extension ''part'' (sanitize k') = sanitize k"
    using eq unfolding blob_tmp_def path_for_def
    by (rule path_join_name_inj) (simp_all add: with_extension_no_slash sanitize_no_slash)
  then show False using with_extension_part_suffix[of "sanitize k'"] k by (simp add: clean_key_def)
qed

lemma blob_frame [frame_simps]:
  "path_for (blob_write k v st) = path_for st" "path_for (blob_delete k st) = path_for st"
  "path_for (remove_file p st) = path_for st"
  by (auto simp: fun_eq_iff path_for_def shard_dir_def blob_write_def blob_delete_def remove_file_def Let_def)

lemma path_for_upd [simp]:
  "path_for (st\<lparr>devices := ds\<rparr>) = path_for st" "path_for (st\<lparr>routes := rs\<rparr>) = path_for st"
  "path_for (st\<lparr>segments := ss\<rparr>) = path_for st" "path_for (st\<lparr>movies_tbl := ms\<rparr>) = path_for st"
  "path_for (st\<lparr>subs_tbl := sb\<rparr>) = path_for st" "path_for (st\<lparr>settings_tbl := se\<rparr>) = path_for st"
  "path_for (st\<lparr>files_on_disk := fs\<rparr>) = path_for st" "path_for (st\<lparr>queue := q\<rparr>) = path_for st"
  "path_for (st\<lparr>movie_q := mq\<rparr>) = path_for st" "path_for (st\<lparr>syncing := sy\<rparr>) = path_for st"
  by (simp_all add: fun_eq_iff path_for_def shard_dir_def)

lemma blob_get_upd [simp]:
  "blob_get (st\<lparr>devices := ds\<rparr>) = blob_get st" "blob_get (st\<lparr>routes := rs\<rparr>) = blob_get st"
  "blob_get (st\<lparr>segments := ss\<rparr>) = blob_get st" "blob_get (st\<lparr>movies_tbl := ms\<rparr>) = blob_get st"
  "blob_get (st\<lparr>subs_tbl := sb\<rparr>) = blob_get st" "blob_get (st\<lparr>settings_tbl := se\<rparr>) = blob_get st"
  "blob_get (st\<lparr>queue := q\<rparr>) = blob_get st" "blob_get (st\<lparr>movie_q := mq\<rparr>) = blob_get st"
  "blob_get (st\<lparr>syncing := sy\<rparr>) = blob_get st"
  by (simp_all add: fun_eq_iff blob_get_def)

lemma blob_get_write_same: "blob_get (blob_write k v st) k = Some v"
  unfolding blob_get_def frame_simps
  by (simp add: blob_write_def fs_rename_def fs_simps)

lemma blob_get_write_other:
  "clean_key k \<Longrightarrow> clean_key k' \<Longrightarrow> k' \<noteq> k \<Longrightarrow> blob_get (blob_write k v st) k' = blob_get st k'"
  unfolding blob_get_def frame_simps
  using blob_tmp_ne_path[of k' st k]
  by (auto simp: blob_write_def fs_rename_def fs_simps path_for_inj)

lemma blob_get_delete_same: "blob_get (blob_delete k st) k = None"
  unfolding blob_get_def frame_simps by (simp add: blob_delete_def remove_file_def fs_simps)

lemma blob_get_delete_other:
  "clean_key k \<Longrightarrow> clean_key k' \<Longrightarrow> k' \<noteq> k \<Longrightarrow> blob_get (blob_delete k st) k' = blob_get st k'"
  unfolding blob_get_def frame_simps by (simp add: blob_delete_def remove_file_def fs_simps path_for_inj)

interpretation blobs: kv_store_del blob_get blob_write clean_key blob_delete
  by unfold_locales
     (simp_all add: blob_get_write_same blob_get_write_other blob_get_delete_same blob_get_delete_other)

lemma blob_put_cases:
  obtains e where "snd (blob_put st k v) = Inl e"
  | "blob_put st k v = (blob_write k v st, Inr (path_for st k))"
proof (cases "disk_ok st (blob_tmp st k) \<and> disk_ok st (path_for st k)")
  case True
  then show ?thesis using that(2) by (simp add: blob_put_def)
next
  case False
  then show ?thesis using that(1)[of "''io error''"] by (auto simp: blob_put_def)
qed

section \<open>Keys of segment files\<close>

text \<open>
  The parts of a key can be read back when the dongle has no underscore (it is sixteen
  hexadecimal digits), the file name has no double dash and the segment is not negative.
\<close>

lemma blob_key_split:
  assumes "CHR ''_'' \<notin> set dongle" and "no_dd file" and "0 \<le> segment"
  shows "split_once_str ''_'' (blob_key dongle ts segment file) =
      Some (dongle, ts @ ''--'' @ show_int segment @ ''--'' @ file)"
    and "rsplit_once_str ''--'' (ts @ ''--'' @ show_int segment @ ''--'' @ file) =
      Some (ts @ ''--'' @ show_int segment, file)"
    and "rsplit_once_str ''--'' (ts @ ''--'' @ show_int segment) = Some (ts, show_int segment)"
proof -
  show "split_once_str ''_'' (blob_key dongle ts segment file) =
      Some (dongle, ts @ ''--'' @ show_int segment @ ''--'' @ file)"
    using split_once_char_append[OF assms(1)] by (simp add: blob_key_def)
  show "rsplit_once_str ''--'' (ts @ ''--'' @ show_int segment @ ''--'' @ file) =
      Some (ts @ ''--'' @ show_int segment, file)"
    using rsplit_dd_append[OF assms(2), of "ts @ ''--'' @ show_int segment"] by simp
  show "rsplit_once_str ''--'' (ts @ ''--'' @ show_int segment) = Some (ts, show_int segment)"
    using rsplit_dd_append[OF no_dd_show_int[OF assms(3)], of ts] by simp
qed

lemma blob_key_inj_parts:
  assumes "CHR ''_'' \<notin> set d" "CHR ''_'' \<notin> set d'" "no_dd f" "no_dd f'" "0 \<le> s" "0 \<le> s'"
    and eq: "blob_key d t s f = blob_key d' t' s' f'"
  shows "d = d' \<and> t = t' \<and> s = s' \<and> f = f'"
proof -
  have 1: "d = d'" and tail: "t @ ''--'' @ show_int s @ ''--'' @ f = t' @ ''--'' @ show_int s' @ ''--'' @ f'"
    using blob_key_split(1)[OF assms(1,3,5), of t] blob_key_split(1)[OF assms(2,4,6), of t'] eq
    by simp_all
  from tail have "f = f'" and tail2: "t @ ''--'' @ show_int s = t' @ ''--'' @ show_int s'"
    using blob_key_split(2)[OF assms(1,3,5), of t] blob_key_split(2)[OF assms(2,4,6), of t'] by simp_all
  moreover from tail2 have "t = t'" "s = s'"
    using blob_key_split(3)[OF assms(1,3,5), of t] blob_key_split(3)[OF assms(2,4,6), of t'] by simp_all
  ultimately show ?thesis using 1 by simp
qed

lemma split_fullname_of: "CHR ''|'' \<notin> set d \<Longrightarrow> split_fullname (fullname_of d t) = Inr (d, t)"
  using split_once_char_append[of "CHR ''|''" d t] by (simp add: split_fullname_def fullname_of_def)

lemma split_fullname_InrD: "split_fullname f = Inr (d, t) \<Longrightarrow> f = fullname_of d t \<and> CHR ''|'' \<notin> set d"
  by (auto simp: split_fullname_def fullname_of_def dest: split_once_char_SomeD)

end
