(* ===== verification/Settings.thy ===== *)
theory Settings
  imports Storage
begin

text \<open>
  \<^verbatim>\<open>src/settings.rs\<close>: the key/value table, and the typed settings the feature
  modules put on top of it (on/off toggles and intervals), proved once over the store's laws.
\<close>

definition settings_get :: "app_state \<Rightarrow> string \<Rightarrow> string option" where
  "settings_get st key = map_option snd (tbl_find fst key (settings_tbl st))"

definition settings_set :: "string \<Rightarrow> string \<Rightarrow> app_state \<Rightarrow> app_state" where
  "settings_set key value st =
     st\<lparr>settings_tbl := tbl_upsert fst (key, value) (\<lambda>r. (fst r, value)) (settings_tbl st)\<rparr>"

text \<open>A stored toggle: \<open>s == "1" || s.eq_ignore_ascii_case("true")\<close>, else the default.\<close>

definition flag_of :: "string \<Rightarrow> bool" where
  "flag_of s = (s = ''1'' \<or> eq_ignore_ascii_case s ''true'')"

definition show_flag :: "bool \<Rightarrow> string" where
  "show_flag on = (if on then ''1'' else ''0'')"

definition setting_flag :: "app_state \<Rightarrow> string \<Rightarrow> bool \<Rightarrow> bool" where
  "setting_flag st key dflt =
     (case settings_get st key of Some s \<Rightarrow> flag_of s | None \<Rightarrow> dflt)"

definition set_setting_flag :: "string \<Rightarrow> bool \<Rightarrow> app_state \<Rightarrow> app_state" where
  "set_setting_flag key on st = settings_set key (show_flag on) st"

text \<open>An interval: the stored number, the default when unset or unreadable.\<close>

definition setting_u64 :: "app_state \<Rightarrow> string \<Rightarrow> int \<Rightarrow> int" where
  "setting_u64 st key dflt =
     (case settings_get st key of
        Some s \<Rightarrow> (case parse_u64 s of Some n \<Rightarrow> n | None \<Rightarrow> dflt)
      | None \<Rightarrow> dflt)"

definition set_setting_u64 :: "string \<Rightarrow> int \<Rightarrow> app_state \<Rightarrow> app_state" where
  "set_setting_u64 key n st = settings_set key (show_int n) st"

lemma flag_of_show [simp]: "flag_of (show_flag on) = on"
  by (cases on) (simp_all add: flag_of_def show_flag_def eq_ignore_ascii_case_def
      to_ascii_lowercase_def)

lemma parse_u64_show_int: "0 \<le> n \<Longrightarrow> n \<le> u64_max \<Longrightarrow> parse_u64 (show_int n) = Some n"
proof -
  assume n: "0 \<le> n" "n \<le> u64_max"
  obtain c t where ct: "show_nat (nat n) = c # t"
    using show_nat_nonempty[of "nat n"] by (cases "show_nat (nat n)") auto
  then have "is_ascii_digit c" by (rule show_nat_hd)
  then have "c \<noteq> CHR ''+''" by (auto simp: is_ascii_digit_def code_def)
  then show ?thesis
    using n ct parse_nat_show_nat[of "nat n"] by (simp add: parse_u64_def show_int_def)
qed

text \<open>
  A typed setting over a key/value store: an encoder and a decoder that inverts it on the
  values the code writes.
\<close>

locale typed_setting = kv_store get put ok
  for get :: "'s \<Rightarrow> string \<Rightarrow> string option" and put and ok +
  fixes enc :: "'a \<Rightarrow> string" and dec :: "string \<Rightarrow> 'a \<Rightarrow> 'a" and valid :: "'a \<Rightarrow> bool"
  assumes dec_enc: "valid a \<Longrightarrow> dec (enc a) d = a"
begin

lemma read_written:
  "valid a \<Longrightarrow> (case get (put k (enc a) s) k of Some v \<Rightarrow> dec v d | None \<Rightarrow> d) = a"
  by (simp add: get_put_same dec_enc)

lemma read_other:
  "ok k \<Longrightarrow> ok k' \<Longrightarrow> k' \<noteq> k \<Longrightarrow>
    (case get (put k (enc a) s) k' of Some v \<Rightarrow> dec v d | None \<Rightarrow> d) =
    (case get s k' of Some v \<Rightarrow> dec v d | None \<Rightarrow> d)"
  by (simp add: get_put_other)

end

interpretation settings: kv_store settings_get settings_set "\<lambda>_. True"
  by unfold_locales
     (auto simp: settings_get_def settings_set_def tbl_find_upsert split: option.splits)

interpretation flag: typed_setting settings_get settings_set "\<lambda>_. True" show_flag "\<lambda>s _. flag_of s" "\<lambda>_. True"
  by unfold_locales simp

interpretation num: typed_setting settings_get settings_set "\<lambda>_. True" show_int
    "\<lambda>s d. case parse_u64 s of Some n \<Rightarrow> n | None \<Rightarrow> d" "\<lambda>n. 0 \<le> n \<and> n \<le> u64_max"
  by unfold_locales (simp add: parse_u64_show_int)

lemma setting_flag_set: "setting_flag (set_setting_flag k on st) k d = on"
  unfolding setting_flag_def set_setting_flag_def by (rule flag.read_written) simp

lemma setting_flag_other: "k' \<noteq> k \<Longrightarrow> setting_flag (settings_set k v st) k' d = setting_flag st k' d"
  by (simp add: setting_flag_def settings.get_put_other)

lemma setting_u64_set:
  "0 \<le> n \<Longrightarrow> n \<le> u64_max \<Longrightarrow> setting_u64 (set_setting_u64 k n st) k d = n"
  unfolding setting_u64_def set_setting_u64_def by (rule num.read_written) simp

lemma settings_set_frame [frame_simps]:
  "cfg (settings_set k v st) = cfg st" "routes (settings_set k v st) = routes st"
  "segments (settings_set k v st) = segments st" "devices (settings_set k v st) = devices st"
  "users (settings_set k v st) = users st" "movies_tbl (settings_set k v st) = movies_tbl st"
  "authorized_users (settings_set k v st) = authorized_users st"
  "files_on_disk (settings_set k v st) = files_on_disk st"
  "queue (settings_set k v st) = queue st"
  by (simp_all add: settings_set_def)

end
