(* ===== verification/Auth.thy ===== *)
theory Auth
  imports Models
begin

text \<open>
  \<^verbatim>\<open>src/auth.rs\<close>: claims, the token extractor, and verification. The
  \<^verbatim>\<open>jsonwebtoken\<close>, \<^verbatim>\<open>base64\<close> and \<^verbatim>\<open>serde_json\<close> crates are the
  parameter \<open>jwt_lib\<close>; which key and which algorithm the code hands them, and what it does
  with the answer, is the model.
\<close>

record claims =
  cl_identity :: string
  cl_nbf :: "int option"
  cl_iat :: "int option"
  cl_exp :: int

text \<open>Authenticated principal: at most one of user and device.\<close>

record auth =
  a_claims :: claims
  a_user :: "user option"
  a_device :: "device option"

datatype algorithm =
    HS256 | HS384 | HS512 | ES256 | ES384 | RS256 | RS384 | RS512
  | PS256 | PS384 | PS512 | EdDSA

datatype decoding_key = SecretKey string | EcKey string | RsaKey string

record validation =
  v_alg :: algorithm
  v_leeway :: int
  v_required :: "string list"
  v_validate_aud :: bool

text \<open>
  The crates: \<open>decode_header\<close>, the key constructors, \<open>decode\<close> (the verified payload of
  a token, or an error), base64, JSON decoding of the three claim types, and \<open>encode\<close>.
\<close>

record jwt_lib =
  jl_header_alg :: "string \<Rightarrow> string + algorithm"
  jl_secret_ok :: "string \<Rightarrow> bool"
  jl_ec_pem_ok :: "string \<Rightarrow> bool"
  jl_rsa_pem_ok :: "string \<Rightarrow> bool"
  jl_decode :: "int \<Rightarrow> string \<Rightarrow> decoding_key \<Rightarrow> validation \<Rightarrow> string + string"
  jl_base64 :: "string \<Rightarrow> string option"
  jl_claims :: "string \<Rightarrow> claims option"
  jl_register :: "string \<Rightarrow> bool option"
  jl_pair :: "string \<Rightarrow> (string \<times> bool) option"
  jl_encode :: "algorithm \<Rightarrow> claims \<Rightarrow> string \<Rightarrow> string"

section \<open>Issuing\<close>

definition user_token_ttl_secs :: int where
  "user_token_ttl_secs = 60 * 60 * 24 * 30"

definition issue_hs512_ttl :: "jwt_lib \<Rightarrow> app_state \<Rightarrow> string \<Rightarrow> int \<Rightarrow> string res" where
  "issue_hs512_ttl jl st identity ttl_secs =
     (let now = now_millis st div 1000;
          claims = \<lparr>cl_identity = identity, cl_nbf = Some (now - 5), cl_iat = Some now,
                    cl_exp = now + ttl_secs\<rparr>
      in if jl_secret_ok jl (c_jwt_secret_b64 (cfg st))
         then Inr (jl_encode jl HS512 claims (c_jwt_secret_b64 (cfg st)))
         else Inl (Other ''bad secret''))"

definition issue_hs512 :: "jwt_lib \<Rightarrow> app_state \<Rightarrow> string \<Rightarrow> string res" where
  "issue_hs512 jl st identity = issue_hs512_ttl jl st identity user_token_ttl_secs"

section \<open>Finding the token\<close>

text \<open>The parts of a request the extractor reads; a header that is not ASCII text is absent.\<close>

record request_parts =
  rp_query :: "string option"
  rp_cookie :: "string option"
  rp_authorization :: "string option"

fun find_map :: "('a \<Rightarrow> 'b option) \<Rightarrow> 'a list \<Rightarrow> 'b option" where
  "find_map f [] = None"
| "find_map f (x # xs) = (case f x of Some y \<Rightarrow> Some y | None \<Rightarrow> find_map f xs)"

definition query_get :: "string \<Rightarrow> string \<Rightarrow> string option" where
  "query_get query k =
     find_map (\<lambda>kv. case split_once_str ''='' kv of
                 Some (key, val) \<Rightarrow> if key = k then Some val else None
               | None \<Rightarrow> None)
       (split_on (CHR ''&'') query)"

definition cookie_token :: "string \<Rightarrow> string option" where
  "cookie_token s =
     find_map (\<lambda>part. case split_once_str ''='' (trim part) of
                 Some (k, v) \<Rightarrow> if k = ''jwt'' then Some v else None
               | None \<Rightarrow> None)
       (split_on (CHR '';'') s)"

definition header_token :: "string \<Rightarrow> string option" where
  "header_token s =
     (case strip_prefix ''JWT '' s of
        Some rest \<Rightarrow> Some (trim rest)
      | None \<Rightarrow> map_option trim (strip_prefix ''Bearer '' s))"

definition extract_token :: "request_parts \<Rightarrow> string option" where
  "extract_token parts =
     (let query = (case rp_query parts of Some q \<Rightarrow> q | None \<Rightarrow> '''')
      in case query_get query ''sig'' of
           Some t \<Rightarrow> Some t
         | None \<Rightarrow>
           (case Option.bind (rp_cookie parts) cookie_token of
              Some t \<Rightarrow> Some t
            | None \<Rightarrow>
              (case Option.bind (rp_authorization parts) header_token of
                 Some t \<Rightarrow> Some t
               | None \<Rightarrow> query_get query ''access_token'')))"

section \<open>Verification\<close>

text \<open>\<open>decode_claims_unverified\<close>: the payload segment of the token, not authenticated.\<close>

definition unverified_payload :: "jwt_lib \<Rightarrow> string \<Rightarrow> string option" where
  "unverified_payload jl token =
     (case split_on (CHR ''.'') token of
        _ # payload # _ \<Rightarrow> jl_base64 jl payload
      | _ \<Rightarrow> None)"

definition decode_unverified :: "jwt_lib \<Rightarrow> string \<Rightarrow> claims option" where
  "decode_unverified jl token = Option.bind (unverified_payload jl token) (jl_claims jl)"

definition device_decoding_key :: "jwt_lib \<Rightarrow> algorithm \<Rightarrow> string \<Rightarrow> decoding_key res" where
  "device_decoding_key jl alg pem =
     (case alg of
        ES256 \<Rightarrow> if jl_ec_pem_ok jl pem then Inr (EcKey pem) else Inl (Unauthorized ''bad device key'')
      | ES384 \<Rightarrow> if jl_ec_pem_ok jl pem then Inr (EcKey pem) else Inl (Unauthorized ''bad device key'')
      | _ \<Rightarrow> if jl_rsa_pem_ok jl pem then Inr (RsaKey pem) else Inl (Unauthorized ''bad device key''))"

definition std_validation :: "algorithm \<Rightarrow> validation" where
  "std_validation alg = \<lparr>v_alg = alg, v_leeway = 300, v_required = [''exp''], v_validate_aud = True\<rparr>"

definition resolve_principal :: "app_state \<Rightarrow> claims \<Rightarrow> auth res" where
  "resolve_principal st claims =
     (case tbl_find d_dongle_id (cl_identity claims) (devices st) of
        Some device \<Rightarrow> Inr \<lparr>a_claims = claims, a_user = None, a_device = Some device\<rparr>
      | None \<Rightarrow>
        (case tbl_find u_identity (cl_identity claims) (users st) of
           Some user \<Rightarrow> Inr \<lparr>a_claims = claims, a_user = Some user, a_device = None\<rparr>
         | None \<Rightarrow> Inl (Unauthorized ''unknown identity'')))"

text \<open>\<open>decode::<Claims>\<close>: verification, then the claims of the verified payload.\<close>

definition decode_claims ::
    "jwt_lib \<Rightarrow> app_state \<Rightarrow> string \<Rightarrow> decoding_key \<Rightarrow> validation \<Rightarrow> string \<Rightarrow> claims res" where
  "decode_claims jl st token key v msg =
     (case jl_decode jl (now_secs st) token key v of
        Inl e \<Rightarrow> Inl (Unauthorized msg)
      | Inr payload \<Rightarrow> ok_or (Unauthorized msg) (jl_claims jl payload))"

definition verify_hs :: "jwt_lib \<Rightarrow> app_state \<Rightarrow> algorithm \<Rightarrow> string \<Rightarrow> auth res" where
  "verify_hs jl st alg token =
     (if \<not> jl_secret_ok jl (c_jwt_secret_b64 (cfg st)) then Inl (Other ''bad secret'')
      else case decode_claims jl st token (SecretKey (c_jwt_secret_b64 (cfg st)))
                  (std_validation alg) ''invalid token'' of
             Inl e \<Rightarrow> Inl e
           | Inr claims \<Rightarrow> resolve_principal st claims)"

definition verify_device :: "jwt_lib \<Rightarrow> app_state \<Rightarrow> algorithm \<Rightarrow> string \<Rightarrow> auth res" where
  "verify_device jl st alg token =
     (case decode_unverified jl token of
        None \<Rightarrow> Inl (Unauthorized ''undecodable token'')
      | Some unverified \<Rightarrow>
        (case tbl_find d_dongle_id (cl_identity unverified) (devices st) of
           None \<Rightarrow> Inl (Unauthorized ''unknown device'')
         | Some device \<Rightarrow>
           (case device_decoding_key jl alg (d_public_key device) of
              Inl e \<Rightarrow> Inl e
            | Inr key \<Rightarrow>
              (case decode_claims jl st token key (std_validation alg) ''device token invalid'' of
                 Inl e \<Rightarrow> Inl e
               | Inr claims \<Rightarrow> Inr \<lparr>a_claims = claims, a_user = None, a_device = Some device\<rparr>))))"

definition verify :: "jwt_lib \<Rightarrow> app_state \<Rightarrow> string \<Rightarrow> auth res" where
  "verify jl st token =
     (case jl_header_alg jl token of
        Inl e \<Rightarrow> Inl (Unauthorized ''bad token'')
      | Inr alg \<Rightarrow>
        (if alg \<in> {HS256, HS384, HS512} then verify_hs jl st alg token
         else if alg \<in> {ES256, ES384, RS256, RS384, RS512} then verify_device jl st alg token
         else Inl (Unauthorized ''unsupported alg'')))"

text \<open>\<open>verify_device_token\<close>: against a supplied key, custom claims, no required claim.\<close>

definition verify_device_token ::
    "jwt_lib \<Rightarrow> app_state \<Rightarrow> (string \<Rightarrow> 't option) \<Rightarrow> string \<Rightarrow> string \<Rightarrow> 't res" where
  "verify_device_token jl st read pem token =
     (case jl_header_alg jl token of
        Inl e \<Rightarrow> Inl (Unauthorized ''bad token'')
      | Inr alg \<Rightarrow>
        (case device_decoding_key jl alg pem of
           Inl e \<Rightarrow> Inl e
         | Inr key \<Rightarrow>
           (case jl_decode jl (now_secs st) token key
                   \<lparr>v_alg = alg, v_leeway = 300, v_required = [], v_validate_aud = False\<rparr> of
              Inl e \<Rightarrow> Inl (Unauthorized ''device token invalid'')
            | Inr payload \<Rightarrow> ok_or (Unauthorized ''device token invalid'') (read payload))))"

section \<open>Extractors\<close>

definition auth_from_request :: "jwt_lib \<Rightarrow> app_state \<Rightarrow> request_parts \<Rightarrow> auth res" where
  "auth_from_request jl st parts =
     (case extract_token parts of
        None \<Rightarrow> Inl (Unauthorized ''missing token'')
      | Some token \<Rightarrow> verify jl st token)"

text \<open>The optional extractor: no rejection, an invalid token is anonymous.\<close>

definition optional_auth :: "jwt_lib \<Rightarrow> app_state \<Rightarrow> request_parts \<Rightarrow> auth option" where
  "optional_auth jl st parts =
     (case extract_token parts of
        None \<Rightarrow> None
      | Some token \<Rightarrow> (case verify jl st token of Inl _ \<Rightarrow> None | Inr a \<Rightarrow> Some a))"

definition auth_user :: "jwt_lib \<Rightarrow> app_state \<Rightarrow> request_parts \<Rightarrow> user res" where
  "auth_user jl st parts =
     (case auth_from_request jl st parts of
        Inl e \<Rightarrow> Inl e
      | Inr a \<Rightarrow> ok_or (Unauthorized ''user login required'') (a_user a))"

section \<open>Lemmas\<close>

text \<open>What the crate's \<open>decode\<close> promises: the payload it returns is the token's own.\<close>

definition decode_returns_payload :: "jwt_lib \<Rightarrow> bool" where
  "decode_returns_payload jl =
     (\<forall>now token key v p. jl_decode jl now token key v = Inr p \<longrightarrow> unverified_payload jl token = Some p)"

lemma resolve_principal_one:
  "resolve_principal st c = Inr a \<Longrightarrow> a_claims a = c \<and> (a_user a = None) \<noteq> (a_device a = None)"
  by (auto simp: resolve_principal_def split: option.splits)

lemma resolve_principal_identity:
  assumes "resolve_principal st c = Inr a"
  shows "(\<forall>d. a_device a = Some d \<longrightarrow> d \<in> set (devices st) \<and> d_dongle_id d = cl_identity c)"
    and "(\<forall>u. a_user a = Some u \<longrightarrow> u \<in> set (users st) \<and> u_identity u = cl_identity c)"
  using assms
  by (auto simp: resolve_principal_def split: option.splits dest: tbl_find_SomeD)

lemma decode_claims_InrD:
  "decode_claims jl st token key v m = Inr c \<Longrightarrow>
    \<exists>p. jl_decode jl (now_secs st) token key v = Inr p \<and> jl_claims jl p = Some c"
  by (auto simp: decode_claims_def split: sum.splits)

lemma verify_deviceD:
  assumes "verify_device jl st alg token = Inr a"
  obtains d key c u where "decode_unverified jl token = Some u"
    "tbl_find d_dongle_id (cl_identity u) (devices st) = Some d"
    "device_decoding_key jl alg (d_public_key d) = Inr key"
    "decode_claims jl st token key (std_validation alg) ''device token invalid'' = Inr c"
    "a = \<lparr>a_claims = c, a_user = None, a_device = Some d\<rparr>"
  using assms that by (auto simp: verify_device_def split: option.splits sum.splits)

lemma verify_deviceD2:
  assumes "verify_device jl st alg token = Inr a" and "decode_returns_payload jl"
  obtains d key p where "a_device a = Some d" "a_user a = None" "d \<in> set (devices st)"
    "d_dongle_id d = cl_identity (a_claims a)"
    "device_decoding_key jl alg (d_public_key d) = Inr key"
    "jl_decode jl (now_secs st) token key (std_validation alg) = Inr p"
proof -
  from assms(1) obtain d key c u where 1: "decode_unverified jl token = Some u"
    "tbl_find d_dongle_id (cl_identity u) (devices st) = Some d"
    "device_decoding_key jl alg (d_public_key d) = Inr key"
    "decode_claims jl st token key (std_validation alg) ''device token invalid'' = Inr c"
    "a = \<lparr>a_claims = c, a_user = None, a_device = Some d\<rparr>"
    by (rule verify_deviceD)
  then obtain p where p: "jl_decode jl (now_secs st) token key (std_validation alg) = Inr p"
    "jl_claims jl p = Some c" using decode_claims_InrD by blast
  then have "unverified_payload jl token = Some p"
    using assms(2) by (auto simp: decode_returns_payload_def)
  with 1(1) p(2) have "u = c" by (simp add: decode_unverified_def)
  with 1 p that show ?thesis by (auto dest: tbl_find_SomeD)
qed

lemma find_map_SomeD: "find_map f xs = Some y \<Longrightarrow> \<exists>x \<in> set xs. f x = Some y"
  by (induction xs) (auto split: option.splits)

end
