(* ===== verification/Access.thy ===== *)
theory Access
  imports Auth Settings
begin

text \<open>
  Who may see and manage what: \<^verbatim>\<open>src/access.rs\<close>, the route gate of
  \<^verbatim>\<open>src/serve.rs\<close> (\<open>check_route_access\<close>, in front of every media handler) and
  the one of \<^verbatim>\<open>src/api/v1.rs\<close> (\<open>allow_route_view\<close>, in front of the playlist and
  route info).
\<close>

section \<open>Device rights\<close>

definition is_shared :: "app_state \<Rightarrow> int \<Rightarrow> string \<Rightarrow> bool" where
  "is_shared st uid dongle =
     list_ex (\<lambda>a. sh_user_id a = uid \<and> sh_dongle_id a = dongle) (authorized_users st)"

definition can_manage_loaded :: "app_state \<Rightarrow> user \<Rightarrow> device \<Rightarrow> bool" where
  "can_manage_loaded st user device =
     (if u_is_admin user \<noteq> 0 \<or> d_owner_id device = Some (u_id user) then True
      else is_shared st (u_id user) (d_dongle_id device))"

definition can_manage_device :: "app_state \<Rightarrow> user \<Rightarrow> string \<Rightarrow> device res" where
  "can_manage_device st user dongle =
     (case load_device st dongle of
        None \<Rightarrow> Inl (NotFound ''unknown device'')
      | Some device \<Rightarrow>
          if can_manage_loaded st user device then Inr device
          else Inl (Forbidden ''not authorized for device''))"

definition can_view_device :: "app_state \<Rightarrow> auth \<Rightarrow> device \<Rightarrow> bool" where
  "can_view_device st auth device =
     (case a_device auth of
        Some d \<Rightarrow> d_dongle_id d = d_dongle_id device
      | None \<Rightarrow>
        (case a_user auth of
           Some u \<Rightarrow>
             (if d_owner_id device = Some (u_id u) then True
              else is_shared st (u_id u) (d_dongle_id device))
         | None \<Rightarrow> False))"

definition can_view_dongle :: "app_state \<Rightarrow> auth \<Rightarrow> string \<Rightarrow> bool" where
  "can_view_dongle st auth dongle =
     (case load_device st dongle of
        Some d \<Rightarrow> can_view_device st auth d
      | None \<Rightarrow> False)"

definition can_view_route :: "app_state \<Rightarrow> auth \<Rightarrow> string \<Rightarrow> bool" where
  "can_view_route st auth dongle = can_view_dongle st auth dongle"

section \<open>Route gates\<close>

text \<open>\<open>matches!(is_public, Some((1,)))\<close>.\<close>

definition route_public :: "app_state \<Rightarrow> string \<Rightarrow> bool" where
  "route_public st fullname = (map_option r_is_public (find_route st fullname) = Some 1)"

definition check_route_access ::
    "app_state \<Rightarrow> string \<Rightarrow> string \<Rightarrow> auth option \<Rightarrow> unit res" where
  "check_route_access st fullname dongle auth =
     (if route_public st fullname then Inr ()
      else case auth of
             None \<Rightarrow> Inl (Unauthorized ''login required'')
           | Some a \<Rightarrow>
               if \<not> can_view_route st a dongle
               then Inl (Forbidden ''not authorized for this route'')
               else Inr ())"

text \<open>\<open>allow_route_view\<close>; its \<open>load_device\<close> answers \<open>NotFound\<close> for an unknown dongle.\<close>

definition allow_route_view ::
    "app_state \<Rightarrow> string \<Rightarrow> string \<Rightarrow> auth option \<Rightarrow> unit res" where
  "allow_route_view st fullname dongle auth =
     (if route_public st fullname then Inr ()
      else case Option.bind auth a_user of
             None \<Rightarrow> Inl (Unauthorized ''login required'')
           | Some user \<Rightarrow>
             (case load_device st dongle of
                None \<Rightarrow> Inl (NotFound ''unknown device'')
              | Some device \<Rightarrow>
                  if can_manage_loaded st user device then Inr ()
                  else Inl (Forbidden ''not authorized for device'')))"

text \<open>\<open>authorize_view\<close> of \<^verbatim>\<open>v1.rs\<close>: the device endpoints' own copy of the view rule.\<close>

definition authorize_view :: "app_state \<Rightarrow> auth \<Rightarrow> device \<Rightarrow> bool" where
  "authorize_view st auth device =
     (case a_device auth of
        Some d \<Rightarrow> d_dongle_id d = d_dongle_id device
      | None \<Rightarrow>
        (case a_user auth of
           Some u \<Rightarrow>
             (if d_owner_id device = Some (u_id u) then True
              else is_shared st (u_id u) (d_dongle_id device))
         | None \<Rightarrow> False))"

text \<open>\<open>POST /v1/route/:fullname/public\<close>.\<close>

definition set_route_public :: "app_state \<Rightarrow> user \<Rightarrow> string \<Rightarrow> bool \<Rightarrow> app_state \<times> bool res" where
  "set_route_public st user fullname public =
     (case split_fullname fullname of
        Inl e \<Rightarrow> (st, Inl e)
      | Inr (dongle, _) \<Rightarrow>
        (case can_manage_device st user dongle of
           Inl e \<Rightarrow> (st, Inl e)
         | Inr _ \<Rightarrow>
             (st\<lparr>routes := tbl_update (\<lambda>r. r_fullname r = fullname)
                             (\<lambda>r. r\<lparr>r_is_public := (if public then 1 else 0)\<rparr>) (routes st)\<rparr>,
              Inr public)))"

section \<open>Lemmas\<close>

text \<open>The rights relation the gates are meant to enforce.\<close>

definition owns_or_shared :: "app_state \<Rightarrow> user \<Rightarrow> device \<Rightarrow> bool" where
  "owns_or_shared st u d \<longleftrightarrow>
     d_owner_id d = Some (u_id u) \<or>
     (\<exists>a \<in> set (authorized_users st). sh_user_id a = u_id u \<and> sh_dongle_id a = d_dongle_id d)"

lemma is_shared_iff:
  "is_shared st uid dongle \<longleftrightarrow>
    (\<exists>a \<in> set (authorized_users st). sh_user_id a = uid \<and> sh_dongle_id a = dongle)"
  by (auto simp: is_shared_def list_ex_iff)

lemma can_manage_loaded_iff:
  "can_manage_loaded st u d \<longleftrightarrow> u_is_admin u \<noteq> 0 \<or> owns_or_shared st u d"
  by (auto simp: can_manage_loaded_def owns_or_shared_def is_shared_iff)

lemma can_view_device_user:
  "a_device a = None \<Longrightarrow> a_user a = Some u \<Longrightarrow> can_view_device st a d \<longleftrightarrow> owns_or_shared st u d"
  by (auto simp: can_view_device_def owns_or_shared_def is_shared_iff)

lemma can_view_device_device:
  "a_device a = Some t \<Longrightarrow> can_view_device st a d \<longleftrightarrow> d_dongle_id t = d_dongle_id d"
  by (simp add: can_view_device_def)

lemma load_device_SomeD: "load_device st g = Some d \<Longrightarrow> d \<in> set (devices st) \<and> d_dongle_id d = g"
  by (auto simp: load_device_def dest: tbl_find_SomeD)

lemma can_manage_device_InrD:
  "can_manage_device st u g = Inr d \<Longrightarrow> load_device st g = Some d \<and> can_manage_loaded st u d"
  by (auto simp: can_manage_device_def split: option.splits if_splits)

lemma authorize_view_eq: "authorize_view st a d = can_view_device st a d"
  by (simp add: authorize_view_def can_view_device_def)

end
