(* ===== verification/Users.thy ===== *)
theory Users
  imports Access
begin

text \<open>
  \<^verbatim>\<open>src/api/users.rs\<close>: login, the admin user endpoints and the password change. The
  Argon2 crate is the parameter \<open>pw\<close> (hash and verify); the uuid of a new user is an argument.
  The two endpoints that protect the last admin read the admin count and then write in separate
  statements, so each is split into its check and its commit: run back to back they are the
  sequential handler, and a race runs two checks before either commit.
\<close>

text \<open>\<open>hash_password\<close> may fail; \<open>verify_password password hash\<close>.\<close>

record pw_lib =
  pw_hash :: "string \<Rightarrow> string option"
  pw_verify :: "string \<Rightarrow> string \<Rightarrow> bool"

record login_resp =
  lr_access_token :: string
  lr_identity :: string
  lr_username :: string
  lr_is_admin :: bool

definition login ::
    "jwt_lib \<Rightarrow> pw_lib \<Rightarrow> app_state \<Rightarrow> string \<Rightarrow> string \<Rightarrow> login_resp res" where
  "login jl pw st username password =
     (case tbl_find u_username username (users st) of
        None \<Rightarrow> Inl (Unauthorized ''invalid credentials'')
      | Some user \<Rightarrow>
        (if \<not> pw_verify pw password (u_password_hash user)
         then Inl (Unauthorized ''invalid credentials'')
         else case issue_hs512 jl st (u_identity user) of
                Inl e \<Rightarrow> Inl e
              | Inr token \<Rightarrow>
                  Inr \<lparr>lr_access_token = token, lr_identity = u_identity user,
                       lr_username = u_username user, lr_is_admin = (u_is_admin user \<noteq> 0)\<rparr>))"

definition require_admin :: "user \<Rightarrow> unit res" where
  "require_admin user = (if u_is_admin user = 0 then Inl (Forbidden ''admin required'') else Inr ())"

text \<open>\<open>GET /v1/me\<close>; the points are always 0.\<close>

record me_view =
  me_id :: string
  me_username :: string
  me_email :: "string option"
  me_is_admin :: bool
  me_regdate :: int

text \<open>Division of \<open>i64\<close> truncates towards zero.\<close>

definition me :: "user \<Rightarrow> me_view" where
  "me user =
     \<lparr>me_id = u_identity user, me_username = u_username user, me_email = u_email user,
      me_is_admin = (u_is_admin user \<noteq> 0),
      me_regdate = (if 0 \<le> u_created_at user then u_created_at user div 1000 else - (- u_created_at user div 1000))\<rparr>"

definition user_by_identity :: "app_state \<Rightarrow> string \<Rightarrow> user res" where
  "user_by_identity st identity =
     ok_or (NotFound ''unknown user'') (tbl_find u_identity identity (users st))"

definition admin_count :: "app_state \<Rightarrow> nat" where
  "admin_count st = length (filter (\<lambda>u. u_is_admin u = 1) (users st))"

text \<open>\<open>create_user_row\<close>: the \<open>INSERT\<close> fails on a taken user name (or identity).\<close>

definition create_user_row ::
    "pw_lib \<Rightarrow> app_state \<Rightarrow> string \<Rightarrow> string \<Rightarrow> string \<Rightarrow> string option \<Rightarrow> bool \<Rightarrow> app_state \<times> string res" where
  "create_user_row pw st identity username password email is_admin =
     (if trim username = [] \<or> length password < 6
      then (st, Inl (BadRequest ''username required, password >= 6 chars''))
      else case pw_hash pw password of
             None \<Rightarrow> (st, Inl (Other ''hash error''))
           | Some hash \<Rightarrow>
             (if username \<in> u_username ` set (users st) \<or> identity \<in> u_identity ` set (users st)
              then (st, Inl (BadRequest ''username already exists''))
              else
                let new = \<lparr>u_id = user_seq st + 1, u_identity = identity, u_username = username,
                           u_password_hash = hash, u_email = email,
                           u_is_admin = (if is_admin then 1 else 0), u_created_at = now_millis st\<rparr>
                in (st\<lparr>users := users st @ [new], user_seq := user_seq st + 1\<rparr>, Inr identity)))"

definition create_user ::
    "pw_lib \<Rightarrow> app_state \<Rightarrow> user \<Rightarrow> string \<Rightarrow> string \<Rightarrow> string \<Rightarrow> string option \<Rightarrow> bool \<Rightarrow> app_state \<times> string res" where
  "create_user pw st caller identity username password email is_admin =
     (if u_is_admin caller = 0 then (st, Inl (Forbidden ''admin required''))
      else create_user_row pw st identity username password email is_admin)"

definition store_password :: "pw_lib \<Rightarrow> app_state \<Rightarrow> string \<Rightarrow> string \<Rightarrow> app_state \<times> unit res" where
  "store_password pw st identity new =
     (if length new < 6 then (st, Inl (BadRequest ''password must be >= 6 chars''))
      else case pw_hash pw new of
             None \<Rightarrow> (st, Inl (Other ''hash error''))
           | Some hash \<Rightarrow>
               (st\<lparr>users := tbl_update (\<lambda>u. u_identity u = identity)
                              (\<lambda>u. u\<lparr>u_password_hash := hash\<rparr>) (users st)\<rparr>, Inr ()))"

text \<open>\<open>ORDER BY is_admin DESC, username ASC\<close>, names bytewise.\<close>

definition list_users :: "app_state \<Rightarrow> user \<Rightarrow> (user \<times> nat) list res" where
  "list_users st caller =
     (case require_admin caller of
        Inl e \<Rightarrow> Inl e
      | Inr _ \<Rightarrow>
          Inr (map (\<lambda>u. (u, length (filter (\<lambda>d. d_owner_id d = Some (u_id u)) (devices st))))
                 (sort_key (\<lambda>u. (- u_is_admin u, u_username u)) (users st))))"

text \<open>\<open>update_user\<close>: check, then write.\<close>

record update_plan =
  up_identity :: string
  up_admin :: bool
  up_email :: "string option"

definition update_user_check ::
    "app_state \<Rightarrow> string \<Rightarrow> user \<Rightarrow> bool option \<Rightarrow> string option \<Rightarrow> update_plan res" where
  "update_user_check st identity caller req_admin req_email =
     (case require_admin caller of
        Inl e \<Rightarrow> Inl e
      | Inr _ \<Rightarrow>
        (case user_by_identity st identity of
           Inl e \<Rightarrow> Inl e
         | Inr target \<Rightarrow>
           (let new_admin = (case req_admin of Some b \<Rightarrow> b | None \<Rightarrow> u_is_admin target \<noteq> 0)
            in if u_is_admin target \<noteq> 0 \<and> \<not> new_admin \<and> admin_count st \<le> 1
               then Inl (BadRequest ''cannot remove the last admin'')
               else Inr \<lparr>up_identity = identity, up_admin = new_admin,
                         up_email = (case req_email of Some e \<Rightarrow> Some e | None \<Rightarrow> u_email target)\<rparr>)))"

definition update_user_commit :: "update_plan \<Rightarrow> app_state \<Rightarrow> app_state" where
  "update_user_commit p st =
     st\<lparr>users := tbl_update (\<lambda>u. u_identity u = up_identity p)
          (\<lambda>u. u\<lparr>u_is_admin := (if up_admin p then 1 else 0), u_email := up_email p\<rparr>) (users st)\<rparr>"

definition update_user ::
    "app_state \<Rightarrow> string \<Rightarrow> user \<Rightarrow> bool option \<Rightarrow> string option \<Rightarrow> app_state \<times> bool res" where
  "update_user st identity caller req_admin req_email =
     (case update_user_check st identity caller req_admin req_email of
        Inl e \<Rightarrow> (st, Inl e)
      | Inr p \<Rightarrow> (update_user_commit p st, Inr (up_admin p)))"

definition admin_set_password ::
    "pw_lib \<Rightarrow> app_state \<Rightarrow> string \<Rightarrow> user \<Rightarrow> string \<Rightarrow> app_state \<times> unit res" where
  "admin_set_password pw st identity caller password =
     (case require_admin caller of
        Inl e \<Rightarrow> (st, Inl e)
      | Inr _ \<Rightarrow>
        (case user_by_identity st identity of
           Inl e \<Rightarrow> (st, Inl e)
         | Inr _ \<Rightarrow> store_password pw st identity password))"

text \<open>\<open>delete_user\<close>: the three deletions run in one transaction.\<close>

definition delete_user_check :: "app_state \<Rightarrow> string \<Rightarrow> user \<Rightarrow> user res" where
  "delete_user_check st identity caller =
     (case require_admin caller of
        Inl e \<Rightarrow> Inl e
      | Inr _ \<Rightarrow>
        (case user_by_identity st identity of
           Inl e \<Rightarrow> Inl e
         | Inr target \<Rightarrow>
           (if u_identity target = u_identity caller
            then Inl (BadRequest ''you can't delete your own account'')
            else if u_is_admin target \<noteq> 0 \<and> admin_count st \<le> 1
            then Inl (BadRequest ''cannot delete the last admin'')
            else Inr target)))"

definition delete_user_commit :: "user \<Rightarrow> app_state \<Rightarrow> app_state" where
  "delete_user_commit target st =
     st\<lparr>authorized_users := tbl_delete (\<lambda>a. sh_user_id a = u_id target) (authorized_users st),
        devices := tbl_update (\<lambda>d. d_owner_id d = Some (u_id target))
                     (\<lambda>d. d\<lparr>d_owner_id := None\<rparr>) (devices st),
        users := tbl_delete (\<lambda>u. u_id u = u_id target) (users st)\<rparr>"

definition delete_user :: "app_state \<Rightarrow> string \<Rightarrow> user \<Rightarrow> app_state \<times> unit res" where
  "delete_user st identity caller =
     (case delete_user_check st identity caller of
        Inl e \<Rightarrow> (st, Inl e)
      | Inr target \<Rightarrow> (delete_user_commit target st, Inr ()))"

definition change_my_password ::
    "pw_lib \<Rightarrow> app_state \<Rightarrow> user \<Rightarrow> string \<Rightarrow> string \<Rightarrow> app_state \<times> unit res" where
  "change_my_password pw st user current new =
     (if \<not> pw_verify pw current (u_password_hash user)
      then (st, Inl (Unauthorized ''current password is incorrect''))
      else store_password pw st (u_identity user) new)"

section \<open>Requests as steps\<close>

text \<open>
  The requests that change \<open>users\<close>, each by a caller who is a user of the current state (the
  \<open>AuthUser\<close> extractor reads the row when the request arrives).
\<close>

datatype user_req =
    CreateReq string string string "string option" bool
  | UpdateReq string "bool option" "string option"
  | AdminPasswordReq string string
  | DeleteUserReq string
  | ChangePasswordReq string string

fun handle_user_req :: "pw_lib \<Rightarrow> user \<Rightarrow> user_req \<Rightarrow> app_state \<Rightarrow> app_state" where
  "handle_user_req pw c (CreateReq i n p e a) st = fst (create_user pw st c i n p e a)"
| "handle_user_req pw c (UpdateReq i a e) st = fst (update_user st i c a e)"
| "handle_user_req pw c (AdminPasswordReq i p) st = fst (admin_set_password pw st i c p)"
| "handle_user_req pw c (DeleteUserReq i) st = fst (delete_user st i c)"
| "handle_user_req pw c (ChangePasswordReq o' n) st = fst (change_my_password pw st c o' n)"

text \<open>Requests served one after the other; a caller who is no longer a user is rejected.\<close>

inductive user_steps :: "pw_lib \<Rightarrow> app_state \<Rightarrow> app_state \<Rightarrow> bool" for pw where
  start: "user_steps pw st st"
| step: "user_steps pw st st' \<Longrightarrow> c \<in> set (users st') \<Longrightarrow>
    user_steps pw st (handle_user_req pw c r st')"

text \<open>
  The same endpoints under concurrency: a check appends its plan, a commit executes one. This is
  the order of statements two handlers running at once may reach the database in.
\<close>

datatype user_plan = UpdatePlan update_plan | DeletePlan user

inductive user_race :: "app_state \<times> user_plan list \<Rightarrow> app_state \<times> user_plan list \<Rightarrow> bool" where
  check_update: "c \<in> set (users st) \<Longrightarrow> update_user_check st i c a e = Inr p \<Longrightarrow>
    user_race (st, ps) (st, UpdatePlan p # ps)"
| check_delete: "c \<in> set (users st) \<Longrightarrow> delete_user_check st i c = Inr t \<Longrightarrow>
    user_race (st, ps) (st, DeletePlan t # ps)"
| commit_update: "UpdatePlan p \<in> set ps \<Longrightarrow>
    user_race (st, ps) (update_user_commit p st, remove1 (UpdatePlan p) ps)"
| commit_delete: "DeletePlan t \<in> set ps \<Longrightarrow>
    user_race (st, ps) (delete_user_commit t st, remove1 (DeletePlan t) ps)"

inductive_cases user_stepsE: "user_steps pw st st'"

section \<open>Invariants\<close>

definition has_admin :: "app_state \<Rightarrow> bool" where
  "has_admin st \<longleftrightarrow> (\<exists>u \<in> set (users st). u_is_admin u = 1)"

definition admin_flags_ok :: "app_state \<Rightarrow> bool" where
  "admin_flags_ok st \<longleftrightarrow> (\<forall>u \<in> set (users st). u_is_admin u = 0 \<or> u_is_admin u = 1)"

definition users_inv :: "app_state \<Rightarrow> bool" where
  "users_inv st \<longleftrightarrow> has_admin st \<and> admin_flags_ok st \<and> db_ok st"

lemma admin_count_pos: "has_admin st \<longleftrightarrow> 0 < admin_count st"
  by (auto simp: has_admin_def admin_count_def filter_empty_conv)

lemma has_admin_image: "has_admin st \<longleftrightarrow> 1 \<in> u_is_admin ` set (users st)"
  by (auto simp: has_admin_def)

lemma admin_flags_image: "admin_flags_ok st \<longleftrightarrow> u_is_admin ` set (users st) \<subseteq> {0, 1}"
  by (auto simp: admin_flags_ok_def)

lemma two_admins:
  assumes "1 < admin_count st" and ok: "tbl_ok u_identity (users st)"
  shows "\<exists>u \<in> set (users st). u_is_admin u = 1 \<and> u_identity u \<noteq> i"
proof (rule ccontr)
  let ?A = "filter (\<lambda>u. u_is_admin u = 1) (users st)"
  assume "\<not> ?thesis"
  then have "set (map u_identity ?A) \<subseteq> {i}" by auto
  moreover have "distinct (map u_identity ?A)"
    using ok by (simp add: tbl_ok_def distinct_map_filter)
  ultimately have "length (map u_identity ?A) \<le> 1"
    by (metis card_mono card.empty card.insert distinct_card empty_iff finite.emptyI finite.insertI One_nat_def)
  with assms(1) show False by (simp add: admin_count_def)
qed

lemma store_password_users:
  "fst (store_password pw st i n) = st \<or>
   (\<exists>h. fst (store_password pw st i n) =
      st\<lparr>users := tbl_update (\<lambda>u. u_identity u = i) (\<lambda>u. u\<lparr>u_password_hash := h\<rparr>) (users st)\<rparr>)"
  by (auto simp: store_password_def split: option.splits)

lemma user_by_identity_InrD:
  "user_by_identity st i = Inr t \<Longrightarrow> t \<in> set (users st) \<and> u_identity t = i"
  by (auto simp: user_by_identity_def dest: tbl_find_SomeD)

text \<open>An update of user rows that keeps ids, identities and names keeps the database sound.\<close>

lemma db_ok_update_users:
  assumes "db_ok st" and "\<And>u. u_id (f u) = u_id u" "\<And>u. u_identity (f u) = u_identity u"
    "\<And>u. u_username (f u) = u_username u"
  shows "db_ok (st\<lparr>users := tbl_update p f (users st)\<rparr>)"
proof -
  have "u_id ` set (tbl_update p f (users st)) = u_id ` set (users st)"
    using assms(2) by (rule keys_update)
  moreover have "\<forall>u \<in> set (tbl_update p f (users st)). u_id u \<le> user_seq st"
    using assms(1,2) by (auto simp: db_ok_def keys_ok_def set_tbl_update)
  ultimately show ?thesis
    using assms by (simp add: db_ok_def keys_ok_def refs_ok_def tbl_ok_update)
qed

lemma update_user_commit_inv:
  assumes inv: "users_inv st" and chk: "update_user_check st i c a e = Inr p"
  shows "users_inv (update_user_commit p st)"
proof -
  obtain t where t: "user_by_identity st i = Inr t" and up: "up_identity p = i"
    and guard: "\<not> (u_is_admin t \<noteq> 0 \<and> \<not> up_admin p \<and> admin_count st \<le> 1)"
    using chk by (auto simp: update_user_check_def Let_def split: sum.splits if_splits option.splits)
  let ?f = "\<lambda>u. u\<lparr>u_is_admin := (if up_admin p then 1 else 0), u_email := up_email p\<rparr>"
  have ok: "tbl_ok u_identity (users st)"
    using inv by (simp add: users_inv_def db_ok_def keys_ok_def)
  have t': "t \<in> set (users st)" "u_identity t = i" using user_by_identity_InrD[OF t] by auto
  have db: "db_ok (update_user_commit p st)"
    unfolding update_user_commit_def using inv by (intro db_ok_update_users) (auto simp: users_inv_def)
  have flags: "admin_flags_ok (update_user_commit p st)"
    using inv by (auto simp: users_inv_def admin_flags_ok_def update_user_commit_def set_tbl_update)
  have "has_admin (update_user_commit p st)"
  proof (cases "up_admin p")
    case True
    then have "?f t \<in> set (users (update_user_commit p st))" "u_is_admin (?f t) = 1"
      using t' up by (auto simp: update_user_commit_def set_tbl_update)
    then show ?thesis unfolding has_admin_def by blast
  next
    case False
    have "\<exists>u \<in> set (users st). u_is_admin u = 1 \<and> u_identity u \<noteq> i"
    proof (cases "u_is_admin t = 0")
      case True
      then have "\<And>u. u \<in> set (users st) \<Longrightarrow> u_identity u = i \<Longrightarrow> u_is_admin u = 0"
        using t' tbl_find_in_set[OF ok] by (metis option.inject)
      moreover from inv obtain u where "u \<in> set (users st)" "u_is_admin u = 1"
        by (auto simp: users_inv_def has_admin_def)
      ultimately show ?thesis by (metis zero_neq_one)
    next
      case nz: False
      with False guard have "1 < admin_count st" by simp
      then show ?thesis using ok by (rule two_admins)
    qed
    then show ?thesis
      using up by (auto simp: has_admin_def update_user_commit_def set_tbl_update)
  qed
  with db flags show ?thesis by (simp add: users_inv_def)
qed

lemma delete_user_commit_db_ok:
  assumes "db_ok st"
  shows "db_ok (delete_user_commit t st)"
proof -
  let ?ids = "u_id ` set (users st) - {u_id t}"
  have users: "u_id ` {u \<in> set (users st). u_id u \<noteq> u_id t} = ?ids" by auto
  have dongles: "d_dongle_id ` set (devices (delete_user_commit t st)) = d_dongle_id ` set (devices st)"
    by (simp add: delete_user_commit_def keys_update)
  have keys: "keys_ok (delete_user_commit t st)"
    using assms by (auto simp: db_ok_def keys_ok_def delete_user_commit_def tbl_ok_update tbl_ok_delete)
  have "refs_ok (delete_user_commit t st)"
    unfolding refs_ok_def
  proof (intro conjI)
    show "\<forall>d \<in> set (devices (delete_user_commit t st)). \<forall>i. d_owner_id d = Some i \<longrightarrow>
        i \<in> u_id ` set (users (delete_user_commit t st))"
      using assms users
      by (auto simp: db_ok_def refs_ok_def delete_user_commit_def set_tbl_update split: if_splits)
    show "\<forall>r \<in> set (routes (delete_user_commit t st)).
        r_device_dongle_id r \<in> d_dongle_id ` set (devices (delete_user_commit t st))"
      using assms dongles by (simp add: db_ok_def refs_ok_def) (simp add: delete_user_commit_def)
    show "\<forall>s \<in> set (segments (delete_user_commit t st)).
        s_route s \<in> r_fullname ` set (routes (delete_user_commit t st))"
      using assms by (simp add: db_ok_def refs_ok_def delete_user_commit_def)
    show "\<forall>a \<in> set (authorized_users (delete_user_commit t st)).
        sh_user_id a \<in> u_id ` set (users (delete_user_commit t st)) \<and>
        sh_dongle_id a \<in> d_dongle_id ` set (devices (delete_user_commit t st))"
      using assms users dongles
      by (auto simp: db_ok_def refs_ok_def delete_user_commit_def)
  qed
  with keys show ?thesis by (simp add: db_ok_def)
qed

lemma store_password_inv: "users_inv st \<Longrightarrow> users_inv (fst (store_password pw st i n))"
proof -
  assume inv: "users_inv st"
  have "users_inv (st\<lparr>users := tbl_update (\<lambda>u. u_identity u = i) (\<lambda>u. u\<lparr>u_password_hash := h\<rparr>) (users st)\<rparr>)" for h
    using inv unfolding users_inv_def
    by (intro conjI db_ok_update_users)
       (auto simp: has_admin_image admin_flags_image keys_update)
  then show ?thesis using store_password_users[of pw st i n] inv by auto
qed

lemma create_user_row_inv:
  assumes inv: "users_inv st"
  shows "users_inv (fst (create_user_row pw st i n p e a))"
proof -
  have "users_inv (st\<lparr>users := users st @ [u], user_seq := user_seq st + 1\<rparr>)"
    if "u_id u = user_seq st + 1" "u_identity u \<notin> u_identity ` set (users st)"
      "u_username u \<notin> u_username ` set (users st)" "u_is_admin u = 0 \<or> u_is_admin u = 1" for u
  proof -
    have "u_id u \<notin> u_id ` set (users st)"
      using inv that(1) by (force simp: users_inv_def db_ok_def keys_ok_def)
    moreover have "\<forall>v \<in> set (users st). u_id v \<le> user_seq st + 1"
      using inv by (force simp: users_inv_def db_ok_def keys_ok_def)
    ultimately show ?thesis
      using inv that
      by (auto simp: users_inv_def has_admin_def admin_flags_ok_def db_ok_def keys_ok_def refs_ok_def
          tbl_ok_def)
  qed
  then show ?thesis
    using inv by (auto simp: create_user_row_def Let_def split: option.splits)
qed

lemma delete_user_commit_inv:
  assumes inv: "users_inv st" and chk: "delete_user_check st i c = Inr t"
  shows "users_inv (delete_user_commit t st)"
proof -
  have t: "t \<in> set (users st)" and guard: "\<not> (u_is_admin t \<noteq> 0 \<and> admin_count st \<le> 1)"
    using chk by (auto simp: delete_user_check_def split: sum.splits if_splits dest: user_by_identity_InrD)
  have ok: "tbl_ok u_identity (users st)" "tbl_ok u_id (users st)"
    using inv by (simp_all add: users_inv_def db_ok_def keys_ok_def)
  have "\<exists>u \<in> set (users st). u_is_admin u = 1 \<and> u_identity u \<noteq> u_identity t"
  proof (cases "u_is_admin t = 0")
    case True
    then have "\<And>u. u \<in> set (users st) \<Longrightarrow> u_identity u = u_identity t \<Longrightarrow> u_is_admin u = 0"
      using t tbl_find_in_set[OF ok(1)] by (metis option.inject)
    then show ?thesis using inv unfolding users_inv_def has_admin_def by (metis zero_neq_one)
  next
    case False
    with guard have "1 < admin_count st" by simp
    then show ?thesis using ok(1) by (rule two_admins)
  qed
  then obtain u where u: "u \<in> set (users st)" "u_is_admin u = 1" "u_identity u \<noteq> u_identity t" by blast
  then have "u_id u \<noteq> u_id t" using t tbl_find_in_set[OF ok(2)] by (metis option.inject)
  with u have "has_admin (delete_user_commit t st)"
    by (auto simp: has_admin_def delete_user_commit_def)
  moreover have "admin_flags_ok (delete_user_commit t st)"
    using inv by (auto simp: users_inv_def admin_flags_ok_def delete_user_commit_def)
  ultimately show ?thesis
    using inv delete_user_commit_db_ok by (simp add: users_inv_def)
qed

lemma handle_user_req_inv: "users_inv st \<Longrightarrow> users_inv (handle_user_req pw c r st)"
  by (cases r)
     (auto simp: create_user_def update_user_def admin_set_password_def delete_user_def
       change_my_password_def create_user_row_inv store_password_inv update_user_commit_inv
       delete_user_commit_inv split: sum.splits)

section \<open>Properties\<close>

text \<open>
  C3: whatever sequence of user requests is served (creations, updates, demotions, password
  resets and deletions, successful or refused), the system keeps at least one administrator, the
  admin flags stay 0 or 1, and the database keeps its keys and foreign keys.
\<close>

theorem user_requests_keep_admin:
  assumes "user_steps pw st st'" and "users_inv st"
  shows "users_inv st'"
  using assms by (induction rule: user_steps.induct) (auto intro: handle_user_req_inv)

text \<open>A concrete directory: two administrators.\<close>

definition demo_user :: "int \<Rightarrow> string \<Rightarrow> int \<Rightarrow> user" where
  "demo_user i name admin =
     \<lparr>u_id = i, u_identity = name, u_username = name, u_password_hash = ''h'', u_email = None,
      u_is_admin = admin, u_created_at = 0\<rparr>"

definition demo_users_state :: app_state where
  "demo_users_state =
     empty_state\<lparr>users := [demo_user 1 ''ann'' 1, demo_user 2 ''bob'' 1], user_seq := 2\<rparr>"

definition demo_jwt :: jwt_lib where
  "demo_jwt =
     \<lparr>jl_header_alg = (\<lambda>_. Inl ''bad''), jl_secret_ok = (\<lambda>_. True), jl_ec_pem_ok = (\<lambda>_. True), jl_rsa_pem_ok = (\<lambda>_. True),
      jl_decode = (\<lambda>_ _ _ _. Inl ''bad''), jl_base64 = (\<lambda>_. None), jl_claims = (\<lambda>_. None), jl_register = (\<lambda>_. None),
      jl_pair = (\<lambda>_. None), jl_encode = (\<lambda>_ cl _. cl_identity cl)\<rparr>"

definition demo_pw :: pw_lib where
  "demo_pw = \<lparr>pw_hash = (\<lambda>p. Some (''$'' @ p)), pw_verify = (\<lambda>p h. h = ''$'' @ p)\<rparr>"

lemma demo_users_inv: "users_inv demo_users_state"
  by (simp add: users_inv_def has_admin_def admin_flags_ok_def db_ok_def keys_ok_def refs_ok_def
      demo_users_state_def demo_user_def empty_state_def tbl_ok_def)

theorem user_requests_keep_admin_witness:
  "users_inv (handle_user_req demo_pw (demo_user 1 ''ann'' 1) (DeleteUserReq ''bob'') demo_users_state)"
proof -
  have "demo_user 1 ''ann'' 1 \<in> set (users demo_users_state)"
    by (simp add: demo_users_state_def)
  then have "user_steps demo_pw demo_users_state
      (handle_user_req demo_pw (demo_user 1 ''ann'' 1) (DeleteUserReq ''bob'') demo_users_state)"
    by (rule user_steps.step[OF user_steps.start])
  then show ?thesis using demo_users_inv by (rule user_requests_keep_admin)
qed

text \<open>
  C36: the last-administrator guard does not survive concurrency. Two administrators who demote
  each other at the same time both pass the count check before either write, and the system is
  left with no administrator.
\<close>

theorem concurrent_demotion_loses_last_admin:
  "\<exists>st. user_race\<^sup>*\<^sup>* (demo_users_state, []) (st, []) \<and> users st \<noteq> [] \<and> \<not> has_admin st"
proof -
  let ?a = "demo_user 1 ''ann'' 1" and ?b = "demo_user 2 ''bob'' 1" and ?s = demo_users_state
  let ?pa = "\<lparr>up_identity = ''ann'', up_admin = False, up_email = None\<rparr>"
  let ?pb = "\<lparr>up_identity = ''bob'', up_admin = False, up_email = None\<rparr>"
  have ca: "update_user_check ?s ''bob'' ?a (Some False) None = Inr ?pb"
    and cb: "update_user_check ?s ''ann'' ?b (Some False) None = Inr ?pa"
    by (simp_all add: update_user_check_def require_admin_def user_by_identity_def admin_count_def
        demo_users_state_def demo_user_def)
  have 1: "user_race (?s, []) (?s, [UpdatePlan ?pb])"
    by (rule user_race.check_update[OF _ ca]) (simp add: demo_users_state_def)
  have 2: "user_race (?s, [UpdatePlan ?pb]) (?s, [UpdatePlan ?pa, UpdatePlan ?pb])"
    by (rule user_race.check_update[OF _ cb]) (simp add: demo_users_state_def)
  have 3: "user_race (?s, [UpdatePlan ?pa, UpdatePlan ?pb]) (update_user_commit ?pb ?s, [UpdatePlan ?pa])"
    using user_race.commit_update[of ?pb "[UpdatePlan ?pa, UpdatePlan ?pb]" ?s] by simp
  have 4: "user_race (update_user_commit ?pb ?s, [UpdatePlan ?pa])
      (update_user_commit ?pa (update_user_commit ?pb ?s), [])"
    using user_race.commit_update[of ?pa "[UpdatePlan ?pa]" "update_user_commit ?pb ?s"] by simp
  from 1 2 3 4 have "user_race\<^sup>*\<^sup>* (?s, []) (update_user_commit ?pa (update_user_commit ?pb ?s), [])"
    by (meson rtranclp.rtrancl_into_rtrancl rtranclp.rtrancl_refl)
  then show ?thesis
    by (intro exI[of _ "update_user_commit ?pa (update_user_commit ?pb ?s)"])
       (simp add: has_admin_def update_user_commit_def demo_users_state_def demo_user_def)
qed

end
