(* ===== verification/Devices.thy ===== *)
theory Devices
  imports Users
begin

text \<open>
  Devices: registration and pairing (\<^verbatim>\<open>src/api/v2.rs\<close>), claiming
  (\<open>claim_device\<close> of \<^verbatim>\<open>src/api/v1.rs\<close>), and the athena websocket that tracks
  who is online (\<^verbatim>\<open>src/athena.rs\<close>). Claiming reads the owner and then writes in
  separate statements, so it is split into check and commit.
\<close>

section \<open>Registration\<close>

record pilot_auth_params =
  pa_imei :: string
  pa_imei2 :: string
  pa_serial :: string
  pa_public_key :: string
  pa_register_token :: string

definition derive_dongle_id :: "app_state \<Rightarrow> pilot_auth_params \<Rightarrow> string" where
  "derive_dongle_id st p =
     take 16 (sha256_hex st (pa_imei p @ pa_imei2 p @ pa_serial p @ pa_public_key p))"

definition new_device :: "string \<Rightarrow> pilot_auth_params \<Rightarrow> int \<Rightarrow> device" where
  "new_device dongle p now =
     \<lparr>d_dongle_id = dongle, d_serial = pa_serial p, d_imei = pa_imei p, d_imei2 = pa_imei2 p,
      d_public_key = pa_public_key p, d_owner_id = None, d_online = 0, d_last_athena_ping = 0,
      d_uploads_allowed = 1, d_alias = '''', d_device_type = ''unknown'', d_server_storage = 0,
      d_last_gps_lat = f_zero, d_last_gps_lng = f_zero, d_last_gps_time = 0, d_created_at = now,
      d_last_addr = ''''\<rparr>"

definition pilotauth :: "jwt_lib \<Rightarrow> app_state \<Rightarrow> pilot_auth_params \<Rightarrow> app_state \<times> string res" where
  "pilotauth jl st p =
     (case verify_device_token jl st (jl_register jl) (pa_public_key p) (pa_register_token p) of
        Inl e \<Rightarrow> (st, Inl e)
      | Inr register \<Rightarrow>
        (if \<not> register then (st, Inl (Unauthorized ''register claim missing''))
         else
           let dongle = derive_dongle_id st p
           in (st\<lparr>devices := tbl_upsert d_dongle_id (new_device dongle p (now_millis st))
                     (\<lambda>d. d\<lparr>d_serial := pa_serial p, d_imei := pa_imei p, d_imei2 := pa_imei2 p,
                            d_public_key := pa_public_key p\<rparr>) (devices st)\<rparr>,
               Inr dongle)))"

section \<open>Sharing rows\<close>

text \<open>
  \<open>INSERT OR IGNORE INTO authorized_users\<close>. \<open>OR IGNORE\<close> skips the row when the primary
  key is taken and also when a \<open>NOT NULL\<close> column has no value (\<open>created_at\<close> has no
  default), but a foreign key failure is still an error.
\<close>

definition insert_share :: "int \<Rightarrow> string \<Rightarrow> int option \<Rightarrow> app_state \<Rightarrow> app_state res" where
  "insert_share uid dongle created st =
     (case created of
        None \<Rightarrow> Inr st
      | Some c \<Rightarrow>
        (if is_shared st uid dongle then Inr st
         else if uid \<in> u_id ` set (users st) \<and> dongle \<in> d_dongle_id ` set (devices st)
         then Inr (st\<lparr>authorized_users := authorized_users st @
                        [\<lparr>sh_user_id = uid, sh_dongle_id = dongle, sh_created_at = c\<rparr>]\<rparr>)
         else Inl (Sqlx ''FOREIGN KEY constraint failed'')))"

section \<open>Pairing\<close>

text \<open>\<open>pilotpair\<close>: the share row is inserted without \<open>created_at\<close>, its result ignored.\<close>

definition set_owner :: "int \<Rightarrow> string \<Rightarrow> (device \<Rightarrow> bool) \<Rightarrow> app_state \<Rightarrow> app_state" where
  "set_owner uid dongle guard st =
     st\<lparr>devices := tbl_update (\<lambda>d. d_dongle_id d = dongle \<and> guard d)
                     (\<lambda>d. d\<lparr>d_owner_id := Some uid\<rparr>) (devices st)\<rparr>"

definition pilotpair :: "jwt_lib \<Rightarrow> app_state \<Rightarrow> user \<Rightarrow> string \<Rightarrow> app_state \<times> (bool \<times> string) res" where
  "pilotpair jl st user pair_token =
     (case Option.bind (unverified_payload jl pair_token) (jl_pair jl) of
        None \<Rightarrow> (st, Inl (BadRequest ''undecodable pair token''))
      | Some (identity, _) \<Rightarrow>
        (case load_device st identity of
           None \<Rightarrow> (st, Inl (NotFound ''unknown device''))
         | Some device \<Rightarrow>
           (case verify_device_token jl st (jl_pair jl) (d_public_key device) pair_token of
              Inl e \<Rightarrow> (st, Inl e)
            | Inr (_, pair) \<Rightarrow>
              (if \<not> pair then (st, Inl (Unauthorized ''pair claim missing''))
               else if d_owner_id device = None
               then
                 let st1 = set_owner (u_id user) (d_dongle_id device) (\<lambda>_. True) st;
                     st2 = (case insert_share (u_id user) (d_dongle_id device) None st1 of
                              Inl _ \<Rightarrow> st1 | Inr s \<Rightarrow> s)
                 in (st2, Inr (True, d_dongle_id device))
               else (st, Inr (False, d_dongle_id device))))))"

section \<open>Claiming\<close>

datatype claim_outcome = AlreadyOwned | FirstPair

definition claim_check :: "app_state \<Rightarrow> user \<Rightarrow> string \<Rightarrow> claim_outcome res" where
  "claim_check st user dongle =
     (case load_device st dongle of
        None \<Rightarrow> Inl (NotFound ''unknown device'')
      | Some device \<Rightarrow>
        (case d_owner_id device of
           None \<Rightarrow> Inr FirstPair
         | Some owner \<Rightarrow>
             if owner = u_id user then Inr AlreadyOwned
             else Inl (Forbidden ''device already paired'')))"

definition claim_commit :: "user \<Rightarrow> string \<Rightarrow> app_state \<Rightarrow> app_state \<times> claim_outcome res" where
  "claim_commit user dongle st =
     (let st1 = set_owner (u_id user) dongle (\<lambda>d. d_owner_id d = None) st
      in case insert_share (u_id user) dongle (Some (now_millis st)) st1 of
           Inl e \<Rightarrow> (st1, Inl e)
         | Inr st2 \<Rightarrow> (st2, Inr FirstPair))"

definition claim_device :: "app_state \<Rightarrow> user \<Rightarrow> string \<Rightarrow> app_state \<times> claim_outcome res" where
  "claim_device st user dongle =
     (case claim_check st user dongle of
        Inl e \<Rightarrow> (st, Inl e)
      | Inr AlreadyOwned \<Rightarrow> (st, Inr AlreadyOwned)
      | Inr FirstPair \<Rightarrow> claim_commit user dongle st)"

text \<open>\<open>ORDER BY created_at DESC\<close>.\<close>

definition unpaired_devices :: "app_state \<Rightarrow> device list" where
  "unpaired_devices st = sort_key (\<lambda>d. - d_created_at d) (filter (\<lambda>d. d_owner_id d = None) (devices st))"

section \<open>Athena: connections and liveness\<close>

definition ping_interval_secs :: int where "ping_interval_secs = 10"
definition offline_after_secs :: int where "offline_after_secs = 30"

text \<open>\<open>ConnectionManager\<close>: a set of connected dongles and a set of dongles being synced.\<close>

definition connected :: "string \<Rightarrow> app_state \<Rightarrow> app_state" where
  "connected dongle st = st\<lparr>connections := List.insert dongle (connections st)\<rparr>"

definition disconnected :: "string \<Rightarrow> app_state \<Rightarrow> app_state" where
  "disconnected dongle st = st\<lparr>connections := removeAll dongle (connections st)\<rparr>"

definition is_connected :: "app_state \<Rightarrow> string \<Rightarrow> bool" where
  "is_connected st dongle = (dongle \<in> set (connections st))"

definition try_begin_sync :: "string \<Rightarrow> app_state \<Rightarrow> app_state \<times> bool" where
  "try_begin_sync dongle st =
     (if dongle \<in> set (syncing st) then (st, False)
      else (st\<lparr>syncing := dongle # syncing st\<rparr>, True))"

definition end_sync :: "string \<Rightarrow> app_state \<Rightarrow> app_state" where
  "end_sync dongle st = st\<lparr>syncing := removeAll dongle (syncing st)\<rparr>"

text \<open>\<open>client_addr\<close>: the first entry of \<open>X-Forwarded-For\<close>.\<close>

definition client_addr :: "string option \<Rightarrow> string option" where
  "client_addr xff =
     (case xff of
        None \<Rightarrow> None
      | Some v \<Rightarrow> (let ip = trim (hd (split_on (CHR '','') v)) in if ip = [] then None else Some ip))"

definition ws_handler :: "app_state \<Rightarrow> string \<Rightarrow> string option \<Rightarrow> auth \<Rightarrow> app_state \<times> unit res" where
  "ws_handler st dongle xff auth =
     (case a_device auth of
        None \<Rightarrow> (st, Inl (Unauthorized ''device token required''))
      | Some device \<Rightarrow>
        (if d_dongle_id device \<noteq> dongle \<or> cl_identity (a_claims auth) \<noteq> dongle
         then (st, Inl (Forbidden ''token does not match dongle''))
         else
           (case client_addr xff of
              Some addr \<Rightarrow>
                st\<lparr>devices := tbl_update (\<lambda>d. d_dongle_id d = dongle)
                                (\<lambda>d. d\<lparr>d_last_addr := addr\<rparr>) (devices st)\<rparr>
            | None \<Rightarrow> st, Inr ())))"

definition touch_ping :: "string \<Rightarrow> app_state \<Rightarrow> app_state" where
  "touch_ping dongle st =
     st\<lparr>devices := tbl_update (\<lambda>d. d_dongle_id d = dongle)
          (\<lambda>d. d\<lparr>d_last_athena_ping := now_secs st, d_online := 1\<rparr>) (devices st)\<rparr>"

definition mark_online :: "string \<Rightarrow> bool \<Rightarrow> app_state \<Rightarrow> app_state" where
  "mark_online dongle online st =
     st\<lparr>devices := tbl_update (\<lambda>d. d_dongle_id d = dongle)
          (\<lambda>d. d\<lparr>d_online := (if online then 1 else 0), d_last_athena_ping := now_secs st\<rparr>)
          (devices st)\<rparr>"

text \<open>One sweep of \<open>spawn_reaper\<close>.\<close>

definition reap :: "app_state \<Rightarrow> app_state" where
  "reap st =
     st\<lparr>devices := tbl_update
          (\<lambda>d. d_online d = 1 \<and> d_last_athena_ping d < now_secs st - offline_after_secs)
          (\<lambda>d. d\<lparr>d_online := 0\<rparr>) (devices st)\<rparr>"

text \<open>
  \<open>handle_socket\<close> as events. A socket is its dongle and the time its last frame arrived; opening
  and closing one are the code before and after the two tasks, a frame is one turn of the
  receive task, and \<open>ping_hangs_up\<close> is the ping task's check (the send itself succeeded).
\<close>

record socket =
  so_id :: nat
  so_dongle :: string
  so_last_seen :: int

definition ping_hangs_up :: "app_state \<Rightarrow> socket \<Rightarrow> bool" where
  "ping_hangs_up st so = (now_secs st - so_last_seen so > offline_after_secs)"

datatype socket_event = Open nat string | Frame nat | Hangup nat | Reap | Wait nat

fun socket_step :: "socket_event \<Rightarrow> app_state \<times> socket list \<Rightarrow> app_state \<times> socket list" where
  "socket_step (Open i g) (st, ss) =
     (if i \<in> so_id ` set ss then (st, ss)
      else (mark_online g True (connected g st),
            \<lparr>so_id = i, so_dongle = g, so_last_seen = now_secs st\<rparr> # ss))"
| "socket_step (Frame i) (st, ss) =
     (case find (\<lambda>so. so_id so = i) ss of
        None \<Rightarrow> (st, ss)
      | Some so \<Rightarrow>
          (touch_ping (so_dongle so) st,
           map (\<lambda>x. if so_id x = i then x\<lparr>so_last_seen := now_secs st\<rparr> else x) ss))"
| "socket_step (Hangup i) (st, ss) =
     (case find (\<lambda>so. so_id so = i) ss of
        None \<Rightarrow> (st, ss)
      | Some so \<Rightarrow>
          (mark_online (so_dongle so) False (disconnected (so_dongle so) st),
           filter (\<lambda>x. so_id x \<noteq> i) ss))"
| "socket_step Reap (st, ss) = (reap st, ss)"
| "socket_step (Wait ms) (st, ss) = (st\<lparr>now_millis := now_millis st + int ms\<rparr>, ss)"

definition socket_run :: "socket_event list \<Rightarrow> app_state \<times> socket list \<Rightarrow> app_state \<times> socket list" where
  "socket_run es s = fold socket_step es s"

end
