(* ===== verification/SyncQueue.thy ===== *)
theory SyncQueue
  imports Models
begin

text \<open>
  \<^verbatim>\<open>src/sync_queue.rs\<close>: the in-memory queue between the scans that find missing files
  and the workers that fetch them. Every operation runs under the queue's mutex, so an operation
  is one atomic step; \<open>next\<close> on an empty queue waits, which is the value \<open>None\<close> here. A
  \<open>HashMap\<close> is an association list without duplicate keys; its iteration order is not
  observable in the properties.
\<close>

section \<open>Operations\<close>

definition queue_has :: "sync_queue \<Rightarrow> string \<Rightarrow> bool" where
  "queue_has s k = (k \<in> set (sq_pending_keys s) \<or> k \<in> fst ` set (sq_active s))"

definition enqueue_one :: "queue_item \<Rightarrow> sync_queue \<times> nat \<Rightarrow> sync_queue \<times> nat" where
  "enqueue_one it sn =
     (let (s, added) = sn
      in if queue_has s (q_key it) then (s, added)
         else (s\<lparr>sq_pending_keys := q_key it # sq_pending_keys s,
                 sq_pending := sq_pending s @ [it]\<rparr>, added + 1))"

definition enqueue :: "queue_item list \<Rightarrow> sync_queue \<Rightarrow> sync_queue \<times> nat" where
  "enqueue items s = fold enqueue_one items (s, 0)"

definition next_item :: "sync_queue \<Rightarrow> (queue_item \<times> sync_queue) option" where
  "next_item s =
     (case sq_pending s of
        [] \<Rightarrow> None
      | it # rest \<Rightarrow>
          Some (it, s\<lparr>sq_pending := rest,
                      sq_pending_keys := removeAll (q_key it) (sq_pending_keys s),
                      sq_active := (q_key it, q_ts it, q_file it) #
                        filter (\<lambda>e. fst e \<noteq> q_key it) (sq_active s)\<rparr>))"

definition done_item :: "string \<Rightarrow> sync_queue \<Rightarrow> sync_queue" where
  "done_item k s = s\<lparr>sq_active := filter (\<lambda>e. fst e \<noteq> k) (sq_active s)\<rparr>"

definition queue_stats :: "sync_queue \<Rightarrow> nat \<times> nat" where
  "queue_stats s =
     (card (set (map q_ts (sq_pending s)) \<union> set (map (fst \<circ> snd) (sq_active s))),
      length (sq_pending s) + length (sq_active s))"

definition queue_detail :: "sync_queue \<Rightarrow> (string \<times> string \<times> bool) list" where
  "queue_detail s =
     map (\<lambda>(_, ts, file). (ts, file, True)) (sq_active s) @
     map (\<lambda>it. (q_ts it, q_file it, False)) (sq_pending s)"

section \<open>What the workers rely on\<close>

text \<open>
  A deduplicating work queue: \<open>waiting\<close> are the items not yet taken, \<open>running\<close> the keys
  taken and not finished. Adding keeps the order and adds exactly the new keys, taking moves the
  head to \<open>running\<close>, finishing forgets a key.
\<close>

locale work_queue =
  fixes put :: "'i list \<Rightarrow> 'q \<Rightarrow> 'q \<times> nat"
    and take_next :: "'q \<Rightarrow> ('i \<times> 'q) option"
    and finish :: "'k \<Rightarrow> 'q \<Rightarrow> 'q"
    and key :: "'i \<Rightarrow> 'k"
    and waiting :: "'q \<Rightarrow> 'i list"
    and running :: "'q \<Rightarrow> 'k set"
    and ok :: "'q \<Rightarrow> bool"
  assumes ok_disjoint: "ok q \<Longrightarrow> i \<in> set (waiting q) \<Longrightarrow> key i \<notin> running q"
    and ok_distinct: "ok q \<Longrightarrow> distinct (map key (waiting q))"
    and put_ok: "ok q \<Longrightarrow> ok (fst (put xs q))"
    and put_running: "running (fst (put xs q)) = running q"
    and put_waiting: "ok q \<Longrightarrow> \<exists>new. waiting (fst (put xs q)) = waiting q @ new \<and> set new \<subseteq> set xs \<and>
        snd (put xs q) = length new \<and>
        key ` set new = key ` set xs - key ` set (waiting q) - running q"
    and take_empty: "waiting q = [] \<Longrightarrow> take_next q = None"
    and take_head: "ok q \<Longrightarrow> waiting q = i # r \<Longrightarrow>
        \<exists>q'. take_next q = Some (i, q') \<and> ok q' \<and> waiting q' = r \<and> running q' = insert (key i) (running q)"
    and finish_ok: "ok q \<Longrightarrow> ok (finish k q)"
    and finish_waiting: "waiting (finish k q) = waiting q"
    and finish_running: "running (finish k q) = running q - {k}"
begin

text \<open>Between the queue and its workers: the keys the workers hold are the running ones, once each.\<close>

definition crew_ok :: "'q \<Rightarrow> 'k list \<Rightarrow> bool" where
  "crew_ok q held \<longleftrightarrow> ok q \<and> distinct held \<and> set held = running q"

lemma crew_put: "crew_ok q held \<Longrightarrow> crew_ok (fst (put xs q)) held"
  by (simp add: crew_ok_def put_ok put_running)

lemma crew_take:
  assumes "crew_ok q held" and "take_next q = Some (i, q')"
  shows "crew_ok q' (key i # held)" and "key i \<notin> set held"
proof -
  from assms(2) take_empty obtain j r where w: "waiting q = j # r"
    by (cases "waiting q") auto
  with assms take_head[of q j r] have i: "j = i" "ok q'" "running q' = insert (key i) (running q)"
    by (auto simp: crew_ok_def)
  with w assms(1) have n: "key i \<notin> running q" using ok_disjoint[of q i] by (auto simp: crew_ok_def)
  then show "crew_ok q' (key i # held)" "key i \<notin> set held"
    using i assms(1) by (auto simp: crew_ok_def)
qed

lemma crew_finish: "crew_ok q held \<Longrightarrow> crew_ok (finish k q) (removeAll k held)"
  by (auto simp: crew_ok_def finish_ok finish_running distinct_removeAll)

text \<open>Nothing offered is lost: every key offered is afterwards waiting or running.\<close>

lemma put_covers: "ok q \<Longrightarrow> key ` set xs \<subseteq> key ` set (waiting (fst (put xs q))) \<union> running q"
proof -
  assume "ok q"
  then obtain new where "waiting (fst (put xs q)) = waiting q @ new"
      "key ` set new = key ` set xs - key ` set (waiting q) - running q"
    using put_waiting by blast
  then show ?thesis by (auto simp: image_Un)
qed

text \<open>Offering the same items again changes nothing.\<close>

lemma put_again:
  assumes "ok q" shows "snd (put xs (fst (put xs q))) = 0"
proof -
  have q1: "ok (fst (put xs q))" using assms by (rule put_ok)
  then obtain new where n: "snd (put xs (fst (put xs q))) = length new"
      "key ` set new = key ` set xs - key ` set (waiting (fst (put xs q))) - running (fst (put xs q))"
    using put_waiting[OF q1, of xs] by blast
  moreover have "key ` set new = {}"
    using put_covers[OF assms, of xs] n(2) put_running by auto
  ultimately show ?thesis by simp
qed

text \<open>Items are taken in the order they came.\<close>

lemma take_order:
  "crew_ok q held \<Longrightarrow> take_next q = Some (i, q') \<Longrightarrow> waiting q = i # waiting q'"
  using take_empty take_head by (cases "waiting q") (fastforce simp: crew_ok_def)+

end

section \<open>The queue keeps the contract\<close>

definition queue_ok :: "sync_queue \<Rightarrow> bool" where
  "queue_ok s \<longleftrightarrow>
     distinct (map q_key (sq_pending s)) \<and> set (sq_pending_keys s) = q_key ` set (sq_pending s) \<and>
     distinct (map fst (sq_active s)) \<and> q_key ` set (sq_pending s) \<inter> fst ` set (sq_active s) = {}"

definition active_keys :: "sync_queue \<Rightarrow> string set" where
  "active_keys s = fst ` set (sq_active s)"

lemma enqueue_one_ok: "queue_ok s \<Longrightarrow> queue_ok (fst (enqueue_one it (s, n)))"
  by (auto simp: enqueue_one_def queue_has_def queue_ok_def)

lemma enqueue_fold:
  assumes "queue_ok s"
  shows "\<exists>new s'. fold enqueue_one xs (s, n) = (s', n + length new) \<and> queue_ok s' \<and>
    sq_pending s' = sq_pending s @ new \<and> sq_active s' = sq_active s \<and> set new \<subseteq> set xs \<and>
    q_key ` set new = q_key ` set xs - q_key ` set (sq_pending s) - active_keys s"
  using assms
proof (induction xs arbitrary: s n)
  case (Cons x xs)
  show ?case
  proof (cases "queue_has s (q_key x)")
    case True
    then have "fold enqueue_one (x # xs) (s, n) = fold enqueue_one xs (s, n)"
      by (simp add: enqueue_one_def)
    moreover have "q_key x \<in> q_key ` set (sq_pending s) \<union> active_keys s"
      using True Cons.prems by (auto simp: queue_has_def queue_ok_def active_keys_def)
    ultimately show ?thesis using Cons.IH[OF Cons.prems, of n] by force
  next
    case False
    let ?s = "s\<lparr>sq_pending_keys := q_key x # sq_pending_keys s, sq_pending := sq_pending s @ [x]\<rparr>"
    have step: "enqueue_one x (s, n) = (?s, n + 1)" using False by (simp add: enqueue_one_def)
    then have "queue_ok ?s" using enqueue_one_ok[OF Cons.prems, of x n] by simp
    from Cons.IH[OF this, of "n + 1"] obtain new s' where IH:
      "fold enqueue_one xs (?s, n + 1) = (s', n + 1 + length new)" "queue_ok s'"
      "sq_pending s' = sq_pending s @ [x] @ new" "sq_active s' = sq_active s" "set new \<subseteq> set xs"
      "q_key ` set new = q_key ` set xs - q_key ` set (sq_pending s @ [x]) - active_keys s"
      by (auto simp: active_keys_def)
    moreover have "q_key x \<notin> q_key ` set (sq_pending s)" "q_key x \<notin> active_keys s"
      using False Cons.prems by (auto simp: queue_has_def queue_ok_def active_keys_def)
    ultimately show ?thesis
      using step by (intro exI[of _ "x # new"] exI[of _ s']) auto
  qed
qed (simp add: active_keys_def)

lemma next_item_cases:
  "next_item s = Some (it, s') \<longleftrightarrow>
    (\<exists>rest. sq_pending s = it # rest \<and>
      s' = s\<lparr>sq_pending := rest, sq_pending_keys := removeAll (q_key it) (sq_pending_keys s),
             sq_active := (q_key it, q_ts it, q_file it) #
               filter (\<lambda>e. fst e \<noteq> q_key it) (sq_active s)\<rparr>)"
  by (auto simp: next_item_def split: list.splits)

interpretation sq: work_queue enqueue next_item done_item q_key sq_pending active_keys queue_ok
proof
  fix s xs
  show "active_keys (fst (enqueue xs s)) = active_keys s"
  proof -
    have "sq_active (fst (fold enqueue_one xs (t, n))) = sq_active t" for t n
      by (induction xs arbitrary: t n) (auto simp: enqueue_one_def)
    then show ?thesis by (simp add: enqueue_def active_keys_def)
  qed
next
  fix s xs assume ok: "queue_ok s"
  from enqueue_fold[OF ok, of xs 0] obtain new s' where
    "fold enqueue_one xs (s, 0) = (s', length new)" "queue_ok s'"
    "sq_pending s' = sq_pending s @ new" "set new \<subseteq> set xs"
    "q_key ` set new = q_key ` set xs - q_key ` set (sq_pending s) - active_keys s" by auto
  then show "queue_ok (fst (enqueue xs s))"
    and "\<exists>new. sq_pending (fst (enqueue xs s)) = sq_pending s @ new \<and> set new \<subseteq> set xs \<and>
      snd (enqueue xs s) = length new \<and>
      q_key ` set new = q_key ` set xs - q_key ` set (sq_pending s) - active_keys s"
    by (auto simp: enqueue_def)
next
  fix s i r assume "queue_ok s" "sq_pending s = i # r"
  then show "\<exists>s'. next_item s = Some (i, s') \<and> queue_ok s' \<and> sq_pending s' = r \<and>
      active_keys s' = insert (q_key i) (active_keys s)"
    by (auto simp: next_item_def queue_ok_def active_keys_def distinct_map_filter)
qed (auto simp: next_item_def done_item_def queue_ok_def active_keys_def distinct_map_filter)

lemma queue_stats_files:
  "queue_ok s \<Longrightarrow> snd (queue_stats s) = card (q_key ` set (sq_pending s) \<union> active_keys s)"
proof -
  assume ok: "queue_ok s"
  have "card (q_key ` set (sq_pending s)) = length (sq_pending s)"
    using ok distinct_card[of "map q_key (sq_pending s)"] by (simp add: queue_ok_def)
  moreover have "card (active_keys s) = length (sq_active s)"
    using ok distinct_card[of "map fst (sq_active s)"] by (simp add: queue_ok_def active_keys_def)
  ultimately show ?thesis
    using ok by (subst card_Un_disjoint) (auto simp: queue_stats_def queue_ok_def active_keys_def)
qed

lemma queue_detail_length: "length (queue_detail s) = snd (queue_stats s)"
  by (simp add: queue_detail_def queue_stats_def)

section \<open>Interleavings\<close>

text \<open>
  Any number of producers and workers on one queue, in any order. The second component lists the
  items the workers hold between \<open>next\<close> and \<open>done\<close>.
\<close>

inductive queue_step :: "sync_queue \<times> queue_item list \<Rightarrow> sync_queue \<times> queue_item list \<Rightarrow> bool" where
  produce: "queue_step (s, held) (fst (enqueue items s), held)"
| take: "next_item s = Some (it, s') \<Longrightarrow> queue_step (s, held) (s', it # held)"
| finish: "it \<in> set held \<Longrightarrow>
    queue_step (s, held) (done_item (q_key it) s, filter (\<lambda>x. q_key x \<noteq> q_key it) held)"

inductive_cases queue_stepE: "queue_step (s, held) (s', held')"

definition empty_queue :: sync_queue where
  "empty_queue = \<lparr>sq_pending = [], sq_pending_keys = [], sq_active = []\<rparr>"

lemma queue_step_crew:
  assumes "queue_step (s, held) (s', held')" and "sq.crew_ok s (map q_key held)"
  shows "sq.crew_ok s' (map q_key held')"
  using assms(1)
proof (rule queue_stepE)
  fix items assume "s' = fst (enqueue items s)" "held' = held"
  then show ?thesis using assms(2) by (simp add: sq.crew_put)
next
  fix it assume "held' = it # held" "next_item s = Some (it, s')"
  then show ?thesis using sq.crew_take(1)[OF assms(2)] by simp
next
  fix it assume finish: "s' = done_item (q_key it) s" "held' = filter (\<lambda>x. q_key x \<noteq> q_key it) held"
  have "map q_key (filter (\<lambda>x. q_key x \<noteq> q_key it) held) = removeAll (q_key it) (map q_key held)"
    by (induction held) auto
  then show ?thesis using finish sq.crew_finish[OF assms(2)] by simp
qed

lemma empty_crew: "sq.crew_ok empty_queue []"
  by (simp add: sq.crew_ok_def queue_ok_def active_keys_def empty_queue_def)

lemma queue_reach_crew:
  assumes "queue_step\<^sup>*\<^sup>* (empty_queue, []) c"
  shows "sq.crew_ok (fst c) (map q_key (snd c))"
  using assms
proof (induction rule: rtranclp_induct)
  case (step y z)
  then show ?case using queue_step_crew[of "fst y" "snd y" "fst z" "snd z"] by simp
qed (simp add: empty_crew)

text \<open>
  C4: whatever the interleaving of scans and workers, no two workers ever hold the same file, a
  file being processed is not waiting in the queue, no file waits twice, and the file counter of
  the user interface is the number of distinct files waiting or in process.
\<close>

theorem sync_queue_exclusive:
  assumes "queue_step\<^sup>*\<^sup>* (empty_queue, []) (s, held)"
  shows "distinct (map q_key held) \<and> distinct (map q_key (sq_pending s)) \<and>
    q_key ` set held \<inter> q_key ` set (sq_pending s) = {} \<and>
    snd (queue_stats s) = card (q_key ` set (sq_pending s) \<union> q_key ` set held)"
proof -
  have crew: "sq.crew_ok s (map q_key held)" using queue_reach_crew[OF assms] by simp
  then have "q_key ` set held = active_keys s" "queue_ok s" by (simp_all add: sq.crew_ok_def)
  with crew queue_stats_files[of s] show ?thesis
    by (auto simp: sq.crew_ok_def dest: sq.ok_distinct sq.ok_disjoint)
qed

definition demo_item :: "string \<Rightarrow> string \<Rightarrow> queue_item" where
  "demo_item ts file =
     \<lparr>q_dongle = ''d'', q_addr = ''a'', q_ts = ts, q_seg = 0, q_file = file, q_key = ts @ ''-'' @ file\<rparr>"

theorem sync_queue_exclusive_witness:
  "snd (queue_stats (fst (enqueue [demo_item ''r1'' ''q'', demo_item ''r1'' ''q''] empty_queue))) = 1"
proof -
  let ?s = "fst (enqueue [demo_item ''r1'' ''q'', demo_item ''r1'' ''q''] empty_queue)"
  have "queue_step\<^sup>*\<^sup>* (empty_queue, []) (?s, [])"
    using queue_step.produce by (rule r_into_rtranclp)
  from sync_queue_exclusive[OF this]
  have "snd (queue_stats ?s) = card (q_key ` set (sq_pending ?s))" by simp
  also have "... = 1"
    by (simp add: enqueue_def enqueue_one_def queue_has_def empty_queue_def demo_item_def)
  finally show ?thesis .
qed

end
