(* ===== verification/Telemetry.thy ===== *)
theory Telemetry
  imports Models
begin

text \<open>
  The pure half of \<^verbatim>\<open>src/parse.rs\<close>: folding a segment's log messages into an
  accumulator, the state timeline, and the driving statistics of the telemetry series. A decoded
  Cap'n Proto message is a \<open>log_event\<close> with the fields the code reads (the reader is generated
  at build time); a getter that can fail is an option. \<open>libm\<close> holds the transcendental functions
  of the haversine formula.
\<close>

section \<open>Samples\<close>

record coord =
  co_t :: f64
  co_lat :: f64
  co_lng :: f64
  co_speed :: f64
  co_dist :: f64

record telem =
  te_t :: f64
  te_speed :: f64
  te_gear :: string
  te_lb :: bool
  te_rb :: bool
  te_brake :: bool
  te_gas :: bool
  te_steer :: f64
  te_steer_override :: bool
  te_engaged :: bool
  te_lat :: bool
  te_long :: bool
  te_cruise :: bool
  te_soc :: f64
  te_charging :: bool
  te_dm_aware :: f64
  te_dm_distracted :: bool
  te_dm_face :: bool

text \<open>\<open>DriveEvent\<close>: its kind is always \<open>state\<close>, so its data is that JSON object.\<close>

record drive_event =
  de_time :: int
  de_offset :: int
  de_enabled :: bool
  de_lat :: bool
  de_long :: bool
  de_alert :: int
  de_end :: "int option"

record seg_stats =
  ss_engaged_m :: f64
  ss_telem_m :: f64
  ss_engaged_s :: f64
  ss_drive_s :: f64
  ss_max_speed :: f64
  ss_disengage :: int
  ss_hard_brake :: int
  ss_hard_accel :: int

definition mph_to_ms :: f64 where "mph_to_ms = rnd (44704 / 100000)"
definition hard_brake_ms2 :: f64 where "hard_brake_ms2 = Fin (- 3)"
definition hard_accel_ms2 :: f64 where "hard_accel_ms2 = Fin (5 / 2)"

section \<open>Driving statistics\<close>

text \<open>The loop state of \<open>telemetry_stats\<close>.\<close>

record stats_state =
  st_s :: seg_stats
  st_prev_v :: "f64 option"
  st_in_brake :: bool
  st_in_accel :: bool

definition stats_init :: stats_state where
  "stats_init =
     \<lparr>st_s = \<lparr>ss_engaged_m = f_zero, ss_telem_m = f_zero, ss_engaged_s = f_zero,
              ss_drive_s = f_zero, ss_max_speed = f_zero, ss_disengage = 0, ss_hard_brake = 0,
              ss_hard_accel = 0\<rparr>,
      st_prev_v = None, st_in_brake = False, st_in_accel = False\<rparr>"

definition v_ms_of :: "telem \<Rightarrow> f64" where
  "v_ms_of x = f_mul (te_speed x) mph_to_ms"

definition accel_step :: "f64 \<Rightarrow> stats_state \<Rightarrow> stats_state" where
  "accel_step a st =
     (let s = st_s st;
          brake = f_le a hard_brake_ms2;
          accel = f_ge a hard_accel_ms2;
          s1 = (if brake \<and> \<not> st_in_brake st then s\<lparr>ss_hard_brake := ss_hard_brake s + 1\<rparr> else s);
          s2 = (if accel \<and> \<not> st_in_accel st then s1\<lparr>ss_hard_accel := ss_hard_accel s1 + 1\<rparr> else s1)
      in st\<lparr>st_s := s2, st_in_brake := brake, st_in_accel := accel\<rparr>)"

definition interval_step :: "telem \<Rightarrow> telem \<Rightarrow> stats_state \<Rightarrow> stats_state" where
  "interval_step p x st =
     (let v_ms = v_ms_of x;
          dt = f_sub (te_t x) (te_t p)
      in if f_gt dt f_zero \<and> f_lt dt (Fin 2)
         then let dist = f_mul v_ms dt;
                  s = st_s st;
                  s1 = s\<lparr>ss_telem_m := f_add (ss_telem_m s) dist,
                         ss_drive_s := f_add (ss_drive_s s) dt\<rparr>;
                  s2 = (if te_engaged x
                        then s1\<lparr>ss_engaged_m := f_add (ss_engaged_m s1) dist,
                                ss_engaged_s := f_add (ss_engaged_s s1) dt\<rparr>
                        else s1);
                  st1 = st\<lparr>st_s := s2\<rparr>
              in (case st_prev_v st of
                    Some pv \<Rightarrow> accel_step (f_div (f_sub v_ms pv) dt) st1
                  | None \<Rightarrow> st1)
         else st)"

definition stats_step :: "telem option \<Rightarrow> telem \<Rightarrow> stats_state \<Rightarrow> stats_state" where
  "stats_step prev x st =
     (let s = st_s st;
          st0 = st\<lparr>st_s := s\<lparr>ss_max_speed := f_max (ss_max_speed s) (te_speed x)\<rparr>\<rparr>;
          st1 = (case prev of
                   None \<Rightarrow> st0
                 | Some p \<Rightarrow>
                     let st2 = interval_step p x st0; s2 = st_s st2
                     in if te_engaged p \<and> \<not> te_engaged x
                        then st2\<lparr>st_s := s2\<lparr>ss_disengage := ss_disengage s2 + 1\<rparr>\<rparr>
                        else st2)
      in st1\<lparr>st_prev_v := Some (v_ms_of x)\<rparr>)"

fun stats_loop :: "telem option \<Rightarrow> telem list \<Rightarrow> stats_state \<Rightarrow> stats_state" where
  "stats_loop prev [] st = st"
| "stats_loop prev (x # xs) st = stats_loop (Some x) xs (stats_step prev x st)"

definition telemetry_stats :: "telem list \<Rightarrow> seg_stats" where
  "telemetry_stats t = st_s (stats_loop None t stats_init)"

section \<open>Log messages\<close>

datatype gear_shifter =
    GUnknown | GPark | GDrive | GNeutral | GReverse | GSport | GLow | GBrake | GEco | GManumatic

fun gear_name :: "gear_shifter \<Rightarrow> string" where
  "gear_name GUnknown = ''unknown''"
| "gear_name GPark = ''park''"
| "gear_name GDrive = ''drive''"
| "gear_name GNeutral = ''neutral''"
| "gear_name GReverse = ''reverse''"
| "gear_name GSport = ''sport''"
| "gear_name GLow = ''low''"
| "gear_name GBrake = ''brake''"
| "gear_name GEco = ''eco''"
| "gear_name GManumatic = ''manumatic''"

datatype device_kind = DUnknown | DNeo | DChffrAndroid | DChffrIos | DTici | DPc | DTizi | DMici

fun device_type_name :: "device_kind \<Rightarrow> string" where
  "device_type_name DUnknown = ''unknown''"
| "device_type_name DNeo = ''neo''"
| "device_type_name DChffrAndroid = ''chffrAndroid''"
| "device_type_name DChffrIos = ''chffrIos''"
| "device_type_name DTici = ''tici''"
| "device_type_name DPc = ''pc''"
| "device_type_name DTizi = ''tizi''"
| "device_type_name DMici = ''mici''"

datatype alert_status = AlertNormal | AlertUserPrompt | AlertCritical

record gps_msg =
  gp_flags :: nat
  gp_has_fix :: bool
  gp_lat :: f64
  gp_lng :: f64
  gp_unix_millis :: int
  gp_speed :: f64

record device_msg =
  dm_max_temp :: f64
  dm_free :: f64
  dm_mem :: int

text \<open>Text fields: \<open>None\<close> when the getter fails, \<open>Some None\<close> when the text is not UTF-8.\<close>

record init_msg =
  im_branch :: "string option option"
  im_commit :: "string option option"
  im_remote :: "string option option"
  im_device :: "device_kind option"

text \<open>\<open>sd_alert_size_none\<close>: whether the alert size is \<open>AlertSize::None\<close>, when readable.\<close>

record selfdrive_msg =
  sd_enabled :: bool
  sd_engageable :: bool
  sd_alert_status :: "alert_status option"
  sd_alert_size_none :: "bool option"

record driver_msg =
  dr_active :: bool
  dr_face :: bool
  dr_distracted :: bool
  dr_aware :: f64

record car_msg =
  ca_v_ego :: f64
  ca_gear :: "gear_shifter option"
  ca_cruise :: "bool option"
  ca_lb :: bool
  ca_rb :: bool
  ca_brake :: bool
  ca_gas :: bool
  ca_steer :: f64
  ca_steer_pressed :: bool
  ca_fuel :: f64
  ca_charging :: bool

datatype log_event =
    GpsEvent gps_msg
  | DeviceState device_msg
  | CarParams "string option"
  | InitData init_msg
  | SelfdriveState selfdrive_msg
  | SelfdriveStateSP "bool option"
  | DriverMonitoring driver_msg
  | CarState car_msg
  | Can
  | Thumbnail "string option"
  | OtherEvent

section \<open>The accumulator\<close>

record libm =
  lm_sin :: "f64 \<Rightarrow> f64"
  lm_cos :: "f64 \<Rightarrow> f64"
  lm_sqrt :: "f64 \<Rightarrow> f64"
  lm_atan2 :: "f64 \<Rightarrow> f64 \<Rightarrow> f64"
  lm_to_radians :: "f64 \<Rightarrow> f64"

definition f_sq :: "f64 \<Rightarrow> f64" where "f_sq x = f_mul x x"

definition haversine_m :: "libm \<Rightarrow> f64 \<Rightarrow> f64 \<Rightarrow> f64 \<Rightarrow> f64 \<Rightarrow> f64" where
  "haversine_m m lat1 lon1 lat2 lon2 =
     (let r = Fin 6371000;
          p1 = lm_to_radians m lat1;
          p2 = lm_to_radians m lat2;
          dphi = lm_to_radians m (f_sub lat2 lat1);
          dlam = lm_to_radians m (f_sub lon2 lon1);
          a = f_add (f_sq (lm_sin m (f_div dphi (Fin 2))))
                (f_mul (f_mul (lm_cos m p1) (lm_cos m p2)) (f_sq (lm_sin m (f_div dlam (Fin 2)))))
      in f_mul (f_mul (Fin 2) r) (lm_atan2 m (lm_sqrt m a) (lm_sqrt m (f_sub (Fin 1) a))))"

record accum =
  ac_coords :: "coord list"
  ac_events :: "drive_event list"
  ac_telemetry :: "telem list"
  ac_last_telem_mono :: int
  ac_thumbnails :: "string list"
  ac_total_meters :: f64
  ac_first_gps :: "(f64 \<times> f64 \<times> int) option"
  ac_last_gps :: "(f64 \<times> f64 \<times> int) option"
  ac_route_base_mono :: "int option"
  ac_last_pt :: "(f64 \<times> f64) option"
  ac_car_fingerprint :: string
  ac_git_remote :: string
  ac_git_branch :: string
  ac_git_commit :: string
  ac_device_type :: string
  ac_has_can :: bool
  ac_has_gps :: bool
  ac_cur_engaged :: bool
  ac_cur_lat :: bool
  ac_cur_alert :: int
  ac_dm_active :: bool
  ac_dm_face :: bool
  ac_dm_distracted :: bool
  ac_dm_aware :: f64
  ac_seen_selfdrive :: bool
  ac_max_temp :: f64
  ac_min_free :: f64
  ac_max_mem :: int
  ac_has_health :: bool
  ac_last_state :: "(bool \<times> int) option"

definition accum_default :: accum where
  "accum_default =
     \<lparr>ac_coords = [], ac_events = [], ac_telemetry = [], ac_last_telem_mono = 0,
      ac_thumbnails = [], ac_total_meters = f_zero, ac_first_gps = None, ac_last_gps = None,
      ac_route_base_mono = None, ac_last_pt = None, ac_car_fingerprint = '''',
      ac_git_remote = '''', ac_git_branch = '''', ac_git_commit = '''', ac_device_type = '''',
      ac_has_can = False, ac_has_gps = False, ac_cur_engaged = False, ac_cur_lat = False,
      ac_cur_alert = 0, ac_dm_active = False, ac_dm_face = False, ac_dm_distracted = False,
      ac_dm_aware = f_zero, ac_seen_selfdrive = False, ac_max_temp = f_zero,
      ac_min_free = f_zero, ac_max_mem = 0, ac_has_health = False, ac_last_state = None\<rparr>"

definition set_last :: "('a \<Rightarrow> 'a) \<Rightarrow> 'a list \<Rightarrow> 'a list" where
  "set_last f xs = (if xs = [] then [] else butlast xs @ [f (last xs)])"

definition emit_state_change :: "accum \<Rightarrow> f64 \<Rightarrow> int \<Rightarrow> accum" where
  "emit_state_change acc t tm =
     (let engaged = (ac_cur_engaged acc \<or> ac_cur_lat acc);
          cur = (engaged, ac_cur_alert acc)
      in if ac_last_state acc = Some cur then acc
         else
           let off = f_to_i64 (f_mul t (Fin 1000));
               closed = set_last (\<lambda>e. e\<lparr>de_end := Some off\<rparr>) (ac_events acc);
               new = \<lparr>de_time = tm, de_offset = off, de_enabled = engaged,
                      de_lat = ac_cur_lat acc, de_long = ac_cur_engaged acc,
                      de_alert = ac_cur_alert acc, de_end = None\<rparr>
           in acc\<lparr>ac_events := closed @ [new], ac_last_state := Some cur\<rparr>)"

text \<open>\<open>f32\<close> multiplication: finite operands rounded to the 24 bit format.\<close>

fun f32_mul :: "f64 \<Rightarrow> f64 \<Rightarrow> f64" where
  "f32_mul (Fin a) (Fin b) = rnd32 (a * b)"
| "f32_mul a b = f_mul a b"

definition ms_to_mph32 :: f64 where "ms_to_mph32 = rnd32 (2236936 / 1000000)"

definition sat_sub :: "int \<Rightarrow> int \<Rightarrow> int" where "sat_sub a b = max 0 (a - b)"
definition sat_add_u64 :: "int \<Rightarrow> int \<Rightarrow> int" where "sat_add_u64 a b = min u64_max (a + b)"

definition on_gps :: "libm \<Rightarrow> f64 \<Rightarrow> gps_msg \<Rightarrow> accum \<Rightarrow> accum" where
  "on_gps m t gps acc =
     (if \<not> (gp_flags gps mod 2 = 1 \<or> gp_has_fix gps) then acc
      else
        let fix_pt = (gp_lat gps, gp_lng gps, gp_unix_millis gps);
            dist = (case ac_last_pt acc of
                      Some (plat, plng) \<Rightarrow> haversine_m m plat plng (gp_lat gps) (gp_lng gps)
                    | None \<Rightarrow> f_zero)
        in acc\<lparr>ac_has_gps := True,
               ac_first_gps := (case ac_first_gps acc of None \<Rightarrow> Some fix_pt | Some p \<Rightarrow> Some p),
               ac_last_gps := Some fix_pt,
               ac_total_meters := f_add (ac_total_meters acc) dist,
               ac_last_pt := Some (gp_lat gps, gp_lng gps),
               ac_coords := ac_coords acc @
                 [\<lparr>co_t = t, co_lat = gp_lat gps, co_lng = gp_lng gps, co_speed = gp_speed gps,
                   co_dist = dist\<rparr>]\<rparr>)"

definition on_device_state :: "device_msg \<Rightarrow> accum \<Rightarrow> accum" where
  "on_device_state ds acc =
     acc\<lparr>ac_max_temp :=
           (if f_gt (dm_max_temp ds) (ac_max_temp acc) then dm_max_temp ds else ac_max_temp acc),
         ac_min_free :=
           (if \<not> ac_has_health acc \<or> f_lt (dm_free ds) (ac_min_free acc) then dm_free ds
            else ac_min_free acc),
         ac_max_mem := (if dm_mem ds > ac_max_mem acc then dm_mem ds else ac_max_mem acc),
         ac_has_health := True\<rparr>"

definition text_or :: "string \<Rightarrow> string option option \<Rightarrow> string" where
  "text_or old v =
     (case v of None \<Rightarrow> old | Some None \<Rightarrow> '''' | Some (Some s) \<Rightarrow> s)"

definition on_init_data :: "init_msg \<Rightarrow> accum \<Rightarrow> accum" where
  "on_init_data i acc =
     acc\<lparr>ac_git_branch := text_or (ac_git_branch acc) (im_branch i),
         ac_git_commit := text_or (ac_git_commit acc) (im_commit i),
         ac_git_remote := text_or (ac_git_remote acc) (im_remote i),
         ac_device_type := (case im_device i of Some d \<Rightarrow> device_type_name d
                            | None \<Rightarrow> ac_device_type acc)\<rparr>"

definition alert_level :: "selfdrive_msg \<Rightarrow> int" where
  "alert_level ss =
     (let base = (case sd_alert_status ss of
                    Some AlertUserPrompt \<Rightarrow> 1 | Some AlertCritical \<Rightarrow> 2 | _ \<Rightarrow> (0::int))
      in if sd_alert_size_none ss = Some False \<and> \<not> sd_engageable ss then max base 1 else base)"

definition on_selfdrive :: "f64 \<Rightarrow> int \<Rightarrow> selfdrive_msg \<Rightarrow> accum \<Rightarrow> accum" where
  "on_selfdrive t tm ss acc =
     emit_state_change
       (acc\<lparr>ac_cur_engaged := sd_enabled ss, ac_seen_selfdrive := True,
            ac_cur_alert := alert_level ss\<rparr>) t tm"

definition on_car_state :: "f64 \<Rightarrow> int \<Rightarrow> car_msg \<Rightarrow> accum \<Rightarrow> accum" where
  "on_car_state t tm cs acc =
     (if ac_seen_selfdrive acc \<and> tm \<ge> sat_add_u64 (ac_last_telem_mono acc) 250000000
      then acc\<lparr>ac_last_telem_mono := tm,
               ac_telemetry := ac_telemetry acc @
                 [\<lparr>te_t = t, te_speed = f32_mul (ca_v_ego cs) ms_to_mph32,
                   te_gear = (case ca_gear cs of Some g \<Rightarrow> gear_name g | None \<Rightarrow> ''unknown''),
                   te_lb = ca_lb cs, te_rb = ca_rb cs, te_brake = ca_brake cs, te_gas = ca_gas cs,
                   te_steer = ca_steer cs, te_steer_override = ca_steer_pressed cs,
                   te_engaged = (ac_cur_engaged acc \<or> ac_cur_lat acc), te_lat = ac_cur_lat acc,
                   te_long = ac_cur_engaged acc, te_cruise = (ca_cruise cs = Some True),
                   te_soc = f32_mul (ca_fuel cs) (Fin 100), te_charging = ca_charging cs,
                   te_dm_aware = (if ac_dm_active acc then ac_dm_aware acc else Fin (- 1)),
                   te_dm_distracted = (ac_dm_active acc \<and> ac_dm_distracted acc),
                   te_dm_face = (ac_dm_active acc \<and> ac_dm_face acc)\<rparr>]\<rparr>
      else acc)"

definition accumulate :: "libm \<Rightarrow> log_event \<Rightarrow> int \<Rightarrow> accum \<Rightarrow> accum" where
  "accumulate m which tm acc0 =
     (let base = (case ac_route_base_mono acc0 of Some b \<Rightarrow> b | None \<Rightarrow> tm);
          acc = acc0\<lparr>ac_route_base_mono := Some base\<rparr>;
          t = f_div (f_of_int (sat_sub tm base)) (Fin 1000000000)
      in case which of
           GpsEvent gps \<Rightarrow> on_gps m t gps acc
         | DeviceState ds \<Rightarrow> on_device_state ds acc
         | CarParams fp \<Rightarrow> (case fp of Some s \<Rightarrow> acc\<lparr>ac_car_fingerprint := s\<rparr> | None \<Rightarrow> acc)
         | InitData i \<Rightarrow> on_init_data i acc
         | SelfdriveState ss \<Rightarrow> on_selfdrive t tm ss acc
         | SelfdriveStateSP active \<Rightarrow>
             (case active of
                Some b \<Rightarrow> emit_state_change (acc\<lparr>ac_cur_lat := b, ac_seen_selfdrive := True\<rparr>) t tm
              | None \<Rightarrow> acc)
         | DriverMonitoring d \<Rightarrow>
             acc\<lparr>ac_dm_active := dr_active d, ac_dm_face := dr_face d,
                 ac_dm_distracted := dr_distracted d, ac_dm_aware := dr_aware d\<rparr>
         | CarState cs \<Rightarrow> on_car_state t tm cs acc
         | Can \<Rightarrow> acc\<lparr>ac_has_can := True\<rparr>
         | Thumbnail b \<Rightarrow>
             (case b of Some x \<Rightarrow> acc\<lparr>ac_thumbnails := ac_thumbnails acc @ [x]\<rparr> | None \<Rightarrow> acc)
         | OtherEvent \<Rightarrow> acc)"

text \<open>The message loop of \<open>parse_and_store\<close>.\<close>

definition accumulate_all :: "libm \<Rightarrow> (int \<times> log_event) list \<Rightarrow> accum" where
  "accumulate_all m msgs = fold (\<lambda>(tm, e). accumulate m e tm) msgs accum_default"

section \<open>The statistics, said directly\<close>

text \<open>
  The intervals that count are the neighbouring samples less than two seconds apart. The
  reference sums over them, and counts a braking event where the deceleration threshold is
  crossed: the rising edges of a list of flags.
\<close>

definition interval_dt :: "telem \<times> telem \<Rightarrow> f64" where
  "interval_dt i = f_sub (te_t (snd i)) (te_t (fst i))"

definition interval_ok :: "telem \<times> telem \<Rightarrow> bool" where
  "interval_ok i = (f_gt (interval_dt i) f_zero \<and> f_lt (interval_dt i) (Fin 2))"

definition interval_dist :: "telem \<times> telem \<Rightarrow> f64" where
  "interval_dist i = f_mul (v_ms_of (snd i)) (interval_dt i)"

definition interval_acc :: "telem \<times> telem \<Rightarrow> f64" where
  "interval_acc i = f_div (f_sub (v_ms_of (snd i)) (v_ms_of (fst i))) (interval_dt i)"

definition pairs :: "'a list \<Rightarrow> ('a \<times> 'a) list" where
  "pairs xs = zip xs (tl xs)"

definition intervals :: "telem list \<Rightarrow> (telem \<times> telem) list" where
  "intervals ts = filter interval_ok (pairs ts)"

fun rises :: "bool \<Rightarrow> bool list \<Rightarrow> nat" where
  "rises prev [] = 0"
| "rises prev (b # bs) = (if b \<and> \<not> prev then 1 else 0) + rises b bs"

definition f_sum :: "f64 list \<Rightarrow> f64" where
  "f_sum xs = foldl f_add f_zero xs"

definition telemetry_spec :: "telem list \<Rightarrow> seg_stats" where
  "telemetry_spec ts =
     (let iv = intervals ts; eng = filter (\<lambda>i. te_engaged (snd i)) iv
      in \<lparr>ss_engaged_m = f_sum (map interval_dist eng), ss_telem_m = f_sum (map interval_dist iv),
          ss_engaged_s = f_sum (map interval_dt eng), ss_drive_s = f_sum (map interval_dt iv),
          ss_max_speed = foldl f_max f_zero (map te_speed ts),
          ss_disengage = int (length (filter (\<lambda>(p, x). te_engaged p \<and> \<not> te_engaged x) (pairs ts))),
          ss_hard_brake = int (rises False (map (\<lambda>i. f_le (interval_acc i) hard_brake_ms2) iv)),
          ss_hard_accel = int (rises False (map (\<lambda>i. f_ge (interval_acc i) hard_accel_ms2) iv))\<rparr>)"

lemma pairs_Cons: "pairs (p # x # xs) = (p, x) # pairs (x # xs)"
  by (simp add: pairs_def)

lemma intervals_Cons:
  "intervals (p # x # xs) = (if interval_ok (p, x) then (p, x) # intervals (x # xs) else intervals (x # xs))"
  by (simp add: intervals_def pairs_Cons)

text \<open>What the loop adds to a running state, from sample \<open>p\<close> on.\<close>

definition stats_from :: "telem \<Rightarrow> telem list \<Rightarrow> stats_state \<Rightarrow> seg_stats" where
  "stats_from p xs st =
     (let s = st_s st; iv = intervals (p # xs); eng = filter (\<lambda>i. te_engaged (snd i)) iv
      in \<lparr>ss_engaged_m = foldl f_add (ss_engaged_m s) (map interval_dist eng),
          ss_telem_m = foldl f_add (ss_telem_m s) (map interval_dist iv),
          ss_engaged_s = foldl f_add (ss_engaged_s s) (map interval_dt eng),
          ss_drive_s = foldl f_add (ss_drive_s s) (map interval_dt iv),
          ss_max_speed = foldl f_max (ss_max_speed s) (map te_speed xs),
          ss_disengage = ss_disengage s +
            int (length (filter (\<lambda>(p, x). te_engaged p \<and> \<not> te_engaged x) (pairs (p # xs)))),
          ss_hard_brake = ss_hard_brake s +
            int (rises (st_in_brake st) (map (\<lambda>i. f_le (interval_acc i) hard_brake_ms2) iv)),
          ss_hard_accel = ss_hard_accel s +
            int (rises (st_in_accel st) (map (\<lambda>i. f_ge (interval_acc i) hard_accel_ms2) iv))\<rparr>)"

lemma stats_loop_from:
  "st_prev_v st = Some (v_ms_of p) \<Longrightarrow> st_s (stats_loop (Some p) xs st) = stats_from p xs st"
proof (induction xs arbitrary: p st)
  case Nil
  show ?case by (simp add: stats_from_def intervals_def pairs_def Let_def)
next
  case (Cons x xs)
  let ?st = "stats_step (Some p) x st"
  have "st_prev_v ?st = Some (v_ms_of x)" by (simp add: stats_step_def Let_def)
  then have "st_s (stats_loop (Some p) (x # xs) st) = stats_from x xs ?st" using Cons.IH by simp
  also have "... = stats_from p (x # xs) st"
  proof (cases "interval_ok (p, x)")
    case True
    then show ?thesis using Cons.prems
      by (simp add: stats_from_def intervals_Cons pairs_Cons Let_def stats_step_def interval_step_def
          accel_step_def interval_ok_def interval_dt_def interval_dist_def interval_acc_def)
  next
    case False
    then have "\<not> (f_gt (f_sub (te_t x) (te_t p)) f_zero \<and> f_lt (f_sub (te_t x) (te_t p)) (Fin 2))"
      by (simp add: interval_ok_def interval_dt_def)
    then have "interval_step p x s = s" for s unfolding interval_step_def Let_def by (rule if_not_P)
    then show ?thesis using False
      by (simp add: stats_from_def intervals_Cons pairs_Cons Let_def stats_step_def)
  qed
  finally show ?case .
qed

lemma telemetry_stats_eq_spec: "telemetry_stats ts = telemetry_spec ts"
proof (cases ts)
  case Nil
  then show ?thesis
    by (simp add: telemetry_stats_def telemetry_spec_def stats_init_def intervals_def pairs_def
        f_sum_def Let_def)
next
  case (Cons p xs)
  have "st_prev_v (stats_step None p stats_init) = Some (v_ms_of p)"
    by (simp add: stats_step_def Let_def)
  from stats_loop_from[OF this, of xs] show ?thesis
    by (simp add: Cons telemetry_stats_def stats_from_def telemetry_spec_def stats_step_def
        stats_init_def f_sum_def Let_def)
qed

text \<open>
  C16: the single pass over the samples computes exactly the statistics its comments describe:
  distances and times summed over neighbouring samples less than two seconds apart, the engaged
  ones among them, the largest speed, the number of engaged-to-disengaged changes, and hard
  braking and acceleration counted once per sustained event (at its rising edge).
\<close>

theorem telemetry_stats_matches_spec: "telemetry_stats ts = telemetry_spec ts"
  by (rule telemetry_stats_eq_spec)

section \<open>Bounds\<close>

lemma f_lt_le_trans: "f_lt a b \<Longrightarrow> f_le b c \<Longrightarrow> f_lt a c"
  by (cases a; cases b; cases c) simp_all

lemma f_le_lt_trans: "f_le a b \<Longrightarrow> f_lt b c \<Longrightarrow> f_lt a c"
  by (cases a; cases b; cases c) simp_all

lemma f_mul_nonneg_pos:
  "f_le f_zero a \<Longrightarrow> f_gt b f_zero \<Longrightarrow> f_lt b (Fin c) \<Longrightarrow> f_le f_zero (f_mul a b)"
  by (rule f_mul_nonneg) (cases a; cases b; auto simp: f_sgn_inf_def)+

lemma rnd_pow2: "- 1022 \<le> e \<Longrightarrow> e \<le> 1023 \<Longrightarrow> rnd (pow2 e) = Fin (pow2 e)"
proof -
  assume e: "- 1022 \<le> e" "e \<le> 1023"
  have "grid 53 (- 1022) (pow2 e) = pow2 e"
    using grid_exact[of 53 "pow2 e" 1 e "- 1022"] e by simp
  moreover have "pow2 e < pow2 1024"
  proof -
    have "pow2 (e + 1) \<le> pow2 1024" using e by (intro pow2_mono) simp
    moreover have "pow2 (e + 1) = pow2 e * 2" using pow2_add[of e 1] by (simp add: pow2_def[of 1])
    ultimately show ?thesis using pow2_pos[of e] by linarith
  qed
  moreover have "- pow2 1024 < pow2 e" using pow2_pos[of e] pow2_pos[of 1024] by linarith
  ultimately show ?thesis by (simp add: rnd_def round_to_grid)
qed

lemma mph_to_ms_gt: "f_gt mph_to_ms f_zero" "f_lt mph_to_ms (Fin 2)"
proof -
  have "f_le (rnd (pow2 (- 2))) mph_to_ms" unfolding mph_to_ms_def by (rule rnd_mono) (simp add: pow2_def)
  moreover have "f_gt (rnd (pow2 (- 2))) f_zero" by (simp add: rnd_pow2)
  ultimately show "f_gt mph_to_ms f_zero" using f_lt_le_trans by blast
  have "f_le mph_to_ms (rnd (pow2 0))" unfolding mph_to_ms_def by (rule rnd_mono) (simp add: pow2_def)
  moreover have "f_lt (rnd (pow2 0)) (Fin 2)" by (simp add: rnd_pow2) (simp add: pow2_def)
  ultimately show "f_lt mph_to_ms (Fin 2)" by (rule f_le_lt_trans)
qed

lemma v_ms_nonneg: "f_le f_zero (te_speed x) \<Longrightarrow> f_le f_zero (v_ms_of x)"
  unfolding v_ms_of_def by (rule f_mul_nonneg_pos[OF _ mph_to_ms_gt])

lemma f_repr_sub [simp]: "f_repr (f_sub a b)"
proof -
  have "f_repr (f_add a (f_neg (Fin x)))" for x by (cases a) simp_all
  then show ?thesis unfolding f_sub_def by (cases b; cases a) auto
qed

lemma f_repr_mul [simp]: "f_repr (f_mul a b)"
  by (cases a; cases b) (auto simp: f_sgn_inf_def)

lemma pairs_set: "i \<in> set (pairs ts) \<Longrightarrow> fst i \<in> set ts \<and> snd i \<in> set ts"
proof -
  assume "i \<in> set (pairs ts)"
  then have "fst i \<in> set ts" "snd i \<in> set (tl ts)"
    unfolding pairs_def by (metis prod.collapse set_zip_leftD, metis prod.collapse set_zip_rightD)
  then show ?thesis by (meson list.set_sel(2) set_mono_suffix subsetD suffix_tl)
qed

lemma rises_le: "rises p bs \<le> length bs"
  by (induction bs arbitrary: p) (auto intro: le_SucI)

lemma foldl_max_ge:
  "a \<noteq> NaN \<Longrightarrow> list_all (\<lambda>x. x \<noteq> NaN) xs \<Longrightarrow> f_le a (foldl f_max a xs) \<and> (\<forall>x \<in> set xs. f_le x (foldl f_max a xs))"
proof (induction xs arbitrary: a)
  case (Cons x xs)
  then have m: "f_max a x \<noteq> NaN" "f_le a (f_max a x)" "f_le x (f_max a x)"
    using f_le_total[of a x] f_not_lt[of a x] by (auto simp: f_max_def f_le_refl f_lt_imp_le)
  with Cons.IH[of "f_max a x"] Cons.prems show ?case by (auto intro: f_le_trans)
qed (simp add: f_le_refl)

lemma telemetry_spec_bounds:
  assumes "list_all (\<lambda>x. f_le f_zero (te_speed x)) ts"
  defines "s \<equiv> telemetry_spec ts"
  shows "f_le f_zero (ss_engaged_m s) \<and> f_le (ss_engaged_m s) (ss_telem_m s)"
    and "f_le f_zero (ss_engaged_s s) \<and> f_le (ss_engaged_s s) (ss_drive_s s)"
    and "list_all (\<lambda>x. f_le (te_speed x) (ss_max_speed s)) ts"
    and "ss_hard_brake s \<le> int (length (intervals ts)) \<and> ss_hard_accel s \<le> int (length (intervals ts))"
proof -
  let ?iv = "intervals ts"
  have dt: "f_gt (interval_dt i) f_zero" "f_lt (interval_dt i) (Fin 2)" if "i \<in> set ?iv" for i
    using that by (auto simp: intervals_def interval_ok_def)
  have dist: "f_le f_zero (interval_dist i)" if "i \<in> set ?iv" for i
  proof -
    have "snd i \<in> set ts" using that pairs_set[of i ts] by (simp add: intervals_def)
    then have "f_le f_zero (v_ms_of (snd i))" using assms(1) by (auto simp: list_all_iff intro: v_ms_nonneg)
    then show ?thesis unfolding interval_dist_def using dt[OF that] by (rule f_mul_nonneg_pos)
  qed
  have repr: "f_repr (interval_dist i)" "f_repr (interval_dt i)" for i
    by (simp_all add: interval_dist_def interval_dt_def)
  have A: "list_all (\<lambda>i. f_le f_zero (interval_dist i)) ?iv" "list_all (\<lambda>i. f_le f_zero (interval_dt i)) ?iv"
    using dist dt f_lt_imp_le by (auto simp: list_all_iff)
  have B: "list_all (\<lambda>i. f_repr (interval_dist i)) ?iv" "list_all (\<lambda>i. f_repr (interval_dt i)) ?iv"
    using repr by (auto simp: list_all_iff)
  show "f_le f_zero (ss_engaged_m s) \<and> f_le (ss_engaged_m s) (ss_telem_m s)"
    using foldl_add_sub[OF A(1) _ _ _ B(1), of f_zero f_zero "\<lambda>i. te_engaged (snd i)"]
    by (simp add: s_def telemetry_spec_def f_sum_def Let_def)
  show "f_le f_zero (ss_engaged_s s) \<and> f_le (ss_engaged_s s) (ss_drive_s s)"
    using foldl_add_sub[OF A(2) _ _ _ B(2), of f_zero f_zero "\<lambda>i. te_engaged (snd i)"]
    by (simp add: s_def telemetry_spec_def f_sum_def Let_def)
  have "list_all (\<lambda>x. x \<noteq> NaN) (map te_speed ts)"
    using assms(1) f_le_not_nan by (auto simp: list_all_iff)
  then show "list_all (\<lambda>x. f_le (te_speed x) (ss_max_speed s)) ts"
    using foldl_max_ge[of f_zero "map te_speed ts"]
    by (simp add: s_def telemetry_spec_def list_all_iff Let_def)
  show "ss_hard_brake s \<le> int (length ?iv) \<and> ss_hard_accel s \<le> int (length ?iv)"
    using rises_le[of False "map _ ?iv"] by (simp add: s_def telemetry_spec_def Let_def)
qed

text \<open>
  C31: for a drive whose recorded speeds are not negative, the engaged distance and time of a
  segment never exceed its whole distance and time and neither is negative (so the engagement
  percentage is between 0 and 100), despite the rounding of every floating point addition; the
  recorded top speed bounds every sample; and there are no more hard braking or acceleration
  events than intervals.
\<close>

theorem engagement_never_exceeds_drive:
  assumes "list_all (\<lambda>x. f_le f_zero (te_speed x)) ts"
  shows "let s = telemetry_stats ts in
    f_le f_zero (ss_engaged_m s) \<and> f_le (ss_engaged_m s) (ss_telem_m s) \<and>
    f_le f_zero (ss_engaged_s s) \<and> f_le (ss_engaged_s s) (ss_drive_s s) \<and>
    list_all (\<lambda>x. f_le (te_speed x) (ss_max_speed s)) ts \<and>
    ss_hard_brake s \<le> int (length (intervals ts)) \<and> ss_hard_accel s \<le> int (length (intervals ts))"
  using telemetry_spec_bounds[OF assms] by (simp add: telemetry_stats_eq_spec Let_def)

definition demo_telem :: "f64 \<Rightarrow> f64 \<Rightarrow> bool \<Rightarrow> telem" where
  "demo_telem t v e =
     \<lparr>te_t = t, te_speed = v, te_gear = ''drive'', te_lb = False, te_rb = False, te_brake = False,
      te_gas = False, te_steer = f_zero, te_steer_override = False, te_engaged = e, te_lat = e,
      te_long = False, te_cruise = False, te_soc = f_zero, te_charging = False,
      te_dm_aware = f_zero, te_dm_distracted = False, te_dm_face = False\<rparr>"

theorem engagement_never_exceeds_drive_witness:
  "let s = telemetry_stats [demo_telem f_zero (Fin 32) True, demo_telem (Fin 1) (Fin 32) False] in
    f_le (ss_engaged_s s) (ss_drive_s s) \<and> f_le (Fin 32) (ss_max_speed s)"
  using engagement_never_exceeds_drive[of "[demo_telem f_zero (Fin 32) True, demo_telem (Fin 1) (Fin 32) False]"]
  by (simp add: demo_telem_def Let_def)

section \<open>The state timeline\<close>

fun timeline_ok :: "drive_event list \<Rightarrow> bool" where
  "timeline_ok [] = True"
| "timeline_ok [e] = (de_end e = None)"
| "timeline_ok (e # f # r) =
     (de_end e = Some (de_offset f) \<and> (de_enabled e, de_alert e) \<noteq> (de_enabled f, de_alert f) \<and>
      timeline_ok (f # r))"

text \<open>
  The accumulator's invariant: the timeline is contiguous, its last entry is the current state,
  and a telemetry sample is only taken while that state is known.
\<close>

definition cur_state :: "accum \<Rightarrow> bool \<times> int" where
  "cur_state acc = (ac_cur_engaged acc \<or> ac_cur_lat acc, ac_cur_alert acc)"

definition accum_inv :: "accum \<Rightarrow> bool" where
  "accum_inv acc \<longleftrightarrow>
     timeline_ok (ac_events acc) \<and>
     ac_last_state acc =
       (if ac_events acc = [] then None
        else Some (de_enabled (last (ac_events acc)), de_alert (last (ac_events acc)))) \<and>
     (\<forall>e \<in> set (ac_events acc). de_enabled e = (de_lat e \<or> de_long e) \<and> de_alert e \<in> {0, 1, 2}) \<and>
     (\<forall>x \<in> set (ac_telemetry acc). te_engaged x = (te_lat x \<or> te_long x)) \<and>
     (ac_seen_selfdrive acc \<longrightarrow> ac_last_state acc = Some (cur_state acc)) \<and>
     (\<not> ac_seen_selfdrive acc \<longrightarrow> ac_telemetry acc = []) \<and> ac_cur_alert acc \<in> {0, 1, 2}"

lemma timeline_snoc:
  "timeline_ok evs \<Longrightarrow>
   evs \<noteq> [] \<longrightarrow> (de_enabled (last evs), de_alert (last evs)) \<noteq> (de_enabled n, de_alert n) \<Longrightarrow>
   de_end n = None \<Longrightarrow> timeline_ok (set_last (\<lambda>e. e\<lparr>de_end := Some (de_offset n)\<rparr>) evs @ [n])"
proof (induction evs rule: timeline_ok.induct)
  case (3 e f r)
  then have "timeline_ok (set_last (\<lambda>e. e\<lparr>de_end := Some (de_offset n)\<rparr>) (f # r) @ [n])" by simp
  moreover obtain g gs where "set_last (\<lambda>e. e\<lparr>de_end := Some (de_offset n)\<rparr>) (f # r) @ [n] = g # gs"
    "de_offset g = de_offset f" "de_enabled g = de_enabled f" "de_alert g = de_alert f"
    by (cases r) (auto simp: set_last_def)
  ultimately show ?case using "3.prems" by (simp add: set_last_def)
qed (auto simp: set_last_def)

lemma set_last_fields:
  "e \<in> set (set_last (\<lambda>e. e\<lparr>de_end := x\<rparr>) evs) \<Longrightarrow>
    \<exists>d \<in> set evs. de_enabled e = de_enabled d \<and> de_lat e = de_lat d \<and> de_long e = de_long d \<and> de_alert e = de_alert d"
  by (auto simp: set_last_def split: if_splits dest: in_set_butlastD intro: bexI[of _ "last evs"])

text \<open>\<open>emit_state_change\<close> restores the invariant after the current state was overwritten.\<close>

lemma emit_state_change_inv:
  assumes inv: "accum_inv acc0" and alert: "ac_cur_alert acc \<in> {0, 1, 2}"
    and same: "ac_events acc = ac_events acc0" "ac_last_state acc = ac_last_state acc0"
      "ac_telemetry acc = ac_telemetry acc0" and seen: "ac_seen_selfdrive acc"
  shows "accum_inv (emit_state_change acc t tm)"
proof (cases "ac_last_state acc = Some (cur_state acc)")
  case True
  then have "emit_state_change acc t tm = acc"
    by (simp add: emit_state_change_def cur_state_def Let_def)
  then show ?thesis using inv alert same seen True by (simp add: accum_inv_def)
next
  case False
  define n where "n = \<lparr>de_time = tm, de_offset = f_to_i64 (f_mul t (Fin 1000)),
    de_enabled = fst (cur_state acc), de_lat = ac_cur_lat acc, de_long = ac_cur_engaged acc,
    de_alert = ac_cur_alert acc, de_end = None\<rparr>"
  have e: "emit_state_change acc t tm =
    acc\<lparr>ac_events := set_last (\<lambda>e. e\<lparr>de_end := Some (de_offset n)\<rparr>) (ac_events acc) @ [n],
        ac_last_state := Some (cur_state acc)\<rparr>"
    using False by (simp add: emit_state_change_def cur_state_def n_def Let_def)
  have "timeline_ok (set_last (\<lambda>e. e\<lparr>de_end := Some (de_offset n)\<rparr>) (ac_events acc) @ [n])"
    using inv False same by (intro timeline_snoc) (auto simp: accum_inv_def n_def cur_state_def)
  moreover have "\<forall>e \<in> set (ac_events acc). de_enabled e = (de_lat e \<or> de_long e) \<and> de_alert e \<in> {0, 1, 2}"
    using inv same by (simp add: accum_inv_def)
  then have "\<forall>e \<in> set (set_last (\<lambda>e. e\<lparr>de_end := Some (de_offset n)\<rparr>) (ac_events acc)).
      de_enabled e = (de_lat e \<or> de_long e) \<and> de_alert e \<in> {0, 1, 2}"
    using set_last_fields by metis
  ultimately show ?thesis
    unfolding e accum_inv_def using inv same seen alert
    by (auto simp: accum_inv_def cur_state_def n_def)
qed

lemma alert_level_range: "alert_level ss \<in> {0, 1, 2}"
  by (auto simp: alert_level_def Let_def max_def split: option.splits alert_status.splits)

lemma accum_inv_cong:
  assumes "accum_inv a" "ac_events b = ac_events a" "ac_last_state b = ac_last_state a"
    "ac_telemetry b = ac_telemetry a" "ac_seen_selfdrive b = ac_seen_selfdrive a"
    "ac_cur_alert b = ac_cur_alert a" "ac_cur_engaged b = ac_cur_engaged a" "ac_cur_lat b = ac_cur_lat a"
  shows "accum_inv b"
  using assms(1) unfolding accum_inv_def cur_state_def assms(2-8) .

lemma on_car_state_inv: "accum_inv acc \<Longrightarrow> accum_inv (on_car_state t tm cs acc)"
  by (auto simp: on_car_state_def accum_inv_def cur_state_def)

lemma accumulate_inv: "accum_inv acc \<Longrightarrow> accum_inv (accumulate m e tm acc)"
proof -
  assume inv: "accum_inv acc"
  define a where "a = acc\<lparr>ac_route_base_mono :=
    Some (case ac_route_base_mono acc of Some b \<Rightarrow> b | None \<Rightarrow> tm)\<rparr>"
  have a: "accum_inv a" using inv by (rule accum_inv_cong) (simp_all add: a_def)
  then have alert: "ac_cur_alert a \<in> {0, 1, 2}" by (simp add: accum_inv_def)
  define t where "t = f_div (f_of_int (sat_sub tm
    (case ac_route_base_mono acc of Some b \<Rightarrow> b | None \<Rightarrow> tm))) (Fin 1000000000)"
  show ?thesis
  proof (cases e)
    case (SelfdriveState ss)
    have "accum_inv (on_selfdrive t tm ss a)"
      unfolding on_selfdrive_def
      by (rule emit_state_change_inv[OF a]) (use alert_level_range[of ss] in simp_all)
    then show ?thesis by (simp add: SelfdriveState accumulate_def a_def t_def Let_def)
  next
    case (SelfdriveStateSP active)
    have "accum_inv (emit_state_change (a\<lparr>ac_cur_lat := b, ac_seen_selfdrive := True\<rparr>) t tm)" for b
      by (rule emit_state_change_inv[OF a]) (use alert in simp_all)
    then show ?thesis using a
      by (simp add: SelfdriveStateSP accumulate_def a_def t_def Let_def split: option.split)
  next
    case (CarState cs)
    have "accum_inv (on_car_state t tm cs a)" using a by (rule on_car_state_inv)
    then show ?thesis by (simp add: CarState accumulate_def a_def t_def Let_def)
  qed (use inv in \<open>auto simp: accumulate_def on_gps_def on_device_state_def on_init_data_def Let_def
      split: option.splits elim!: accum_inv_cong\<close>)
qed

text \<open>
  C30: whatever messages a log holds, the timeline the parser writes is contiguous: every state
  event ends where the next begins, neighbouring events differ in engagement or alert level, only
  the last one is open, and it shows the current state. Engagement is always lateral or
  longitudinal control, in the events and in the telemetry samples, and no sample is taken before
  the engagement state is known.
\<close>

theorem timeline_contiguous: "accum_inv (accumulate_all m msgs)"
proof -
  have "accum_inv (fold (\<lambda>(tm, e). accumulate m e tm) msgs acc)" if "accum_inv acc" for acc
    using that by (induction msgs arbitrary: acc) (auto intro: accumulate_inv)
  moreover have "accum_inv accum_default" by (simp add: accum_inv_def accum_default_def)
  ultimately show ?thesis by (simp add: accumulate_all_def)
qed

end
