(* ===== verification/Segments.thy ===== *)
theory Segments
  imports Telemetry Storage
begin

text \<open>
  The database half of \<^verbatim>\<open>src/parse.rs\<close>: decompressing an uploaded log, registering a
  segment file, storing what a parsed log yields, and recomputing a route's aggregate from its
  segment rows. The statements run one after the other, outside any transaction, so a failing
  one leaves the earlier writes in place: every operation returns the state and the outcome.
\<close>

section \<open>Decoding\<close>

text \<open>
  The decoders and encoders of other crates: the reads a decompressor yields, the Cap'n Proto
  messages of a decompressed log, JSON texts of the artifacts, and image operations.
\<close>

datatype read_result = ReadOk string | ReadErr

record rlog_xyz =
  rx_x :: "f64 list option"
  rx_y :: "f64 list option"
  rx_z :: "f64 list option"

record rlog_lead =
  rl_prob :: f64
  rl_x :: "f64 list option"
  rl_y :: "f64 list option"
  rl_v :: "f64 list option"

record rlog_model =
  rm_position :: "rlog_xyz option"
  rm_velocity :: "rlog_xyz option"
  rm_lanes :: "rlog_xyz list option"
  rm_lane_probs :: "f64 list option"
  rm_edges :: "rlog_xyz list option"
  rm_leads :: "rlog_lead list option"

datatype rlog_event = LiveCalibration "f64 list option" | ModelV2 rlog_model | OtherRlog

record model_xy =
  mx_x :: "f64 list"
  mx_y :: "f64 list"
  mx_z :: "f64 list"

record model_frame =
  mf_t :: f64
  mf_path :: model_xy
  mf_speed :: "f64 list"
  mf_lanes :: "model_xy list"
  mf_edges :: "model_xy list"
  mf_lead :: "(f64 \<times> f64 \<times> f64) option"

record model_artifact =
  ma_rpy :: "f64 \<times> f64 \<times> f64"
  ma_frames :: "model_frame list"

record log_lib =
  ll_bz2 :: "string \<Rightarrow> read_result list"
  ll_zst :: "string \<Rightarrow> string + read_result list"
  ll_messages :: "string \<Rightarrow> (int \<times> log_event) list"
  ll_rlog :: "string \<Rightarrow> (int \<times> rlog_event) list"
  ll_libm :: libm
  ll_coords_json :: "coord list \<Rightarrow> string"
  ll_events_json :: "drive_event list \<Rightarrow> string"
  ll_telemetry_json :: "telem list \<Rightarrow> string"
  ll_model_json :: "model_artifact \<Rightarrow> string"
  ll_img_new :: "nat \<Rightarrow> nat \<Rightarrow> string"
  ll_img_load :: "string \<Rightarrow> string option"
  ll_img_resize :: "string \<Rightarrow> nat \<Rightarrow> nat \<Rightarrow> string"
  ll_img_copy :: "string \<Rightarrow> string \<Rightarrow> nat \<Rightarrow> nat \<Rightarrow> string"
  ll_img_jpeg :: "nat \<Rightarrow> string \<Rightarrow> string option"

text \<open>Keep what decoded before the first error or the end of the stream.\<close>

fun read_tolerant :: "read_result list \<Rightarrow> string" where
  "read_tolerant [] = []"
| "read_tolerant (ReadErr # rs) = []"
| "read_tolerant (ReadOk bytes # rs) = (if bytes = [] then [] else bytes @ read_tolerant rs)"

definition decompress :: "log_lib \<Rightarrow> string \<Rightarrow> string \<Rightarrow> string res" where
  "decompress ll file raw =
     (if ends_with ''.bz2'' file then Inr (read_tolerant (ll_bz2 ll raw))
      else if ends_with ''.zst'' file
      then (case ll_zst ll raw of
              Inl e \<Rightarrow> Inl (BadRequest (''zst init: '' @ e))
            | Inr rs \<Rightarrow> Inr (read_tolerant rs))
      else Inr raw)"

text \<open>\<open>build_sprite\<close>: 128x80 thumbnails side by side; one that does not decode leaves its slot empty.\<close>

definition build_sprite :: "log_lib \<Rightarrow> string list \<Rightarrow> string option" where
  "build_sprite ll thumbs =
     (if thumbs = [] then None
      else
        let canvas0 = ll_img_new ll (128 * length thumbs) 80;
            canvas = fold (\<lambda>(i, bytes) canvas.
                             case ll_img_load ll bytes of
                               None \<Rightarrow> canvas
                             | Some img \<Rightarrow> ll_img_copy ll canvas (ll_img_resize ll img 128 80) (i * 128) 0)
                       (enumerate 0 thumbs) canvas0
        in ll_img_jpeg ll 80 canvas)"

subsection \<open>The model artifact of a full log\<close>

fun step_by :: "nat \<Rightarrow> 'a list \<Rightarrow> 'a list" where
  "step_by n [] = []"
| "step_by n (x # xs) = x # step_by n (drop (n - 1) xs)"

definition flist :: "f64 list option \<Rightarrow> nat \<Rightarrow> f64 list" where
  "flist r step = (case r of Some l \<Rightarrow> step_by (max step 1) l | None \<Rightarrow> [])"

definition xy_of :: "nat \<Rightarrow> rlog_xyz \<Rightarrow> model_xy" where
  "xy_of step d = \<lparr>mx_x = flist (rx_x d) step, mx_y = flist (rx_y d) step, mx_z = flist (rx_z d) step\<rparr>"

text \<open>\<open>f32\<close> addition, and \<open>sqrt\<close> on the smaller format.\<close>

fun f32_add :: "f64 \<Rightarrow> f64 \<Rightarrow> f64" where
  "f32_add (Fin a) (Fin b) = rnd32 (a + b)"
| "f32_add a b = f_add a b"

definition speed_norm :: "libm \<Rightarrow> nat \<Rightarrow> rlog_xyz \<Rightarrow> f64 list" where
  "speed_norm m step d =
     map (\<lambda>(x, y, z). lm_sqrt m (f32_add (f32_add (f32_mul x x) (f32_mul y y)) (f32_mul z z)))
       (zip (flist (rx_x d) step) (zip (flist (rx_y d) step) (flist (rx_z d) step)))"

definition no_xy :: model_xy where "no_xy = \<lparr>mx_x = [], mx_y = [], mx_z = []\<rparr>"

definition lanes_of :: "nat \<Rightarrow> rlog_model \<Rightarrow> model_xy list" where
  "lanes_of step m =
     (case rm_lanes m of
        None \<Rightarrow> []
      | Some lls \<Rightarrow>
          map (xy_of step \<circ> snd)
            (filter (\<lambda>(j, _). f_gt (case rm_lane_probs m of
                                     Some p \<Rightarrow> (if j < length p then p ! j else Fin 1)
                                   | None \<Rightarrow> Fin 1) (Fin (1 / 4)))
               (enumerate 0 lls)))"

definition first_of :: "f64 list option \<Rightarrow> f64 option" where
  "first_of r = (case r of Some (v # _) \<Rightarrow> Some v | _ \<Rightarrow> None)"

definition lead_of :: "rlog_model \<Rightarrow> (f64 \<times> f64 \<times> f64) option" where
  "lead_of m =
     (case rm_leads m of
        Some (l # _) \<Rightarrow>
          (if f_lt (rl_prob l) (Fin (1 / 2)) then None
           else case first_of (rl_x l) of
                  None \<Rightarrow> None
                | Some x \<Rightarrow> Some (x, case first_of (rl_y l) of Some y \<Rightarrow> y | None \<Rightarrow> f_zero,
                                     case first_of (rl_v l) of Some v \<Rightarrow> v | None \<Rightarrow> f_zero))
      | _ \<Rightarrow> None)"

text \<open>The loop of \<open>extract_model\<close>: first mono time, calibration, frame counter, frames so far.\<close>

record extract_state =
  ex_base :: "int option"
  ex_rpy :: "f64 \<times> f64 \<times> f64"
  ex_idx :: nat
  ex_frames :: "model_frame list"

definition frame_of :: "libm \<Rightarrow> f64 \<Rightarrow> rlog_model \<Rightarrow> model_frame" where
  "frame_of lm t m =
     \<lparr>mf_t = t, mf_path = (case rm_position m of Some p \<Rightarrow> xy_of 3 p | None \<Rightarrow> no_xy),
      mf_speed = (case rm_velocity m of Some v \<Rightarrow> speed_norm lm 3 v | None \<Rightarrow> []),
      mf_lanes = lanes_of 3 m,
      mf_edges = (case rm_edges m of Some es \<Rightarrow> map (xy_of 3) es | None \<Rightarrow> []),
      mf_lead = lead_of m\<rparr>"

definition extract_step :: "libm \<Rightarrow> int \<times> rlog_event \<Rightarrow> extract_state \<Rightarrow> extract_state" where
  "extract_step lm msg s0 =
     (let (tm, ev) = msg;
          b = (case ex_base s0 of Some b \<Rightarrow> b | None \<Rightarrow> tm);
          s = s0\<lparr>ex_base := Some b\<rparr>
      in case ev of
           LiveCalibration r \<Rightarrow>
             (case r of
                Some l \<Rightarrow> if 3 \<le> length l then s\<lparr>ex_rpy := (l ! 0, l ! 1, l ! 2)\<rparr> else s
              | None \<Rightarrow> s)
         | ModelV2 m \<Rightarrow>
             (let idx = ex_idx s + 1
              in if idx mod 4 \<noteq> 0 then s\<lparr>ex_idx := idx\<rparr>
                 else s\<lparr>ex_idx := idx,
                        ex_frames := ex_frames s @
                          [frame_of lm (f_div (f_of_int (sat_sub tm b)) (Fin 1000000000)) m]\<rparr>)
         | OtherRlog \<Rightarrow> s)"

definition extract_model :: "log_lib \<Rightarrow> string \<Rightarrow> string \<Rightarrow> model_artifact" where
  "extract_model ll file raw =
     (case decompress ll file raw of
        Inl _ \<Rightarrow> \<lparr>ma_rpy = (f_zero, f_zero, f_zero), ma_frames = []\<rparr>
      | Inr data \<Rightarrow>
          let s = fold (extract_step (ll_libm ll)) (ll_rlog ll data)
                    \<lparr>ex_base = None, ex_rpy = (f_zero, f_zero, f_zero), ex_idx = 0, ex_frames = []\<rparr>
          in \<lparr>ma_rpy = ex_rpy s, ma_frames = ex_frames s\<rparr>)"

definition parse_model_and_store ::
    "log_lib \<Rightarrow> string \<Rightarrow> string \<Rightarrow> int \<Rightarrow> string \<Rightarrow> string \<Rightarrow> app_state \<Rightarrow> app_state \<times> unit res" where
  "parse_model_and_store ll dongle ts seg file raw st =
     (let artifact = extract_model ll file raw
      in if ma_frames artifact = [] then (st, Inr ())
         else case blob_put st (blob_key dongle ts seg ''model.json'') (ll_model_json ll artifact) of
                (st', Inl e) \<Rightarrow> (st', Inl (Other (''model.json write: '' @ e)))
              | (st', Inr _) \<Rightarrow> (st', Inr ()))"

section \<open>Registering files\<close>

definition file_kind :: "string \<Rightarrow> (string \<times> string) option" where
  "file_kind file =
     (if contains_str ''qcamera'' file then Some (''qcam'', ''qcam_url'')
      else if contains_str ''fcamera'' file then Some (''fcam'', ''fcam_url'')
      else if contains_str ''dcamera'' file then Some (''dcam'', ''dcam_url'')
      else if contains_str ''ecamera'' file then Some (''ecam'', ''ecam_url'')
      else if contains_str ''qlog'' file then Some (''qlog'', ''qlog_url'')
      else if contains_str ''rlog'' file then Some (''rlog'', ''rlog_url'')
      else None)"

definition connectdata_url :: "string \<Rightarrow> string \<Rightarrow> string \<Rightarrow> string \<Rightarrow> int \<Rightarrow> string \<Rightarrow> string" where
  "connectdata_url public ty dongle ts seg file =
     public @ ''/connectdata/'' @ ty @ ''/'' @ dongle @ ''/'' @ ts @ ''/'' @ show_int seg @ ''/'' @ file"

text \<open>\<open>INSERT OR IGNORE INTO routes\<close>; the foreign key on the device is not ignored.\<close>

definition ensure_route :: "string \<Rightarrow> string \<Rightarrow> app_state \<Rightarrow> app_state \<times> unit res" where
  "ensure_route dongle ts st =
     (let fullname = fullname_of dongle ts
      in if fullname \<in> r_fullname ` set (routes st) then (st, Inr ())
         else if dongle \<in> d_dongle_id ` set (devices st)
         then (st\<lparr>routes := routes st @ [new_route fullname dongle (now_millis st)]\<rparr>, Inr ())
         else (st, Inl (Sqlx ''FOREIGN KEY constraint failed'')))"

definition url_of :: "string \<Rightarrow> segment \<Rightarrow> string" where
  "url_of col s =
     (if col = ''qcam_url'' then s_qcam_url s else if col = ''fcam_url'' then s_fcam_url s
      else if col = ''dcam_url'' then s_dcam_url s else if col = ''ecam_url'' then s_ecam_url s
      else if col = ''qlog_url'' then s_qlog_url s else if col = ''rlog_url'' then s_rlog_url s
      else '''')"

definition set_url :: "string \<Rightarrow> string \<Rightarrow> segment \<Rightarrow> segment" where
  "set_url col url s =
     (if col = ''qcam_url'' then s\<lparr>s_qcam_url := url\<rparr>
      else if col = ''fcam_url'' then s\<lparr>s_fcam_url := url\<rparr>
      else if col = ''dcam_url'' then s\<lparr>s_dcam_url := url\<rparr>
      else if col = ''ecam_url'' then s\<lparr>s_ecam_url := url\<rparr>
      else if col = ''qlog_url'' then s\<lparr>s_qlog_url := url\<rparr>
      else if col = ''rlog_url'' then s\<lparr>s_rlog_url := url\<rparr>
      else s)"

definition set_segment_file ::
    "string \<Rightarrow> string \<Rightarrow> int \<Rightarrow> string \<Rightarrow> app_state \<Rightarrow> app_state \<times> unit res" where
  "set_segment_file dongle ts seg file st =
     (case file_kind file of
        None \<Rightarrow> (st, Inr ())
      | Some (ty, col) \<Rightarrow>
        (case ensure_route dongle ts st of
           (st1, Inl e) \<Rightarrow> (st1, Inl e)
         | (st1, Inr _) \<Rightarrow>
             let canonical = canonical_of dongle ts seg;
                 bare = new_segment canonical (fullname_of dongle ts) seg (now_millis st1);
                 url = connectdata_url (c_public_url (cfg st1)) ty dongle ts seg file
             in (st1\<lparr>segments := tbl_update (\<lambda>s. s_canonical_name s = canonical) (set_url col url)
                        (tbl_insert_ignore s_canonical_name bare (segments st1))\<rparr>, Inr ())))"

section \<open>Storing a parsed log\<close>

text \<open>SQLite stores a NaN as \<open>NULL\<close>, which these \<open>NOT NULL\<close> columns refuse.\<close>

definition not_null :: "f64 list \<Rightarrow> bool" where
  "not_null fs = (NaN \<notin> set fs)"

definition gps_or_zero :: "(f64 \<times> f64 \<times> int) option \<Rightarrow> f64 \<times> f64 \<times> int" where
  "gps_or_zero g = (case g of Some p \<Rightarrow> p | None \<Rightarrow> (f_zero, f_zero, 0))"

definition meters_per_mile :: f64 where "meters_per_mile = rnd (1609344 / 1000)"

text \<open>The columns \<open>upsert_segment\<close> writes, on a new row and on an existing one alike.\<close>

definition fill_segment :: "accum \<Rightarrow> segment \<Rightarrow> segment" where
  "fill_segment acc s =
     (let (slat, slng, sts) = gps_or_zero (ac_first_gps acc);
          (elat, elng, ets) = gps_or_zero (ac_last_gps acc);
          t = telemetry_stats (ac_telemetry acc)
      in s\<lparr>s_start_lat := slat, s_start_lng := slng, s_end_lat := elat, s_end_lng := elng,
           s_miles := f_div (ac_total_meters acc) meters_per_mile,
           s_start_time := sts, s_end_time := ets,
           s_engaged_meters := ss_engaged_m t, s_telem_meters := ss_telem_m t,
           s_engaged_seconds := ss_engaged_s t, s_drive_seconds := ss_drive_s t,
           s_max_speed := ss_max_speed t, s_disengage_count := ss_disengage t,
           s_hard_brake_count := ss_hard_brake t, s_hard_accel_count := ss_hard_accel t,
           s_max_temp := ac_max_temp acc,
           s_min_free := (if ac_has_health acc then ac_min_free acc else Fin (- 1)),
           s_max_mem := ac_max_mem acc\<rparr>)"

definition segment_floats :: "segment \<Rightarrow> f64 list" where
  "segment_floats s =
     [s_start_lat s, s_start_lng s, s_end_lat s, s_end_lng s, s_miles s, s_engaged_meters s,
      s_telem_meters s, s_engaged_seconds s, s_drive_seconds s, s_max_speed s, s_max_temp s,
      s_min_free s]"

definition sibling_cams :: "string list" where
  "sibling_cams = [''qcamera.ts'', ''fcamera.hevc'', ''dcamera.hevc'', ''ecamera.hevc'']"

fun register_siblings ::
    "string \<Rightarrow> string \<Rightarrow> int \<Rightarrow> string list \<Rightarrow> app_state \<Rightarrow> app_state \<times> unit res" where
  "register_siblings dongle ts seg [] st = (st, Inr ())"
| "register_siblings dongle ts seg (cam # cams) st =
     (if blob_exists st (blob_key dongle ts seg cam)
      then (case set_segment_file dongle ts seg cam st of
              (st1, Inl e) \<Rightarrow> (st1, Inl e)
            | (st1, Inr _) \<Rightarrow> register_siblings dongle ts seg cams st1)
      else register_siblings dongle ts seg cams st)"

definition upsert_segment ::
    "string \<Rightarrow> string \<Rightarrow> int \<Rightarrow> string \<Rightarrow> accum \<Rightarrow> app_state \<Rightarrow> app_state \<times> unit res" where
  "upsert_segment dongle ts seg file acc st =
     (case ensure_route dongle ts st of
        (st1, Inl e) \<Rightarrow> (st1, Inl e)
      | (st1, Inr _) \<Rightarrow>
        (let row = fill_segment acc (new_segment (canonical_of dongle ts seg) (fullname_of dongle ts)
                                      seg (now_millis st1))
         in if \<not> not_null (segment_floats row)
            then (st1, Inl (Sqlx ''NOT NULL constraint failed''))
            else
              let st2 = st1\<lparr>segments := tbl_upsert s_canonical_name row (fill_segment acc) (segments st1)\<rparr>
              in case set_segment_file dongle ts seg file st2 of
                   (st3, Inl e) \<Rightarrow> (st3, Inl e)
                 | (st3, Inr _) \<Rightarrow> register_siblings dongle ts seg sibling_cams st3))"

section \<open>The route aggregate\<close>

definition route_segments :: "app_state \<Rightarrow> string \<Rightarrow> segment list" where
  "route_segments st fullname =
     sort_key s_number (filter (\<lambda>s. s_route s = fullname) (segments st))"

definition max_of :: "(segment \<Rightarrow> bool) \<Rightarrow> segment list \<Rightarrow> int" where
  "max_of p segs =
     (let ns = map s_number (filter p segs) in if ns = [] then - 1 else Max (set ns))"

definition f64_MAX :: f64 where
  "f64_MAX = Fin ((2 ^ 53 - 1) * 2 ^ 971)"

definition min_free_of :: "segment list \<Rightarrow> f64" where
  "min_free_of segs =
     (let m = foldl f_min f64_MAX (filter (\<lambda>f. f_ge f f_zero) (map s_min_free segs))
      in if f_eq m f64_MAX then Fin (- 1) else m)"

definition aggregate :: "segment list \<Rightarrow> route \<Rightarrow> route" where
  "aggregate segs r =
     (let (start_lat, start_lng, start_t) =
            (case find (\<lambda>s. s_start_time s \<noteq> 0) segs of
               Some s \<Rightarrow> (s_start_lat s, s_start_lng s, s_start_time s) | None \<Rightarrow> (f_zero, f_zero, 0));
          (end_lat, end_lng, end_t) =
            (case find (\<lambda>s. s_end_time s \<noteq> 0) (rev segs) of
               Some s \<Rightarrow> (s_end_lat s, s_end_lng s, s_end_time s) | None \<Rightarrow> (f_zero, f_zero, 0))
      in r\<lparr>r_start_time := start_t, r_end_time := end_t, r_start_lat := start_lat,
           r_start_lng := start_lng, r_end_lat := end_lat, r_end_lng := end_lng,
           r_length := f_sum (map s_miles segs),
           r_segment_numbers := map s_number segs, r_segment_start_times := map s_start_time segs,
           r_segment_end_times := map s_end_time segs,
           r_maxqcamera := max_of (\<lambda>s. s_qcam_url s \<noteq> '''') segs,
           r_maxcamera := max_of (\<lambda>s. s_fcam_url s \<noteq> '''') segs,
           r_maxdcamera := max_of (\<lambda>s. s_dcam_url s \<noteq> '''') segs,
           r_maxecamera := max_of (\<lambda>s. s_ecam_url s \<noteq> '''') segs,
           r_maxqlog := max_of (\<lambda>s. s_qlog_url s \<noteq> '''') segs,
           r_maxlog := max_of (\<lambda>s. s_rlog_url s \<noteq> '''') segs,
           r_engaged_meters := f_sum (map s_engaged_meters segs),
           r_telem_meters := f_sum (map s_telem_meters segs),
           r_engaged_seconds := f_sum (map s_engaged_seconds segs),
           r_drive_seconds := f_sum (map s_drive_seconds segs),
           r_max_speed := foldl f_max f_zero (map s_max_speed segs),
           r_disengage_count := sum_list (map s_disengage_count segs),
           r_hard_brake_count := sum_list (map s_hard_brake_count segs),
           r_hard_accel_count := sum_list (map s_hard_accel_count segs),
           r_max_temp := foldl f_max f_zero (map s_max_temp segs),
           r_min_free := min_free_of segs,
           r_max_mem := Max (set (map s_max_mem segs))\<rparr>)"

definition route_floats :: "route \<Rightarrow> f64 list" where
  "route_floats r =
     [r_start_lat r, r_start_lng r, r_end_lat r, r_end_lng r, r_length r, r_engaged_meters r,
      r_telem_meters r, r_engaged_seconds r, r_drive_seconds r, r_max_speed r, r_max_temp r,
      r_min_free r]"

definition recompute_route :: "string \<Rightarrow> string \<Rightarrow> app_state \<Rightarrow> app_state \<times> unit res" where
  "recompute_route dongle ts st =
     (let fullname = fullname_of dongle ts; segs = route_segments st fullname
      in if segs = [] then (st, Inr ())
         else if fullname \<in> r_fullname ` set (routes st) \<and>
                 \<not> not_null (route_floats (aggregate segs (new_route fullname dongle 0)))
         then (st, Inl (Sqlx ''NOT NULL constraint failed''))
         else (st\<lparr>routes := tbl_update (\<lambda>r. r_fullname r = fullname) (aggregate segs) (routes st)\<rparr>,
               Inr ()))"

definition keep_if_empty :: "string \<Rightarrow> string \<Rightarrow> string" where
  "keep_if_empty new old = (if new \<noteq> '''' then new else old)"

definition write_route_meta :: "string \<Rightarrow> string \<Rightarrow> accum \<Rightarrow> app_state \<Rightarrow> app_state \<times> unit res" where
  "write_route_meta dongle ts acc st =
     (st\<lparr>routes := tbl_update (\<lambda>r. r_fullname r = fullname_of dongle ts)
           (\<lambda>r. r\<lparr>r_platform := keep_if_empty (ac_car_fingerprint acc) (r_platform r),
                  r_git_remote := keep_if_empty (ac_git_remote acc) (r_git_remote r),
                  r_git_branch := keep_if_empty (ac_git_branch acc) (r_git_branch r),
                  r_git_commit := keep_if_empty (ac_git_commit acc) (r_git_commit r)\<rparr>)
           (routes st)\<rparr>, Inr ())"

section \<open>Parsing a log\<close>

text \<open>An artifact is written when there is something to write; a failed write is ignored.\<close>

definition put_artifact :: "bool \<Rightarrow> string \<Rightarrow> string \<Rightarrow> app_state \<Rightarrow> app_state" where
  "put_artifact write key bytes st = (if write then fst (blob_put st key bytes) else st)"

definition put_artifacts :: "log_lib \<Rightarrow> string \<Rightarrow> string \<Rightarrow> int \<Rightarrow> accum \<Rightarrow> app_state \<Rightarrow> app_state" where
  "put_artifacts ll dongle ts seg acc st =
     (let k = blob_key dongle ts seg;
          st1 = put_artifact (ac_coords acc \<noteq> []) (k ''coords.json'') (ll_coords_json ll (ac_coords acc)) st;
          st2 = put_artifact (ac_events acc \<noteq> []) (k ''events.json'') (ll_events_json ll (ac_events acc)) st1;
          st3 = put_artifact (ac_telemetry acc \<noteq> []) (k ''telemetry.json'')
                  (ll_telemetry_json ll (ac_telemetry acc)) st2
      in case (if ac_thumbnails acc = [] then None else build_sprite ll (ac_thumbnails acc)) of
           Some sprite \<Rightarrow> put_artifact True (k ''sprite.jpg'') sprite st3
         | None \<Rightarrow> st3)"

text \<open>The device's last position; a NaN is refused by the column and the error dropped.\<close>

definition touch_gps :: "string \<Rightarrow> accum \<Rightarrow> app_state \<Rightarrow> app_state" where
  "touch_gps dongle acc st =
     (case ac_last_gps acc of
        Some (lat, lng, t) \<Rightarrow>
          (if not_null [lat, lng]
           then st\<lparr>devices := tbl_update (\<lambda>d. d_dongle_id d = dongle)
                     (\<lambda>d. d\<lparr>d_last_gps_lat := lat, d_last_gps_lng := lng, d_last_gps_time := t\<rparr>)
                     (devices st)\<rparr>
           else st)
      | None \<Rightarrow> st)"

definition parse_and_store ::
    "log_lib \<Rightarrow> string \<Rightarrow> string \<Rightarrow> int \<Rightarrow> string \<Rightarrow> string \<Rightarrow> app_state \<Rightarrow> app_state \<times> unit res" where
  "parse_and_store ll dongle ts seg file raw st =
     (case decompress ll file raw of
        Inl e \<Rightarrow> (st, Inl e)
      | Inr data \<Rightarrow>
        (let acc = accumulate_all (ll_libm ll) (ll_messages ll data);
             st0 = put_artifacts ll dongle ts seg acc st
         in case upsert_segment dongle ts seg file acc st0 of
              (st1, Inl e) \<Rightarrow> (st1, Inl e)
            | (st1, Inr _) \<Rightarrow>
              (case recompute_route dongle ts st1 of
                 (st2, Inl e) \<Rightarrow> (st2, Inl e)
               | (st2, Inr _) \<Rightarrow>
                 (case write_route_meta dongle ts acc st2 of
                    (st3, Inl e) \<Rightarrow> (st3, Inl e)
                  | (st3, Inr _) \<Rightarrow> (touch_gps dongle acc st3, Inr ())))))"

text \<open>\<open>reparse_all\<close>: the first of the two compressed logs that is stored is parsed again.\<close>

fun reparse_one :: "log_lib \<Rightarrow> string \<Rightarrow> string \<Rightarrow> int \<Rightarrow> string list \<Rightarrow> app_state \<Rightarrow> app_state \<times> nat" where
  "reparse_one ll dongle ts seg [] st = (st, 0)"
| "reparse_one ll dongle ts seg (f # fs) st =
     (case blob_get st (blob_key dongle ts seg f) of
        None \<Rightarrow> reparse_one ll dongle ts seg fs st
      | Some bytes \<Rightarrow>
          let (st1, r) = parse_and_store ll dongle ts seg f bytes st
          in (st1, if is_ok r then 1 else 0))"

fun reparse_list :: "log_lib \<Rightarrow> (string \<times> int) list \<Rightarrow> app_state \<Rightarrow> app_state \<times> nat" where
  "reparse_list ll [] st = (st, 0)"
| "reparse_list ll ((route, seg) # rest) st =
     (case split_once_str ''|'' route of
        None \<Rightarrow> reparse_list ll rest st
      | Some (dongle, ts) \<Rightarrow>
          let (st1, n) = reparse_one ll dongle ts seg [''qlog.zst'', ''qlog.bz2''] st;
              (st2, m) = reparse_list ll rest st1
          in (st2, n + m))"

text \<open>\<open>ORDER BY canonical_route_name, number\<close>, bytewise.\<close>

definition reparse_all :: "log_lib \<Rightarrow> app_state \<Rightarrow> app_state \<times> nat" where
  "reparse_all ll st =
     reparse_list ll
       (map (\<lambda>s. (s_route s, s_number s)) (sort_key (\<lambda>s. (s_route s, s_number s)) (segments st))) st"

section \<open>The database stays sound\<close>

lemma db_ok_files [simp]: "db_ok (st\<lparr>files_on_disk := fs\<rparr>) = db_ok st"
  by (simp add: db_ok_def keys_ok_def refs_ok_def)

lemma blob_put_files: "\<exists>fs. fst (blob_put st k v) = st\<lparr>files_on_disk := fs\<rparr>"
proof (cases "disk_ok st (blob_tmp st k)")
  case False
  then show ?thesis by (intro exI[of _ "files_on_disk st"]) (simp add: blob_put_def)
qed (auto simp: blob_put_def blob_write_def)

lemma db_ok_routes:
  assumes "db_ok st" "tbl_ok r_fullname rs" "\<forall>r \<in> set rs. r_device_dongle_id r \<in> d_dongle_id ` set (devices st)"
    "r_fullname ` set (routes st) \<subseteq> r_fullname ` set rs"
  shows "db_ok (st\<lparr>routes := rs\<rparr>)"
  using assms by (auto simp: db_ok_def keys_ok_def refs_ok_def)

lemma db_ok_segments:
  assumes "db_ok st" "tbl_ok s_canonical_name ss" "\<forall>s \<in> set ss. s_route s \<in> r_fullname ` set (routes st)"
  shows "db_ok (st\<lparr>segments := ss\<rparr>)"
  using assms by (simp add: db_ok_def keys_ok_def refs_ok_def)

lemma db_ok_devices:
  assumes "db_ok st" "\<And>d. d_dongle_id (f d) = d_dongle_id d" "\<And>d. d_owner_id (f d) = d_owner_id d"
  shows "db_ok (st\<lparr>devices := tbl_update p f (devices st)\<rparr>)"
proof -
  have "d_dongle_id ` set (tbl_update p f (devices st)) = d_dongle_id ` set (devices st)"
    using assms(2) by (rule keys_update)
  moreover have "\<forall>d \<in> set (tbl_update p f (devices st)). \<forall>i. d_owner_id d = Some i \<longrightarrow> i \<in> u_id ` set (users st)"
    using assms(1,3) by (auto simp: set_tbl_update db_ok_def refs_ok_def)
  ultimately show ?thesis
    using assms by (simp add: db_ok_def keys_ok_def refs_ok_def tbl_ok_update)
qed

lemma db_ok_route_update:
  assumes "db_ok st" "\<And>r. r_fullname (f r) = r_fullname r" "\<And>r. r_device_dongle_id (f r) = r_device_dongle_id r"
  shows "db_ok (st\<lparr>routes := tbl_update p f (routes st)\<rparr>)"
proof (rule db_ok_routes)
  show "tbl_ok r_fullname (tbl_update p f (routes st))"
    using assms by (simp add: tbl_ok_update db_ok_def keys_ok_def)
  show "\<forall>r \<in> set (tbl_update p f (routes st)). r_device_dongle_id r \<in> d_dongle_id ` set (devices st)"
    using assms(1,3) by (auto simp: set_tbl_update db_ok_def refs_ok_def)
qed (use assms in \<open>simp_all add: keys_update\<close>)

lemma ensure_route_cases:
  obtains (present) "ensure_route d t st = (st, Inr ())" "fullname_of d t \<in> r_fullname ` set (routes st)"
  | (created) "fullname_of d t \<notin> r_fullname ` set (routes st)" "d \<in> d_dongle_id ` set (devices st)"
      "ensure_route d t st = (st\<lparr>routes := routes st @ [new_route (fullname_of d t) d (now_millis st)]\<rparr>, Inr ())"
  | (refused) e where "ensure_route d t st = (st, Inl e)"
proof -
  consider "fullname_of d t \<in> r_fullname ` set (routes st)"
    | "fullname_of d t \<notin> r_fullname ` set (routes st)" "d \<in> d_dongle_id ` set (devices st)"
    | "fullname_of d t \<notin> r_fullname ` set (routes st)" "d \<notin> d_dongle_id ` set (devices st)" by blast
  then show ?thesis
  proof cases
    case 1
    then have "ensure_route d t st = (st, Inr ())" by (simp add: ensure_route_def)
    then show ?thesis using 1 by (rule present)
  next
    case 2
    moreover have "ensure_route d t st =
        (st\<lparr>routes := routes st @ [new_route (fullname_of d t) d (now_millis st)]\<rparr>, Inr ())"
      using 2 by (simp add: ensure_route_def)
    ultimately show ?thesis by (rule created)
  next
    case 3
    then have "ensure_route d t st = (st, Inl (Sqlx ''FOREIGN KEY constraint failed''))"
      by (simp add: ensure_route_def)
    then show ?thesis by (rule refused)
  qed
qed

lemma new_route_keys [simp]:
  "r_fullname (new_route n d c) = n" "r_device_dongle_id (new_route n d c) = d"
  by (simp_all add: new_route_def)

lemma new_segment_keys [simp]:
  "s_canonical_name (new_segment n r k c) = n" "s_route (new_segment n r k c) = r"
  "s_number (new_segment n r k c) = k"
  by (simp_all add: new_segment_def)

lemma ensure_route_db_ok: "db_ok st \<Longrightarrow> db_ok (fst (ensure_route d t st))"
proof (cases rule: ensure_route_cases[of d t st])
  case created
  assume "db_ok st"
  then have "db_ok (st\<lparr>routes := routes st @ [new_route (fullname_of d t) d (now_millis st)]\<rparr>)"
    using created by (intro db_ok_routes) (auto simp: db_ok_def keys_ok_def refs_ok_def tbl_ok_def)
  then show ?thesis using created by simp
qed simp_all

lemma ensure_route_ok:
  assumes "ensure_route d t st = (st1, Inr u)"
  shows "fullname_of d t \<in> r_fullname ` set (routes st1)" "segments st1 = segments st"
    "devices st1 = devices st" "files_on_disk st1 = files_on_disk st" "cfg st1 = cfg st"
    "sha256_hex st1 = sha256_hex st" "now_millis st1 = now_millis st"
  using assms by (cases rule: ensure_route_cases[of d t st]; auto)+

lemma set_url_keys [simp]:
  "s_canonical_name (set_url c u s) = s_canonical_name s" "s_route (set_url c u s) = s_route s"
  "s_number (set_url c u s) = s_number s"
  by (simp_all add: set_url_def)

lemma fill_segment_keys [simp]:
  "s_canonical_name (fill_segment acc s) = s_canonical_name s" "s_route (fill_segment acc s) = s_route s"
  "s_number (fill_segment acc s) = s_number s" "s_created_at (fill_segment acc s) = s_created_at s"
  "url_of col (fill_segment acc s) = url_of col s"
  by (simp_all add: fill_segment_def url_of_def Let_def split: prod.split)

lemma aggregate_keys [simp]:
  "r_fullname (aggregate ss r) = r_fullname r" "r_device_dongle_id (aggregate ss r) = r_device_dongle_id r"
  "r_is_public (aggregate ss r) = r_is_public r" "r_sync_types (aggregate ss r) = r_sync_types r"
  by (simp_all add: aggregate_def Let_def split: prod.split option.split)

lemma set_segment_file_cases:
  obtains (skip) "file_kind file = None" "set_segment_file d t n file st = (st, Inr ())"
  | (refused) e where "set_segment_file d t n file st = (st, Inl e)"
  | (stored) st1 ty col where "file_kind file = Some (ty, col)" "ensure_route d t st = (st1, Inr ())"
      "set_segment_file d t n file st =
        (st1\<lparr>segments := tbl_update (\<lambda>s. s_canonical_name s = canonical_of d t n)
              (set_url col (connectdata_url (c_public_url (cfg st1)) ty d t n file))
              (tbl_insert_ignore s_canonical_name
                (new_segment (canonical_of d t n) (fullname_of d t) n (now_millis st1)) (segments st1))\<rparr>, Inr ())"
proof (cases "file_kind file")
  case None
  then show ?thesis using skip by (simp add: set_segment_file_def)
next
  case (Some k)
  obtain ty col where k: "k = (ty, col)" by (cases k)
  show ?thesis
  proof (cases "ensure_route d t st")
    case (Pair st1 r)
    show ?thesis
    proof (cases r)
      case (Inl e)
      then have "st1 = st" using Pair by (auto simp: ensure_route_def Let_def split: if_splits)
      then show ?thesis using refused Inl Pair Some k by (simp add: set_segment_file_def)
    next
      case (Inr u)
      then show ?thesis using stored[of ty col st1] Pair Some k by (simp add: set_segment_file_def Let_def)
    qed
  qed
qed

lemma set_segment_file_db_ok: "db_ok st \<Longrightarrow> db_ok (fst (set_segment_file d t n file st))"
proof (cases rule: set_segment_file_cases[of "file" d t n st])
  case (stored st1 ty col)
  assume "db_ok st"
  then have ok: "db_ok st1" using ensure_route_db_ok[of st d t] stored by simp
  let ?new = "new_segment (canonical_of d t n) (fullname_of d t) n (now_millis st1)"
  have "db_ok (st1\<lparr>segments := tbl_update p (set_url c u)
      (tbl_insert_ignore s_canonical_name ?new (segments st1))\<rparr>)" for p c u
  proof (rule db_ok_segments[OF ok])
    show "tbl_ok s_canonical_name (tbl_update p (set_url c u)
        (tbl_insert_ignore s_canonical_name ?new (segments st1)))"
      using ok by (simp add: tbl_ok_update tbl_ok_insert_ignore db_ok_def keys_ok_def)
    show "\<forall>s \<in> set (tbl_update p (set_url c u) (tbl_insert_ignore s_canonical_name ?new (segments st1))).
        s_route s \<in> r_fullname ` set (routes st1)"
      using ok ensure_route_ok(1)[OF stored(2)]
      by (auto simp: set_tbl_update set_tbl_insert_ignore db_ok_def refs_ok_def)
  qed
  then show ?thesis using stored(3) by simp
qed simp_all

lemma register_siblings_db_ok: "db_ok st \<Longrightarrow> db_ok (fst (register_siblings d t n cams st))"
proof (induction cams arbitrary: st)
  case (Cons cam cams)
  show ?case
  proof (cases "set_segment_file d t n cam st")
    case (Pair st1 r)
    then have "db_ok st1" using set_segment_file_db_ok[OF Cons.prems, of d t n cam] by simp
    then show ?thesis using Pair Cons by (cases r) auto
  qed
qed simp

lemma upsert_segment_db_ok: "db_ok st \<Longrightarrow> db_ok (fst (upsert_segment d t n file acc st))"
proof -
  assume st: "db_ok st"
  obtain st1 r where e: "ensure_route d t st = (st1, r)" by (cases "ensure_route d t st")
  then have ok: "db_ok st1" using ensure_route_db_ok[OF st, of d t] by simp
  show ?thesis
  proof (cases r)
    case (Inl x)
    then show ?thesis using e ok by (simp add: upsert_segment_def)
  next
    case (Inr u)
    let ?row = "fill_segment acc (new_segment (canonical_of d t n) (fullname_of d t) n (now_millis st1))"
    let ?st2 = "st1\<lparr>segments := tbl_upsert s_canonical_name ?row (fill_segment acc) (segments st1)\<rparr>"
    have rt: "fullname_of d t \<in> r_fullname ` set (routes st1)"
      using e Inr ensure_route_ok(1) by simp
    have "db_ok ?st2"
    proof (rule db_ok_segments[OF ok])
      show "tbl_ok s_canonical_name (tbl_upsert s_canonical_name ?row (fill_segment acc) (segments st1))"
        using ok by (intro tbl_ok_upsert) (auto simp: db_ok_def keys_ok_def)
      show "\<forall>s \<in> set (tbl_upsert s_canonical_name ?row (fill_segment acc) (segments st1)).
          s_route s \<in> r_fullname ` set (routes st1)"
        using ok rt by (auto simp: tbl_upsert_def set_tbl_update db_ok_def refs_ok_def)
    qed
    moreover obtain st3 r3 where s3: "set_segment_file d t n file ?st2 = (st3, r3)"
      by (cases "set_segment_file d t n file ?st2")
    ultimately have "db_ok st3" using set_segment_file_db_ok[of ?st2 d t n "file"] by simp
    then show ?thesis
      using e Inr ok s3 register_siblings_db_ok[of st3 d t n sibling_cams]
      by (cases r3) (simp_all add: upsert_segment_def Let_def)
  qed
qed

lemma recompute_route_db_ok: "db_ok st \<Longrightarrow> db_ok (fst (recompute_route d t st))"
  by (simp add: recompute_route_def Let_def db_ok_route_update)

lemma write_route_meta_db_ok: "db_ok st \<Longrightarrow> db_ok (fst (write_route_meta d t acc st))"
  by (simp add: write_route_meta_def db_ok_route_update)

lemma touch_gps_db_ok: "db_ok st \<Longrightarrow> db_ok (touch_gps d acc st)"
  by (simp add: touch_gps_def db_ok_devices split: option.split)

lemma blob_put_db_ok [simp]: "db_ok (fst (blob_put st k v)) = db_ok st"
  using blob_put_files[of st k v] by auto

lemma put_artifact_db_ok [simp]: "db_ok (put_artifact w k v st) = db_ok st"
  by (simp add: put_artifact_def)

lemma put_artifacts_db_ok [simp]: "db_ok (put_artifacts ll d t n acc st) = db_ok st"
  by (simp add: put_artifacts_def Let_def split: option.split)

lemma parse_and_store_db_ok: "db_ok st \<Longrightarrow> db_ok (fst (parse_and_store ll d t n file raw st))"
proof (cases "decompress ll file raw")
  case (Inr data)
  assume st: "db_ok st"
  define acc where "acc = accumulate_all (ll_libm ll) (ll_messages ll data)"
  let ?st0 = "put_artifacts ll d t n acc st"
  obtain st1 r1 where 1: "upsert_segment d t n file acc ?st0 = (st1, r1)" by (cases "upsert_segment d t n file acc ?st0")
  then have ok1: "db_ok st1" using upsert_segment_db_ok[of ?st0 d t n "file" acc] st by simp
  obtain st2 r2 where 2: "recompute_route d t st1 = (st2, r2)" by (cases "recompute_route d t st1")
  then have ok2: "db_ok st2" using recompute_route_db_ok[OF ok1, of d t] by simp
  obtain st3 r3 where 3: "write_route_meta d t acc st2 = (st3, r3)" by (cases "write_route_meta d t acc st2")
  then have ok3: "db_ok st3" using write_route_meta_db_ok[OF ok2, of d t acc] by simp
  show ?thesis
    using Inr 1 2 3 ok1 ok2 ok3 touch_gps_db_ok[OF ok3, of d acc]
    by (cases r1; cases r2; cases r3) (simp_all add: parse_and_store_def acc_def Let_def)
qed (simp add: parse_and_store_def)

lemma reparse_one_db_ok: "db_ok st \<Longrightarrow> db_ok (fst (reparse_one ll d t n fs st))"
  by (induction fs) (auto simp: parse_and_store_db_ok case_prod_beta split: option.splits)

lemma reparse_list_db_ok: "db_ok st \<Longrightarrow> db_ok (fst (reparse_list ll rows st))"
proof (induction rows arbitrary: st)
  case (Cons row rows)
  obtain route seg where row: "row = (route, seg)" by (cases row)
  have "db_ok (fst (reparse_one ll d t seg fs st))" for d t fs
    using Cons.prems by (rule reparse_one_db_ok)
  then show ?case using Cons
    by (simp add: row case_prod_beta del: reparse_one.simps split: option.split)
qed simp

section \<open>What registering a file achieves\<close>

lemma file_kind_cases:
  "file_kind file = Some (ty, col) \<Longrightarrow>
    (ty, col) \<in> {(''qcam'', ''qcam_url''), (''fcam'', ''fcam_url''), (''dcam'', ''dcam_url''),
      (''ecam'', ''ecam_url''), (''qlog'', ''qlog_url''), (''rlog'', ''rlog_url'')}"
  by (auto simp: file_kind_def split: if_splits)

lemma url_of_set_url:
  "file_kind file = Some (ty, col) \<Longrightarrow> url_of col' (set_url col u s) = (if col' = col then u else url_of col' s)"
  by (auto dest!: file_kind_cases simp: url_of_def set_url_def)

lemma connectdata_url_nonempty [simp]: "connectdata_url p ty d t n f \<noteq> []"
  by (simp add: connectdata_url_def)

lemma find_segment_SomeD: "find_segment st m = Some s \<Longrightarrow> s_canonical_name s = m"
  using tbl_find_SomeD[of s_canonical_name m "segments st" s] by (simp add: find_segment_def)

lemma set_segment_file_registers:
  assumes "set_segment_file d t n file st = (st', Inr ())" and k: "file_kind file = Some (ty, col)"
  shows "\<exists>s. find_segment st' (canonical_of d t n) = Some s \<and>
      url_of col s = connectdata_url (c_public_url (cfg st)) ty d t n file \<and>
      (\<forall>col'. col' \<noteq> col \<longrightarrow> url_of col' s =
         (case find_segment st (canonical_of d t n) of Some s0 \<Rightarrow> url_of col' s0 | None \<Rightarrow> ''''))"
    and "m \<noteq> canonical_of d t n \<Longrightarrow> find_segment st' m = find_segment st m"
    and "fullname_of d t \<in> r_fullname ` set (routes st')"
proof -
  from assms obtain st1 where st1: "ensure_route d t st = (st1, Inr ())"
    "st' = st1\<lparr>segments := tbl_update (\<lambda>s. s_canonical_name s = canonical_of d t n)
              (set_url col (connectdata_url (c_public_url (cfg st1)) ty d t n file))
              (tbl_insert_ignore s_canonical_name
                (new_segment (canonical_of d t n) (fullname_of d t) n (now_millis st1)) (segments st1))\<rparr>"
    by (cases rule: set_segment_file_cases[of "file" d t n st]) auto
  note E = ensure_route_ok[OF st1(1)]
  have f: "find_segment st' m =
      (case find_segment st m of
         Some s \<Rightarrow> Some (if s_canonical_name s = canonical_of d t n
            then set_url col (connectdata_url (c_public_url (cfg st)) ty d t n file) s else s)
       | None \<Rightarrow> if m = canonical_of d t n
           then Some (set_url col (connectdata_url (c_public_url (cfg st)) ty d t n file)
             (new_segment (canonical_of d t n) (fullname_of d t) n (now_millis st))) else None)" for m
    by (auto simp: find_segment_def st1(2) E tbl_find_update tbl_find_insert_ignore split: option.splits)
  show "\<exists>s. find_segment st' (canonical_of d t n) = Some s \<and>
      url_of col s = connectdata_url (c_public_url (cfg st)) ty d t n file \<and>
      (\<forall>col'. col' \<noteq> col \<longrightarrow> url_of col' s =
         (case find_segment st (canonical_of d t n) of Some s0 \<Rightarrow> url_of col' s0 | None \<Rightarrow> ''''))"
  proof (cases "find_segment st (canonical_of d t n)")
    case None
    then show ?thesis using f[of "canonical_of d t n"]
      by (simp add: url_of_set_url[OF k]) (simp add: url_of_def new_segment_def)
  next
    case (Some s)
    then have "s_canonical_name s = canonical_of d t n"
      by (rule find_segment_SomeD)
    then show ?thesis using Some f[of "canonical_of d t n"] by (simp add: url_of_set_url[OF k])
  qed
  show "find_segment st' m = find_segment st m" if "m \<noteq> canonical_of d t n"
  proof (cases "find_segment st m")
    case (Some s)
    then have "s_canonical_name s = m" by (rule find_segment_SomeD)
    then show ?thesis using that Some f[of m] by simp
  qed (use that f[of m] in simp)
  show "fullname_of d t \<in> r_fullname ` set (routes st')" using E(1) by (simp add: st1(2))
qed

end
