(* ===== verification/Ingest.thy ===== *)
theory Ingest
  imports Access Segments
begin

text \<open>
  \<^verbatim>\<open>src/ingest.rs\<close>: files arriving from a device, over HTTP (\<open>upload_*\<close>) or pulled over
  SSH (\<open>ingest_segment_file\<close>): stored once, then registered.
\<close>

section \<open>Storing\<close>

definition require_device :: "auth \<Rightarrow> string \<Rightarrow> unit res" where
  "require_device auth dongle =
     (case a_device auth of
        Some d \<Rightarrow>
          (if d_dongle_id d = dongle \<and> cl_identity (a_claims auth) = dongle then Inr ()
           else Inl (Forbidden ''device/dongle mismatch''))
      | None \<Rightarrow> Inl (Unauthorized ''device token required''))"

text \<open>\<open>store\<close>: an existing blob is refused, a new one is written and counted.\<close>

definition store :: "string \<Rightarrow> string \<Rightarrow> string \<Rightarrow> app_state \<Rightarrow> app_state \<times> nat res" where
  "store dongle key body st =
     (if blob_exists st key then (st, Inl (Forbidden ''file already uploaded''))
      else case blob_put st key body of
             (st1, Inl e) \<Rightarrow> (st1, Inl (Other (''blob write: '' @ e)))
           | (st1, Inr _) \<Rightarrow>
               (st1\<lparr>devices := tbl_update (\<lambda>d. d_dongle_id d = dongle)
                      (\<lambda>d. d\<lparr>d_server_storage := d_server_storage d + int (length body)\<rparr>) (devices st1)\<rparr>,
                Inr 201))"

definition register_segment_file ::
    "log_lib \<Rightarrow> string \<Rightarrow> string \<Rightarrow> int \<Rightarrow> string \<Rightarrow> string \<Rightarrow> app_state \<Rightarrow> app_state \<times> unit res" where
  "register_segment_file ll dongle ts seg file body st =
     (if contains_str ''qlog'' file then parse_and_store ll dongle ts seg file body st
      else case set_segment_file dongle ts seg file st of
             (st1, Inl e) \<Rightarrow> (st1, Inl e)
           | (st1, Inr _) \<Rightarrow> (fst (recompute_route dongle ts st1), Inr ()))"

definition ingest_segment_file ::
    "log_lib \<Rightarrow> string \<Rightarrow> string \<Rightarrow> int \<Rightarrow> string \<Rightarrow> string \<Rightarrow> app_state \<Rightarrow> app_state \<times> nat res" where
  "ingest_segment_file ll dongle ts seg file body st =
     (case store dongle (blob_key dongle ts seg file) body st of
        (st1, Inl e) \<Rightarrow> (st1, Inl e)
      | (st1, Inr status) \<Rightarrow>
        (case register_segment_file ll dongle ts seg file body st1 of
           (st2, Inl e) \<Rightarrow> (st2, Inl e)
         | (st2, Inr _) \<Rightarrow>
             (if contains_str ''rlog'' file then fst (parse_model_and_store ll dongle ts seg file body st2)
              else st2, Inr status)))"

section \<open>Upload handlers\<close>

text \<open>
  \<open>upload_driving\<close> parses a qlog in a spawned task: the handler returns the job and the
  response, and the task runs on whatever state there is by then.
\<close>

record parse_job =
  pj_dongle :: string
  pj_ts :: string
  pj_seg :: int
  pj_file :: string
  pj_bytes :: string

definition run_parse_job :: "log_lib \<Rightarrow> parse_job \<Rightarrow> app_state \<Rightarrow> app_state" where
  "run_parse_job ll j st =
     fst (parse_and_store ll (pj_dongle j) (pj_ts j) (pj_seg j) (pj_file j) (pj_bytes j) st)"

definition upload_driving ::
    "auth \<Rightarrow> string \<Rightarrow> string \<Rightarrow> int \<Rightarrow> string \<Rightarrow> string \<Rightarrow> app_state \<Rightarrow>
     app_state \<times> nat res \<times> parse_job option" where
  "upload_driving auth dongle ts seg file body st =
     (case require_device auth dongle of
        Inl e \<Rightarrow> (st, Inl e, None)
      | Inr _ \<Rightarrow>
        (case store dongle (blob_key dongle ts seg file) body st of
           (st1, Inl e) \<Rightarrow> (st1, Inl e, None)
         | (st1, Inr status) \<Rightarrow>
           (if contains_str ''qlog'' file
            then (st1, Inr status,
                  Some \<lparr>pj_dongle = dongle, pj_ts = ts, pj_seg = seg, pj_file = file, pj_bytes = body\<rparr>)
            else (case set_segment_file dongle ts seg file st1 of
                    (st2, Inl e) \<Rightarrow> (st2, Inr status, None)
                  | (st2, Inr _) \<Rightarrow> (fst (recompute_route dongle ts st2), Inr status, None)))))"

definition boot_key :: "string \<Rightarrow> string \<Rightarrow> string" where
  "boot_key dongle file = dongle @ ''_boot_'' @ file"

definition crash_key :: "string \<Rightarrow> string \<Rightarrow> string \<Rightarrow> string \<Rightarrow> string" where
  "crash_key dongle log_id commit name =
     dongle @ ''_crash_'' @ log_id @ ''_'' @ commit @ ''_'' @ name"

definition upload_boot :: "auth \<Rightarrow> string \<Rightarrow> string \<Rightarrow> string \<Rightarrow> app_state \<Rightarrow> app_state \<times> nat res" where
  "upload_boot auth dongle file body st =
     (case require_device auth dongle of
        Inl e \<Rightarrow> (st, Inl e)
      | Inr _ \<Rightarrow> store dongle (boot_key dongle file) body st)"

definition upload_crash ::
    "auth \<Rightarrow> string \<Rightarrow> string \<Rightarrow> string \<Rightarrow> string \<Rightarrow> string \<Rightarrow> app_state \<Rightarrow> app_state \<times> nat res" where
  "upload_crash auth dongle log_id commit name body st =
     (case require_device auth dongle of
        Inl e \<Rightarrow> (st, Inl e)
      | Inr _ \<Rightarrow> store dongle (crash_key dongle log_id commit name) body st)"

section \<open>Stored once\<close>

lemma require_device_InrD:
  "require_device a g = Inr u \<Longrightarrow> \<exists>d. a_device a = Some d \<and> d_dongle_id d = g"
  by (auto simp: require_device_def split: option.splits if_splits)

lemma store_cases:
  obtains (exists) "blob_exists st k" "store d k b st = (st, Inl (Forbidden ''file already uploaded''))"
  | (io) e where "\<not> blob_exists st k" "store d k b st = (fst (blob_put st k b), Inl e)"
      "\<nexists>p. snd (blob_put st k b) = Inr p"
  | (stored) "\<not> blob_exists st k"
      "store d k b st =
        ((blob_write k b st)\<lparr>devices := tbl_update (\<lambda>x. d_dongle_id x = d)
            (\<lambda>x. x\<lparr>d_server_storage := d_server_storage x + int (length b)\<rparr>) (devices st)\<rparr>, Inr 201)"
proof (cases "blob_exists st k")
  case True
  then show ?thesis using exists by (simp add: store_def)
next
  case False
  show ?thesis
  proof (cases rule: blob_put_cases[of st k b])
    case (1 e)
    then have "store d k b st = (fst (blob_put st k b), Inl (Other (''blob write: '' @ e)))"
      using False by (cases "blob_put st k b") (simp add: store_def)
    then show ?thesis using io False 1 by simp
  next
    case 2
    then have "store d k b st =
        ((blob_write k b st)\<lparr>devices := tbl_update (\<lambda>x. d_dongle_id x = d)
            (\<lambda>x. x\<lparr>d_server_storage := d_server_storage x + int (length b)\<rparr>) (devices st)\<rparr>, Inr 201)"
      using False by (simp add: store_def) (simp add: blob_write_def)
    then show ?thesis using stored False by simp
  qed
qed

lemma store_db_ok: "db_ok st \<Longrightarrow> db_ok (fst (store d k b st))"
proof -
  assume st: "db_ok st"
  have "db_ok ((st\<lparr>files_on_disk := fs\<rparr>)\<lparr>devices := tbl_update p
      (\<lambda>x. x\<lparr>d_server_storage := d_server_storage x + c\<rparr>) (devices (st\<lparr>files_on_disk := fs\<rparr>))\<rparr>)" for fs p c
    using st by (intro db_ok_devices) simp_all
  then show ?thesis using st by (cases rule: store_cases[of st k d b]) (auto simp: blob_write_def)
qed

lemma path_for_cong:
  "sha256_hex st' = sha256_hex st \<Longrightarrow> cfg st' = cfg st \<Longrightarrow> path_for st' = path_for st"
  by (auto simp: fun_eq_iff path_for_def shard_dir_def)

lemma blob_get_cong:
  "sha256_hex st' = sha256_hex st \<Longrightarrow> cfg st' = cfg st \<Longrightarrow> files_on_disk st' = files_on_disk st \<Longrightarrow>
    blob_get st' k = blob_get st k"
  using path_for_cong[of st' st] by (simp add: blob_get_def)

text \<open>A failed write leaves at most a temporary file: no blob changes.\<close>

lemma blob_put_failed:
  assumes "\<nexists>p. snd (blob_put st k v) = Inr p" and "clean_key k'"
  shows "blob_get (fst (blob_put st k v)) k' = blob_get st k'"
proof (cases "disk_ok st (blob_tmp st k)")
  case True
  with assms(1) have "\<not> disk_ok st (path_for st k)" by (auto simp: blob_put_def)
  with True have "fst (blob_put st k v) = st\<lparr>files_on_disk := fs_put (blob_tmp st k) v (files_on_disk st)\<rparr>"
    by (simp add: blob_put_def)
  then show ?thesis
    using blob_tmp_ne_path[OF assms(2), of st k] path_for_cong[of "fst (blob_put st k v)" st]
    by (simp add: blob_get_def fs_get_put)
next
  case False
  then show ?thesis by (simp add: blob_put_def)
qed

lemma store_keeps_blobs:
  assumes "clean_key k" "clean_key k'" "blob_get st k' = Some v"
  shows "blob_get (fst (store d k b st)) k' = Some v"
proof (cases rule: store_cases[of st k d b])
  case (io e)
  then show ?thesis using blob_put_failed assms by simp
next
  case stored
  then have "k' \<noteq> k" using assms by (auto simp: blob_exists_def)
  then have "blob_get (blob_write k b st) k' = Some v" using assms by (simp add: blobs.get_put_other)
  then show ?thesis using stored by simp
qed (use assms in simp)

lemma store_ok_blob:
  assumes "store d k b st = (st', Inr s)"
  shows "blob_get st' k = Some b" "\<not> blob_exists st k"
    and "clean_key k \<Longrightarrow> clean_key k' \<Longrightarrow> k' \<noteq> k \<Longrightarrow> blob_get st' k' = blob_get st k'"
    and "cfg st' = cfg st" "segments st' = segments st" "routes st' = routes st"
    "now_millis st' = now_millis st" "sha256_hex st' = sha256_hex st"
proof -
  from assms have st': "\<not> blob_exists st k" "st' = (blob_write k b st)\<lparr>devices :=
      tbl_update (\<lambda>x. d_dongle_id x = d)
        (\<lambda>x. x\<lparr>d_server_storage := d_server_storage x + int (length b)\<rparr>) (devices st)\<rparr>"
    by (cases rule: store_cases[of st k d b]; simp)+
  have g: "blob_get st' x = blob_get (blob_write k b st) x" for x
    by (simp add: st')
  show "blob_get st' k = Some b" by (simp add: g blobs.get_put_same)
  show "\<not> blob_exists st k" by (rule st')
  show "clean_key k \<Longrightarrow> clean_key k' \<Longrightarrow> k' \<noteq> k \<Longrightarrow> blob_get st' k' = blob_get st k'"
    by (simp add: g blobs.get_put_other)
  show "cfg st' = cfg st" "segments st' = segments st" "routes st' = routes st"
    "now_millis st' = now_millis st" "sha256_hex st' = sha256_hex st"
    by (simp_all add: st'(2) blob_write_def)
qed

text \<open>Registration does not touch blobs, except for the artifacts a log yields.\<close>

lemma set_segment_file_frame:
  "files_on_disk (fst (set_segment_file d t n f st)) = files_on_disk st"
  "cfg (fst (set_segment_file d t n f st)) = cfg st"
  "sha256_hex (fst (set_segment_file d t n f st)) = sha256_hex st"
  "devices (fst (set_segment_file d t n f st)) = devices st"
  by (auto simp: set_segment_file_def ensure_route_def Let_def split: option.split)

lemma recompute_route_frame:
  "files_on_disk (fst (recompute_route d t st)) = files_on_disk st"
  "cfg (fst (recompute_route d t st)) = cfg st"
  "sha256_hex (fst (recompute_route d t st)) = sha256_hex st"
  "segments (fst (recompute_route d t st)) = segments st"
  "devices (fst (recompute_route d t st)) = devices st"
  by (auto simp: recompute_route_def Let_def)

lemma set_segment_file_blob: "blob_get (fst (set_segment_file d t n f st)) k = blob_get st k"
  by (rule blob_get_cong) (simp_all add: set_segment_file_frame)

lemma recompute_route_blob: "blob_get (fst (recompute_route d t st)) k = blob_get st k"
  by (rule blob_get_cong) (simp_all add: recompute_route_frame)

lemma fst_simp: "p = (a, b) \<Longrightarrow> a = fst p" by simp

text \<open>A device and its token.\<close>

definition demo_auth :: "string \<Rightarrow> auth" where
  "demo_auth g = \<lparr>a_claims = \<lparr>cl_identity = g, cl_nbf = None, cl_iat = None, cl_exp = 0\<rparr>,
     a_user = None, a_device = Some (demo_device g)\<rparr>"

section \<open>Every way in keeps the database sound\<close>

lemma register_segment_file_db_ok: "db_ok st \<Longrightarrow> db_ok (fst (register_segment_file ll d t n f b st))"
proof -
  assume st: "db_ok st"
  obtain st1 r where s: "set_segment_file d t n f st = (st1, r)" by (cases "set_segment_file d t n f st")
  then have "db_ok st1" using set_segment_file_db_ok[OF st, of d t n f] by simp
  then show ?thesis
    using s st parse_and_store_db_ok recompute_route_db_ok by (cases r) (simp_all add: register_segment_file_def)
qed

lemma parse_model_db_ok [simp]: "db_ok (fst (parse_model_and_store ll d t n f b st)) = db_ok st"
proof -
  obtain st1 r where "blob_put st (blob_key d t n ''model.json'') (ll_model_json ll (extract_model ll f b)) = (st1, r)"
    by (cases "blob_put st (blob_key d t n ''model.json'') (ll_model_json ll (extract_model ll f b))")
  then show ?thesis
    using blob_put_db_ok[of st "blob_key d t n ''model.json''" "ll_model_json ll (extract_model ll f b)"]
    by (cases r) (simp_all add: parse_model_and_store_def Let_def)
qed

lemma ingest_segment_file_db_ok: "db_ok st \<Longrightarrow> db_ok (fst (ingest_segment_file ll d t n f b st))"
proof -
  assume st: "db_ok st"
  obtain st1 r where s: "store d (blob_key d t n f) b st = (st1, r)" by (cases "store d (blob_key d t n f) b st")
  then have ok1: "db_ok st1" using store_db_ok[OF st, of d "blob_key d t n f" b] by simp
  obtain st2 r2 where g: "register_segment_file ll d t n f b st1 = (st2, r2)"
    by (cases "register_segment_file ll d t n f b st1")
  then have "db_ok st2" using register_segment_file_db_ok[OF ok1, of ll d t n f b] by simp
  then show ?thesis using s g ok1 by (cases r; cases r2) (simp_all add: ingest_segment_file_def)
qed

lemma upload_driving_db_ok: "db_ok st \<Longrightarrow> db_ok (fst (upload_driving a d t n f b st))"
proof (cases "require_device a d")
  case (Inr u)
  assume st: "db_ok st"
  obtain st1 r where s: "store d (blob_key d t n f) b st = (st1, r)" by (cases "store d (blob_key d t n f) b st")
  then have ok1: "db_ok st1" using store_db_ok[OF st, of d "blob_key d t n f" b] by simp
  obtain st2 r2 where g: "set_segment_file d t n f st1 = (st2, r2)" by (cases "set_segment_file d t n f st1")
  then have "db_ok st2" using set_segment_file_db_ok[OF ok1, of d t n f] by simp
  then show ?thesis
    using Inr s g ok1 recompute_route_db_ok by (cases r; cases r2) (simp_all add: upload_driving_def)
qed (simp add: upload_driving_def)

text \<open>
  Requests and background jobs of the ingest side, in any order and with any outcome. The log
  library and the bytes are arbitrary: a malformed log is covered.
\<close>

inductive ingest_step :: "log_lib \<Rightarrow> app_state \<Rightarrow> app_state \<Rightarrow> bool" for ll where
  driving: "ingest_step ll st (fst (upload_driving a g t n f b st))"
| boot: "ingest_step ll st (fst (upload_boot a g f b st))"
| crash: "ingest_step ll st (fst (upload_crash a g i c m b st))"
| parse: "ingest_step ll st (run_parse_job ll j st)"
| pulled: "ingest_step ll st (fst (ingest_segment_file ll g t n f b st))"
| registered: "ingest_step ll st (fst (register_segment_file ll g t n f b st))"
| reparsed: "ingest_step ll st (fst (reparse_all ll st))"

text \<open>
  The database stays consistent through every way data can arrive: after any sequence of
  uploads, pulled files, reconciliations, background parses and reparses, in any order, with
  well-formed or malformed logs, every primary key is unique, every segment belongs to an
  existing route and every route to an existing device.
\<close>

lemma ingest_keeps_database_sound:
  assumes "(ingest_step ll)\<^sup>*\<^sup>* st st'" and "db_ok st"
  shows "db_ok st'"
  using assms
proof (induction rule: rtranclp_induct)
  case (step y z)
  then have y: "db_ok y" by simp
  from step.hyps(2) show ?case
    by cases
       (use y in \<open>simp_all add: upload_driving_db_ok upload_boot_def upload_crash_def store_db_ok
          run_parse_job_def parse_and_store_db_ok ingest_segment_file_db_ok register_segment_file_db_ok
          reparse_all_def reparse_list_db_ok split: sum.split\<close>)
qed

definition demo_log_lib :: log_lib where
  "demo_log_lib =
     \<lparr>ll_bz2 = (\<lambda>s. [ReadOk s]), ll_zst = (\<lambda>s. Inr [ReadOk s]), ll_messages = (\<lambda>_. []),
      ll_rlog = (\<lambda>_. []),
      ll_libm = \<lparr>lm_sin = id, lm_cos = id, lm_sqrt = id, lm_atan2 = (\<lambda>a b. a), lm_to_radians = id\<rparr>,
      ll_coords_json = (\<lambda>_. ''[]''), ll_events_json = (\<lambda>_. ''[]''), ll_telemetry_json = (\<lambda>_. ''[]''),
      ll_model_json = (\<lambda>_. ''{}''), ll_img_new = (\<lambda>_ _. ''''), ll_img_load = (\<lambda>s. Some s),
      ll_img_resize = (\<lambda>s _ _. s), ll_img_copy = (\<lambda>c s _ _. c @ s), ll_img_jpeg = (\<lambda>_ s. Some s)\<rparr>"

definition demo_device_state :: app_state where
  "demo_device_state = empty_state\<lparr>devices := [demo_device ''ab12'']\<rparr>"

lemma demo_device_state_ok: "db_ok demo_device_state"
  by (simp add: demo_device_state_def db_ok_def keys_ok_def refs_ok_def empty_state_def tbl_ok_def demo_device_def)

lemma ingest_keeps_database_sound_witness:
  "db_ok (fst (ingest_segment_file demo_log_lib ''ab12'' ''t'' 0 ''rlog'' ''bytes'' demo_device_state))"
proof -
  have "(ingest_step demo_log_lib)\<^sup>*\<^sup>* demo_device_state
      (fst (ingest_segment_file demo_log_lib ''ab12'' ''t'' 0 ''rlog'' ''bytes'' demo_device_state))"
    using ingest_step.pulled by (rule r_into_rtranclp)
  then show ?thesis using demo_device_state_ok by (rule ingest_keeps_database_sound)
qed

section \<open>Nothing that arrives overwrites a stored file\<close>

text \<open>
  Names of files that the server derives, or writes on the way to a file. Everything else is a device's own.
\<close>

definition derived_ends :: "string list" where
  "derived_ends =
     [''.part'', ''--coords.json'', ''--events.json'', ''--telemetry.json'', ''--sprite.jpg'', ''--model.json'']"

definition device_file :: "string \<Rightarrow> bool" where
  "device_file k = list_all (\<lambda>e. \<not> ends_with e (sanitize k)) derived_ends"

text \<open>A step after which the file is still what it was.\<close>

definition still :: "string \<Rightarrow> string \<Rightarrow> app_state \<Rightarrow> app_state \<Rightarrow> bool" where
  "still k v st st' \<longleftrightarrow> cfg st' = cfg st \<and> sha256_hex st' = sha256_hex st \<and>
     (blob_get st k = Some v \<longrightarrow> blob_get st' k = Some v)"

lemma still_refl [simp]: "still k v st st"
  by (simp add: still_def)

lemma still_trans: "still k v a b \<Longrightarrow> still k v b c \<Longrightarrow> still k v a c"
  by (simp add: still_def)

lemma still_files:
  "cfg st' = cfg st \<Longrightarrow> sha256_hex st' = sha256_hex st \<Longrightarrow> files_on_disk st' = files_on_disk st \<Longrightarrow> still k v st st'"
  using blob_get_cong[of st' st k] by (simp add: still_def)

lemma tmp_not_device_file: "device_file k \<Longrightarrow> blob_tmp st k' \<noteq> path_for st k"
proof
  assume k: "device_file k" and eq: "blob_tmp st k' = path_for st k"
  have "with_extension ''part'' (sanitize k') = sanitize k"
    using eq unfolding blob_tmp_def path_for_def
    by (rule path_join_name_inj) (simp_all add: with_extension_no_slash sanitize_no_slash)
  then show False using with_extension_part_suffix[of "sanitize k'"] k by (simp add: device_file_def derived_ends_def ends_with_def)
qed

lemma still_put:
  assumes k: "device_file k" and ne: "path_for st k' \<noteq> path_for st k"
  shows "still k v st (fst (blob_put st k' b))"
proof -
  let ?s = "fst (blob_put st k' b)"
  have "cfg ?s = cfg st" "sha256_hex ?s = sha256_hex st"
    by (simp_all add: blob_put_def blob_write_def)
  moreover have "fs_get (files_on_disk ?s) (path_for st k) = fs_get (files_on_disk st) (path_for st k)"
    using ne tmp_not_device_file[OF k, of st k'] by (auto simp: blob_put_def blob_write_def fs_rename_def fs_simps split: option.split)
  ultimately show ?thesis using path_for_cong[of ?s st] by (simp add: still_def blob_get_def)
qed

lemma still_store: "device_file k \<Longrightarrow> still k v st (fst (store d k' b st))"
proof (cases rule: store_cases[of st k' d b])
  case (io e)
  assume "device_file k"
  then show ?thesis using io still_put[of k st k' v b]
    by (cases "path_for st k' = path_for st k") (auto simp: still_def blob_exists_def blob_get_def blob_put_def blob_write_def)
next
  case stored
  assume k: "device_file k"
  show ?thesis
  proof (cases "path_for st k' = path_for st k")
    case True
    then show ?thesis using stored(1) by (simp add: still_def blob_exists_def blob_get_def stored(2) blob_write_def)
  next
    case False
    have "still k v st (blob_write k' b st)"
      using tmp_not_device_file[OF k, of st k'] False
      by (simp add: still_def blob_get_def frame_simps) (auto simp: blob_write_def fs_rename_def fs_simps)
    then show ?thesis by (simp add: still_def stored(2) blob_write_def)
  qed
qed simp

lemma derived_not_device_file:
  assumes "device_file k" "f \<in> {''coords.json'', ''events.json'', ''telemetry.json'', ''sprite.jpg'', ''model.json''}"
  shows "path_for st (blob_key d t n f) \<noteq> path_for st k"
proof
  assume "path_for st (blob_key d t n f) = path_for st k"
  then have "sanitize k = sanitize (blob_key d t n f)" using path_for_eqD by metis
  also have "\<dots> = sanitize (d @ ''_'' @ t @ ''--'' @ show_int n) @ ''--'' @ sanitize f"
    by (simp add: blob_key_def sanitize_def)
  finally have "ends_with (''--'' @ sanitize f) (sanitize k)" by (simp add: ends_with_def suffix_def)
  moreover have "sanitize f = f" using assms(2) by (auto simp: sanitize_def)
  ultimately show False using assms by (auto simp: device_file_def derived_ends_def)
qed

lemma still_artifact:
  assumes "device_file k" "f \<in> {''coords.json'', ''events.json'', ''telemetry.json'', ''sprite.jpg'', ''model.json''}"
  shows "still k v st (put_artifact w (blob_key d t n f) b st)"
  using still_put[OF assms(1) derived_not_device_file[OF assms]] by (simp add: put_artifact_def)

lemma still_artifacts: "device_file k \<Longrightarrow> still k v st (put_artifacts ll d t n acc st)"
proof -
  assume k: "device_file k"
  let ?json = "\<lambda>f w b s. put_artifact w (blob_key d t n f) b s"
  define s1 where "s1 = ?json ''coords.json'' (ac_coords acc \<noteq> []) (ll_coords_json ll (ac_coords acc)) st"
  define s2 where "s2 = ?json ''events.json'' (ac_events acc \<noteq> []) (ll_events_json ll (ac_events acc)) s1"
  define s3 where "s3 = ?json ''telemetry.json'' (ac_telemetry acc \<noteq> []) (ll_telemetry_json ll (ac_telemetry acc)) s2"
  note steps = still_artifact[OF k, where v = v and d = d and t = t and n = n]
  have "still k v st s1" "still k v s1 s2" "still k v s2 s3" unfolding s1_def s2_def s3_def by (rule steps; simp)+
  then have s3: "still k v st s3" by (meson still_trans)
  have "still k v s3 (?json ''sprite.jpg'' True b s3)" for b by (rule steps) simp
  then have "still k v st (?json ''sprite.jpg'' True b s3)" for b using s3 by (meson still_trans)
  then show ?thesis
    using s3 by (simp add: put_artifacts_def Let_def s1_def[symmetric] s2_def[symmetric] s3_def[symmetric] split: option.split)
qed

lemma still_rows:
  "still k v st (fst (set_segment_file d t n f st))" "still k v st (fst (recompute_route d t st))"
  "still k v st (fst (ensure_route d t st))" "still k v st (fst (write_route_meta d t acc st))" "still k v st (touch_gps d acc st)"
  by (rule still_files; simp add: set_segment_file_frame recompute_route_frame ensure_route_def write_route_meta_def
      touch_gps_def Let_def split: option.split)+

lemma still_siblings: "still k v st (fst (register_siblings d t n cams st))"
proof (induction cams arbitrary: st)
  case (Cons c cams)
  obtain s1 r where s1: "set_segment_file d t n c st = (s1, r)" by fastforce
  then have "still k v st s1" using still_rows(1)[of k v st d t n c] by simp
  then show ?case using Cons s1 still_trans by (cases r) auto
qed simp

lemma still_upsert: "still k v st (fst (upsert_segment d t n f acc st))"
proof -
  obtain s1 r where s1: "ensure_route d t st = (s1, r)" by fastforce
  then have 1: "still k v st s1" using still_rows(3)[of k v st d t] by simp
  have row: "still k v s1 (s1\<lparr>segments := x\<rparr>)" for x by (rule still_files) simp_all
  have "still k v st (fst (set_segment_file d t n f (s1\<lparr>segments := x\<rparr>)))" for x
    using 1 row still_rows(1) by (meson still_trans)
  moreover have "still k v st (fst (register_siblings d t n cs (fst (set_segment_file d t n f (s1\<lparr>segments := x\<rparr>)))))" for x cs
    using calculation still_siblings by (meson still_trans)
  ultimately show ?thesis
    using 1 s1 by (cases r) (auto simp: upsert_segment_def Let_def split_beta split: sum.split prod.split)
qed

lemma still_parse: "device_file k \<Longrightarrow> still k v st (fst (parse_and_store ll d t n f b st))"
proof (cases "decompress ll f b")
  case (Inr data)
  assume k: "device_file k"
  define acc where "acc = accumulate_all (ll_libm ll) (ll_messages ll data)"
  define s0 where "s0 = put_artifacts ll d t n acc st"
  obtain s1 r1 where s1: "upsert_segment d t n f acc s0 = (s1, r1)" by fastforce
  obtain s2 r2 where s2: "recompute_route d t s1 = (s2, r2)" by fastforce
  obtain s3 r3 where s3: "write_route_meta d t acc s2 = (s3, r3)" by fastforce
  have "still k v st s0" unfolding s0_def using k by (rule still_artifacts)
  moreover have "still k v s0 s1" "still k v s1 s2" "still k v s2 s3" "still k v s3 (touch_gps d acc s3)"
    using still_upsert[of k v s0 d t n f acc] still_rows(2)[of k v s1 d t] still_rows(4)[of k v s2 d t acc]
      still_rows(5)[of k v s3 d acc] s1 s2 s3 by simp_all
  ultimately have "still k v st s1" "still k v st s2" "still k v st s3" "still k v st (touch_gps d acc s3)"
    by (meson still_trans)+
  then show ?thesis
    using Inr s1 s2 s3 by (cases r1; cases r2; cases r3) (simp_all add: parse_and_store_def acc_def[symmetric] s0_def[symmetric] Let_def)
qed (simp add: parse_and_store_def)

lemma still_parse_model: "device_file k \<Longrightarrow> still k v st (fst (parse_model_and_store ll d t n f b st))"
proof -
  assume k: "device_file k"
  have "still k v st (fst (blob_put st (blob_key d t n ''model.json'') x))" for x
    using still_put[OF k derived_not_device_file[OF k]] by simp
  then show ?thesis by (auto simp: parse_model_and_store_def Let_def split: prod.split sum.split) (metis fst_conv)+
qed

lemma still_register: "device_file k \<Longrightarrow> still k v st (fst (register_segment_file ll d t n f b st))"
proof -
  assume k: "device_file k"
  obtain s1 r where s1: "set_segment_file d t n f st = (s1, r)" by fastforce
  then have 1: "still k v st s1" using still_rows(1)[of k v st d t n f] by simp
  then have "still k v st (fst (recompute_route d t s1))" using still_rows(2) by (meson still_trans)
  then show ?thesis using k 1 s1 still_parse by (cases r) (simp_all add: register_segment_file_def)
qed

lemma still_ingest: "device_file k \<Longrightarrow> still k v st (fst (ingest_segment_file ll d t n f b st))"
proof -
  assume k: "device_file k"
  obtain s1 r1 where s1: "store d (blob_key d t n f) b st = (s1, r1)" by fastforce
  obtain s2 r2 where s2: "register_segment_file ll d t n f b s1 = (s2, r2)" by fastforce
  have "still k v st s1" "still k v s1 s2" "still k v s2 (fst (parse_model_and_store ll d t n f b s2))"
    using still_store[OF k, of v st d "blob_key d t n f" b] still_register[OF k, of v s1 ll d t n f b]
      still_parse_model[OF k] s1 s2 by simp_all
  then have "still k v st s1" "still k v st s2" "still k v st (fst (parse_model_and_store ll d t n f b s2))"
    by (meson still_trans)+
  then show ?thesis using s1 s2 by (cases r1; cases r2) (simp_all add: ingest_segment_file_def)
qed

lemma still_upload: "device_file k \<Longrightarrow> still k v st (fst (upload_driving a d t n f b st))"
proof (cases "require_device a d")
  case (Inr u)
  assume k: "device_file k"
  obtain s1 r1 where s1: "store d (blob_key d t n f) b st = (s1, r1)" by fastforce
  obtain s2 r2 where s2: "set_segment_file d t n f s1 = (s2, r2)" by fastforce
  have "still k v st s1" "still k v s1 s2" "still k v s2 (fst (recompute_route d t s2))"
    using still_store[OF k, of v st d "blob_key d t n f" b] still_rows(1)[of k v s1 d t n f] still_rows(2) s1 s2 by simp_all
  then have "still k v st s1" "still k v st s2" "still k v st (fst (recompute_route d t s2))"
    by (meson still_trans)+
  then show ?thesis using Inr s1 s2 by (cases r1; cases r2) (simp_all add: upload_driving_def)
qed (simp add: upload_driving_def)

lemma still_reparse: "device_file k \<Longrightarrow> still k v st (fst (reparse_list ll rows st))"
proof (induction rows arbitrary: st)
  case (Cons w rows)
  obtain route seg where w: "w = (route, seg)" by fastforce
  have one: "still k v s (fst (reparse_one ll d t n fs s))" for d t n fs s
    using Cons.prems by (induction fs) (auto simp: still_parse split_beta split: option.split)
  have "still k v st (fst (reparse_list ll rows (fst (reparse_one ll d t seg fs st))))" for d t fs
    using one Cons.IH[OF Cons.prems] by (meson still_trans)
  then show ?case
    using w Cons.IH[OF Cons.prems, of st] by (simp add: split_beta Let_def del: reparse_one.simps split: option.split)
qed simp

lemma still_step: "ingest_step ll st st' \<Longrightarrow> device_file k \<Longrightarrow> still k v st st'"
  by (cases rule: ingest_step.cases)
    (auto simp: upload_boot_def upload_crash_def run_parse_job_def reparse_all_def still_upload still_store still_parse
      still_ingest still_register still_reparse split: sum.split)

text \<open>
  C13: what a device has stored is never overwritten or removed by anything that arrives later. After any
  sequence of uploads, pulled files, registrations, reparses and the parse jobs that uploads spawn,
  with whatever names, logs and outcomes, a stored file has the bytes it had, unless its name is one
  the server itself derives from a log (or that of a temporary file); to send it again is answered with 403. A
  request whose token is not that device's leaves the whole state alone.
\<close>

theorem uploads_never_overwrite:
  assumes run: "(ingest_step ll)\<^sup>*\<^sup>* st st'" and stored: "blob_get st k = Some v" and own: "device_file k"
  shows "blob_get st' k = Some v \<and>
    (\<forall>a g t n f b. require_device a g = Inr () \<longrightarrow>
      (k = blob_key g t n f \<longrightarrow> upload_driving a g t n f b st' = (st', Inl (Forbidden ''file already uploaded''), None)) \<and>
      (k = boot_key g f \<longrightarrow> upload_boot a g f b st' = (st', Inl (Forbidden ''file already uploaded'')))) \<and>
    (\<forall>a g i c m b. require_device a g = Inr () \<and> k = crash_key g i c m \<longrightarrow>
      upload_crash a g i c m b st' = (st', Inl (Forbidden ''file already uploaded''))) \<and>
    (\<forall>a g t n f i c m b. map_option d_dongle_id (a_device a) \<noteq> Some g \<longrightarrow>
      fst (upload_driving a g t n f b st) = st \<and> fst (upload_boot a g f b st) = st \<and> fst (upload_crash a g i c m b st) = st)"
proof -
  have "still k v st st'"
    using run by (induction rule: rtranclp_induct) (use own still_step still_trans in \<open>auto\<close>)
  then have k: "blob_get st' k = Some v" using stored by (simp add: still_def)
  then have refused: "store g k b st' = (st', Inl (Forbidden ''file already uploaded''))" for g b
    by (simp add: store_def blob_exists_def)
  have foreign: "fst (upload_driving a g t n f b st) = st \<and> fst (upload_boot a g f b st) = st \<and> fst (upload_crash a g i c m b st) = st"
    if "map_option d_dongle_id (a_device a) \<noteq> Some g" for a g t n f i c m b
  proof -
    have "\<exists>e. require_device a g = Inl e"
      using require_device_InrD[of a g] that by (cases "require_device a g") auto
    then obtain e where "require_device a g = Inl e" ..
    then show ?thesis by (simp add: upload_driving_def upload_boot_def upload_crash_def)
  qed
  show ?thesis
    using k refused foreign by (auto simp: upload_driving_def upload_boot_def upload_crash_def)
qed

text \<open>A stored log, then another file of the same segment, a parse, and a boot log.\<close>

theorem uploads_never_overwrite_witness:
  "\<exists>st st'. blob_get st (blob_key ''ab12'' ''t'' 0 ''qlog.zst'') = Some ''log'' \<and> (ingest_step demo_log_lib)\<^sup>*\<^sup>* st st' \<and>
    st' = fst (parse_and_store demo_log_lib ''ab12'' ''t'' 0 ''qlog.zst'' ''log'' st) \<and>
    upload_driving (demo_auth ''ab12'') ''ab12'' ''t'' 0 ''qlog.zst'' ''new'' st' = (st', Inl (Forbidden ''file already uploaded''), None)"
proof -
  let ?k = "blob_key ''ab12'' ''t'' 0 ''qlog.zst''"
  define st where "st = blob_write ?k ''log'' demo_device_state"
  have stored: "blob_get st ?k = Some ''log''" unfolding st_def by (rule blobs.get_put_same)
  have own: "device_file ?k" by code_simp
  have step: "ingest_step demo_log_lib st (fst (parse_and_store demo_log_lib ''ab12'' ''t'' 0 ''qlog.zst'' ''log'' st))"
    using ingest_step.parse[of demo_log_lib st "\<lparr>pj_dongle = ''ab12'', pj_ts = ''t'', pj_seg = 0, pj_file = ''qlog.zst'', pj_bytes = ''log''\<rparr>"]
    by (simp add: run_parse_job_def)
  have "require_device (demo_auth ''ab12'') ''ab12'' = Inr ()" by (simp add: require_device_def demo_auth_def demo_device_def)
  then show ?thesis
    using uploads_never_overwrite[OF r_into_rtranclp[of "ingest_step demo_log_lib", OF step] stored own] stored step
    by (intro exI[of _ st] exI[of _ "fst (parse_and_store demo_log_lib ''ab12'' ''t'' 0 ''qlog.zst'' ''log'' st)"]) auto
qed

end
