(* ===== verification/DeviceSsh.thy ===== *)
theory DeviceSsh
  imports Settings
begin

text \<open>
  \<^verbatim>\<open>src/device_ssh.rs\<close>: the server's own key pair and the two remote operations, running
  a command and copying a file off the device. The operating system's \<open>ssh-keygen\<close>,
  \<open>ssh\<close> and \<open>scp\<close> are the parameter \<open>ssh_os\<close>; a run of a command is its argument
  vector, so which words reach the remote shell is part of the model.
\<close>

datatype exec_result = TimedOut | SpawnFailed string | Exited bool string string

text \<open>\<open>os_scp\<close> also gives the bytes left in the local file; text is decoded lossily.\<close>

record ssh_os =
  os_keygen :: "string \<Rightarrow> exec_result \<times> string \<times> string"
  os_ssh :: "string list \<Rightarrow> exec_result"
  os_scp :: "string list \<Rightarrow> exec_result \<times> string"
  os_utf8 :: "string \<Rightarrow> string option"
  os_lossy :: "string \<Rightarrow> string"

definition ssh_user :: string where "ssh_user = ''comma''"

definition ssh_opts :: "string list" where
  "ssh_opts =
     [''-o'', ''IdentitiesOnly=yes'', ''-o'', ''StrictHostKeyChecking=accept-new'',
      ''-o'', ''UserKnownHostsFile=/dev/null'', ''-o'', ''BatchMode=yes'',
      ''-o'', ''ConnectTimeout=10'', ''-o'', ''LogLevel=ERROR'']"

definition key_path :: "app_state \<Rightarrow> string" where
  "key_path st = path_join (ssh_dir (cfg st)) ''id_ed25519''"

definition read_pub :: "ssh_os \<Rightarrow> app_state \<Rightarrow> string res" where
  "read_pub os st =
     (case fs_get (files_on_disk st) (key_path st @ ''.pub'') of
        None \<Rightarrow> Inl (Other ''no such file'')
      | Some bytes \<Rightarrow>
        (case os_utf8 os bytes of
           None \<Rightarrow> Inl (Other ''stream did not contain valid UTF-8'')
         | Some s \<Rightarrow> Inr (trim s)))"

text \<open>\<open>ensure_keypair\<close>: generate once, then read the public half.\<close>

definition ensure_keypair :: "ssh_os \<Rightarrow> app_state \<Rightarrow> app_state \<times> string res" where
  "ensure_keypair os st =
     (let key = key_path st; pubk = key @ ''.pub''
      in if \<not> disk_ok st (ssh_dir (cfg st)) then (st, Inl (Other ''io error''))
         else if file_exists st pubk then (st, read_pub os st)
         else case os_keygen os key of
                (SpawnFailed e, _, _) \<Rightarrow> (st, Inl (Other (''ssh-keygen: '' @ e)))
              | (Exited True _ _, priv, pub) \<Rightarrow>
                  let st1 = st\<lparr>files_on_disk := fs_put pubk pub (fs_put key priv (files_on_disk st))\<rparr>
                  in (st1, read_pub os st1)
              | _ \<Rightarrow> (st, Inl (Other ''ssh-keygen failed'')))"

definition public_key :: "ssh_os \<Rightarrow> app_state \<Rightarrow> app_state \<times> string res" where
  "public_key os st = ensure_keypair os st"

definition addr_unknown :: app_error where
  "addr_unknown = BadRequest ''device address unknown (not seen online yet)''"

definition ssh_argv :: "app_state \<Rightarrow> string \<Rightarrow> string \<Rightarrow> string list" where
  "ssh_argv st addr command =
     [''ssh'', ''-i'', key_path st] @ ssh_opts @ [ssh_user @ ''@'' @ addr, command]"

definition ssh_run :: "ssh_os \<Rightarrow> string \<Rightarrow> string \<Rightarrow> app_state \<Rightarrow> app_state \<times> string res" where
  "ssh_run os addr command st =
     (if addr = [] then (st, Inl addr_unknown)
      else case ensure_keypair os st of
             (st1, Inl e) \<Rightarrow> (st1, Inl e)
           | (st1, Inr _) \<Rightarrow>
               (st1,
                case os_ssh os (ssh_argv st1 addr command) of
                  TimedOut \<Rightarrow> Inl (Other ''ssh timed out'')
                | SpawnFailed e \<Rightarrow> Inl (Other (''ssh spawn: '' @ e))
                | Exited True out _ \<Rightarrow> Inr (os_lossy os out)
                | Exited False _ err \<Rightarrow>
                    Inl (Other (''ssh to '' @ addr @ '' failed: '' @ trim (os_lossy os err)))))"

definition scp_argv :: "app_state \<Rightarrow> string \<Rightarrow> string \<Rightarrow> string \<Rightarrow> string list" where
  "scp_argv st addr remote local =
     [''scp'', ''-i'', key_path st] @ ssh_opts @ [ssh_user @ ''@'' @ addr @ '':'' @ remote, local]"

definition pull_file :: "ssh_os \<Rightarrow> string \<Rightarrow> string \<Rightarrow> string \<Rightarrow> app_state \<Rightarrow> app_state \<times> unit res" where
  "pull_file os addr remote local st =
     (if addr = [] then (st, Inl addr_unknown)
      else case ensure_keypair os st of
             (st1, Inl e) \<Rightarrow> (st1, Inl e)
           | (st1, Inr _) \<Rightarrow>
               (case os_scp os (scp_argv st1 addr remote local) of
                  (TimedOut, _) \<Rightarrow> (st1, Inl (Other ''scp timed out''))
                | (SpawnFailed e, _) \<Rightarrow> (st1, Inl (Other (''scp spawn: '' @ e)))
                | (Exited True _ _, bytes) \<Rightarrow>
                    (st1\<lparr>files_on_disk := fs_put local bytes (files_on_disk st1)\<rparr>, Inr ())
                | (Exited False _ err, _) \<Rightarrow>
                    (st1, Inl (Other (''scp '' @ remote @ '' from '' @ addr @ '' failed: '' @
                                      trim (os_lossy os err))))))"

section \<open>Only key files and the local copy are touched\<close>

definition ssh_files :: "app_state \<Rightarrow> string set" where
  "ssh_files st = {key_path st, key_path st @ ''.pub''}"

lemma ensure_keypair_files:
  "only_files st (fst (ensure_keypair os st))"
  "p \<notin> ssh_files st \<Longrightarrow> fs_get (files_on_disk (fst (ensure_keypair os st))) p = fs_get (files_on_disk st) p"
  by (auto simp: ensure_keypair_def Let_def ssh_files_def fs_get_put
      split: prod.split exec_result.split bool.split)

lemma ssh_run_state: "fst (ssh_run os addr c st) = (if addr = [] then st else fst (ensure_keypair os st))"
  by (auto simp: ssh_run_def split: prod.split sum.split)

lemma ssh_run_files:
  "only_files st (fst (ssh_run os addr c st))"
  "p \<notin> ssh_files st \<Longrightarrow> fs_get (files_on_disk (fst (ssh_run os addr c st))) p = fs_get (files_on_disk st) p"
  by (simp_all add: ssh_run_state ensure_keypair_files)

lemma pull_file_cases:
  obtains (failed) e where "snd (pull_file os addr r l st) = Inl e"
      "fst (pull_file os addr r l st) = st \<or> fst (pull_file os addr r l st) = fst (ensure_keypair os st)"
  | (pulled) bytes where "addr \<noteq> []"
      "snd (os_scp os (scp_argv (fst (ensure_keypair os st)) addr r l)) = bytes"
      "pull_file os addr r l st =
        ((fst (ensure_keypair os st))\<lparr>files_on_disk :=
            fs_put l bytes (files_on_disk (fst (ensure_keypair os st)))\<rparr>, Inr ())"
proof (cases "addr = []")
  case True
  then show ?thesis using failed by (simp add: pull_file_def)
next
  case False
  obtain st1 k where k: "ensure_keypair os st = (st1, k)" by (cases "ensure_keypair os st")
  obtain x bytes where x: "os_scp os (scp_argv st1 addr r l) = (x, bytes)"
    by (cases "os_scp os (scp_argv st1 addr r l)")
  show ?thesis
  proof (cases k)
    case (Inl e)
    then show ?thesis using failed False k by (simp add: pull_file_def)
  next
    case (Inr u)
    show ?thesis
    proof (cases "\<exists>a b. x = Exited True a b")
      case True
      then show ?thesis using pulled[of bytes] False k x Inr by (auto simp: pull_file_def)
    next
      case no: False
      then have "\<exists>e. pull_file os addr r l st = (st1, Inl e)"
        using False k x Inr by (cases x) (auto simp: pull_file_def split: bool.split)
      then show ?thesis using failed k by auto
    qed
  qed
qed

lemma pull_file_files:
  "only_files st (fst (pull_file os addr r l st))"
  "p \<notin> insert l (ssh_files st) \<Longrightarrow>
    fs_get (files_on_disk (fst (pull_file os addr r l st))) p = fs_get (files_on_disk st) p"
proof -
  note K = ensure_keypair_files[where st = st and os = os]
  show "only_files st (fst (pull_file os addr r l st))"
    using K(1) by (cases rule: pull_file_cases[of os addr r l st]) (auto intro: only_files_trans)
  show "p \<notin> insert l (ssh_files st) \<Longrightarrow>
    fs_get (files_on_disk (fst (pull_file os addr r l st))) p = fs_get (files_on_disk st) p"
    using K(2)[where p = p] by (cases rule: pull_file_cases[of os addr r l st]) (auto simp: fs_get_put)
qed

end
