(* ===== verification/DevSync.thy ===== *)
theory DevSync
  imports SyncQueue Ingest DeviceSsh Devices
begin

text \<open>
  \<^verbatim>\<open>src/devsync.rs\<close>: pulling files off a device. A scan lists the device's recordings,
  compares them with the database and queues what is missing; workers take one file at a time,
  copy, store and register it, and may then remove the device's copy. Commands sent to a device
  are also returned as a list, so that what is deleted there can be stated.
\<close>

definition realdata_dir :: string where "realdata_dir = ''/data/media/0/realdata''"

definition optional_types :: "string list" where
  "optional_types = [''qcamera'', ''fcamera'', ''dcamera'', ''ecamera'', ''rlog'']"

section \<open>Settings\<close>

definition sync_is_enabled :: "app_state \<Rightarrow> bool" where
  "sync_is_enabled st = setting_flag st ''sync_enabled'' (c_sync_enabled (cfg st))"

definition sync_set_enabled :: "bool \<Rightarrow> app_state \<Rightarrow> app_state" where
  "sync_set_enabled on st = set_setting_flag ''sync_enabled'' on st"

definition sync_get_interval :: "app_state \<Rightarrow> int" where
  "sync_get_interval st = setting_u64 st ''sync_interval'' (c_sync_interval_secs (cfg st))"

definition sync_set_interval :: "int \<Rightarrow> app_state \<Rightarrow> app_state" where
  "sync_set_interval secs st = set_setting_u64 ''sync_interval'' secs st"

definition is_autoprune_enabled :: "app_state \<Rightarrow> bool" where
  "is_autoprune_enabled st = setting_flag st ''device_autoprune'' (c_device_autoprune (cfg st))"

definition set_autoprune :: "bool \<Rightarrow> app_state \<Rightarrow> app_state" where
  "set_autoprune on st = set_setting_flag ''device_autoprune'' on st"

definition all_types :: "string list" where "all_types = optional_types"

definition split_types :: "string \<Rightarrow> string list" where
  "split_types s = filter (\<lambda>x. x \<noteq> []) (split_on (CHR '','') s)"

definition get_sync_types :: "app_state \<Rightarrow> string list" where
  "get_sync_types st =
     (case settings_get st ''sync_types'' of
        Some s \<Rightarrow> split_types s
      | None \<Rightarrow> if c_sync_fullres (cfg st) then all_types else [''qcamera''])"

definition clean_types :: "string list \<Rightarrow> string list" where
  "clean_types types = filter (\<lambda>t. t \<in> set types) optional_types"

definition set_sync_types :: "string list \<Rightarrow> app_state \<Rightarrow> app_state" where
  "set_sync_types types st = settings_set ''sync_types'' (join_with '','' (clean_types types)) st"

definition get_route_override :: "app_state \<Rightarrow> string \<Rightarrow> string list option" where
  "get_route_override st fullname =
     (case find_route st fullname of
        Some r \<Rightarrow> map_option split_types (r_sync_types r)
      | None \<Rightarrow> None)"

definition effective_route_types :: "app_state \<Rightarrow> string \<Rightarrow> string list" where
  "effective_route_types st fullname =
     (case get_route_override st fullname of Some t \<Rightarrow> t | None \<Rightarrow> get_sync_types st)"

definition set_route_override :: "string \<Rightarrow> string list option \<Rightarrow> app_state \<Rightarrow> app_state" where
  "set_route_override fullname types st =
     st\<lparr>routes := tbl_update (\<lambda>r. r_fullname r = fullname)
          (\<lambda>r. r\<lparr>r_sync_types := map_option (\<lambda>t. join_with '','' (clean_types t)) types\<rparr>) (routes st)\<rparr>"

text \<open>
  \<open>load_route_overrides\<close>: collected into a map by timestamp, later rows winning, so the list is
  kept newest first.
\<close>

definition load_route_overrides :: "app_state \<Rightarrow> string \<Rightarrow> (string \<times> string list option) list" where
  "load_route_overrides st dongle =
     rev (List.map_filter
            (\<lambda>r. map_option (\<lambda>(_, ts). (ts, map_option split_types (r_sync_types r)))
                   (split_once_str ''|'' (r_fullname r)))
            (filter (\<lambda>r. r_device_dongle_id r = dongle) (routes st)))"

section \<open>What is registered\<close>

text \<open>SQLite's \<open>LIKE\<close>: \<open>%\<close> any text, \<open>_\<close> one character, ASCII letters in either case.\<close>

fun sql_like :: "string \<Rightarrow> string \<Rightarrow> bool" where
  "sql_like [] s = (s = [])"
| "sql_like (p # ps) [] = (p = CHR ''%'' \<and> sql_like ps [])"
| "sql_like (p # ps) (c # s) =
     (if p = CHR ''%'' then sql_like ps (c # s) \<or> sql_like (p # ps) s
      else (p = CHR ''_'' \<or> to_ascii_lower p = to_ascii_lower c) \<and> sql_like ps s)"

record reg =
  rg_qcam :: bool
  rg_fcam :: bool
  rg_dcam :: bool
  rg_ecam :: bool
  rg_rlog :: bool
  rg_qlog_parsed :: bool

definition reg_of :: "segment \<Rightarrow> reg" where
  "reg_of s =
     \<lparr>rg_qcam = (s_qcam_url s \<noteq> []), rg_fcam = (s_fcam_url s \<noteq> []), rg_dcam = (s_dcam_url s \<noteq> []),
      rg_ecam = (s_ecam_url s \<noteq> []), rg_rlog = (s_rlog_url s \<noteq> []), rg_qlog_parsed = (s_qlog_url s \<noteq> [])\<rparr>"

definition load_registration :: "app_state \<Rightarrow> string \<Rightarrow> (string \<times> reg) list" where
  "load_registration st dongle =
     map (\<lambda>s. (s_canonical_name s, reg_of s))
       (filter (\<lambda>s. sql_like (dongle @ ''|%'') (s_route s)) (segments st))"

definition registered :: "reg option \<Rightarrow> string \<Rightarrow> bool" where
  "registered reg file =
     (case reg of
        None \<Rightarrow> False
      | Some r \<Rightarrow>
        (if contains_str ''qlog'' file then rg_qlog_parsed r
         else if contains_str ''qcamera'' file then rg_qcam r
         else if contains_str ''fcamera'' file then rg_fcam r
         else if contains_str ''dcamera'' file then rg_dcam r
         else if contains_str ''ecamera'' file then rg_ecam r
         else if contains_str ''rlog'' file then rg_rlog r
         else True))"

definition file_type :: "string \<Rightarrow> string option" where
  "file_type file = find (\<lambda>t. contains_str t file) optional_types"

definition wanted :: "string \<Rightarrow> string list \<Rightarrow> bool" where
  "wanted file types =
     (if contains_str ''qlog'' file then True
      else case file_type file of Some t \<Rightarrow> t \<in> set types | None \<Rightarrow> False)"

section \<open>Remote paths\<close>

definition remote_path :: "string \<Rightarrow> int \<Rightarrow> string \<Rightarrow> string" where
  "remote_path ts seg file = realdata_dir @ ''/'' @ ts @ ''--'' @ show_int seg @ ''/'' @ file"

definition parse_remote_path :: "string \<Rightarrow> (string \<times> int \<times> string) option" where
  "parse_remote_path path =
     (case strip_prefix realdata_dir path of
        None \<Rightarrow> None
      | Some rest0 \<Rightarrow>
        (case split_once_str ''/'' (trim_start_matches (CHR ''/'') rest0) of
           None \<Rightarrow> None
         | Some (dir, file) \<Rightarrow>
           (case rsplit_once_str ''--'' dir of
              None \<Rightarrow> None
            | Some (ts, seg) \<Rightarrow>
              (case parse_i64 seg of
                 None \<Rightarrow> None
               | Some n \<Rightarrow> if ts = [] \<or> file = [] then None else Some (ts, n, file)))))"

definition safe_component :: "string \<Rightarrow> bool" where
  "safe_component s =
     (s \<noteq> [] \<and> list_all (\<lambda>c. is_ascii_alphanumeric c \<or> c = CHR ''.'' \<or> c = CHR ''_'' \<or> c = CHR ''-'') s)"

definition quote :: string where "quote = [CHR 0x27]"

section \<open>Scanning\<close>

record sync_opts =
  so_types :: "string list option"
  so_route :: "string option"

definition listing_cmd :: string where
  "listing_cmd = ''find '' @ realdata_dir @ '' -maxdepth 2 -type f 2>/dev/null''"

text \<open>One line of the listing: the item to queue, if any.\<close>

definition scan_line ::
    "device \<Rightarrow> sync_opts \<Rightarrow> (string \<times> reg) list \<Rightarrow> string list \<Rightarrow>
     (string \<times> string list option) list \<Rightarrow> string \<Rightarrow> queue_item option" where
  "scan_line device opts reg global overrides line =
     (case parse_remote_path (trim line) of
        None \<Rightarrow> None
      | Some (ts, seg, file) \<Rightarrow>
        (if so_route opts \<noteq> None \<and> so_route opts \<noteq> Some ts then None
         else
           let types = (case so_types opts of
                          Some t \<Rightarrow> t
                        | None \<Rightarrow> (case map_of overrides ts of Some (Some ov) \<Rightarrow> ov | _ \<Rightarrow> global))
           in if \<not> wanted file types then None
              else if registered (map_of reg (canonical_of (d_dongle_id device) ts seg)) file then None
              else Some \<lparr>q_dongle = d_dongle_id device, q_addr = d_last_addr device, q_ts = ts,
                         q_seg = seg, q_file = file,
                         q_key = blob_key (d_dongle_id device) ts seg file\<rparr>))"

definition scan_items :: "app_state \<Rightarrow> device \<Rightarrow> sync_opts \<Rightarrow> string \<Rightarrow> queue_item list" where
  "scan_items st device opts listing =
     (let reg = load_registration st (d_dongle_id device);
          global = (if so_types opts = None then get_sync_types st else []);
          overrides = (if so_types opts = None then load_route_overrides st (d_dongle_id device) else [])
      in List.map_filter (scan_line device opts reg global overrides) (lines_of listing))"

definition scan :: "ssh_os \<Rightarrow> device \<Rightarrow> sync_opts \<Rightarrow> app_state \<Rightarrow> app_state \<times> nat res" where
  "scan os device opts st =
     (if d_last_addr device = [] then (st, Inl addr_unknown)
      else case ssh_run os (d_last_addr device) listing_cmd st of
             (st1, Inl e) \<Rightarrow> (st1, Inl e)
           | (st1, Inr listing) \<Rightarrow>
               (let (q, n) = enqueue (scan_items st1 device opts listing) (queue st1)
                in (st1\<lparr>queue := q\<rparr>, Inr n)))"

definition default_opts :: sync_opts where "default_opts = \<lparr>so_types = None, so_route = None\<rparr>"

definition sync_trigger :: "ssh_os \<Rightarrow> string \<Rightarrow> app_state \<Rightarrow> app_state" where
  "sync_trigger os dongle st =
     (if \<not> sync_is_enabled st then st
      else case try_begin_sync dongle st of
             (st1, False) \<Rightarrow> st1
           | (st1, True) \<Rightarrow>
               (case load_device st1 dongle of
                  None \<Rightarrow> end_sync dongle st1
                | Some device \<Rightarrow> end_sync dongle (fst (scan os device default_opts st1))))"

fun sync_devices :: "ssh_os \<Rightarrow> device list \<Rightarrow> app_state \<Rightarrow> app_state" where
  "sync_devices os [] st = st"
| "sync_devices os (d # ds) st =
     (case try_begin_sync (d_dongle_id d) st of
        (st1, False) \<Rightarrow> sync_devices os ds st1
      | (st1, True) \<Rightarrow>
          sync_devices os ds (end_sync (d_dongle_id d) (fst (scan os d default_opts st1))))"

definition sync_all :: "ssh_os \<Rightarrow> app_state \<Rightarrow> app_state" where
  "sync_all os st =
     (if \<not> sync_is_enabled st then st
      else sync_devices os (filter (\<lambda>d. d_last_addr d \<noteq> [] \<and> d_online d = 1) (devices st)) st)"

text \<open>One turn of the loop in \<open>spawn\<close>: what runs, and how long it sleeps afterwards (seconds).\<close>

definition sync_turn :: "ssh_os \<Rightarrow> app_state \<Rightarrow> app_state \<times> int" where
  "sync_turn os st =
     (let secs = sync_get_interval st
      in if secs = 0 then (st, 60) else (sync_all os st, max secs 10))"

section \<open>Workers\<close>

definition prune_cmd :: "string \<Rightarrow> int \<Rightarrow> string \<Rightarrow> string" where
  "prune_cmd ts seg file = ''rm -f '' @ quote @ remote_path ts seg file @ quote"

text \<open>\<open>maybe_prune\<close>: the commands sent are the second component.\<close>

definition maybe_prune ::
    "ssh_os \<Rightarrow> string \<Rightarrow> string \<Rightarrow> int \<Rightarrow> string \<Rightarrow> string \<Rightarrow> app_state \<Rightarrow>
     app_state \<times> (string \<times> string) list" where
  "maybe_prune os addr ts seg file key st =
     (if \<not> is_autoprune_enabled st \<or> \<not> blob_exists st key \<or> \<not> safe_component file then (st, [])
      else (fst (ssh_run os addr (prune_cmd ts seg file) st), [(addr, prune_cmd ts seg file)]))"

definition tmp_path :: "app_state \<Rightarrow> string \<Rightarrow> string" where
  "tmp_path st key = path_join (path_join (c_data_dir (cfg st)) ''tmp'') key"

text \<open>The pull: copy, read, ingest. The temporary copy is removed whatever happened.\<close>

definition pull_item :: "ssh_os \<Rightarrow> log_lib \<Rightarrow> queue_item \<Rightarrow> app_state \<Rightarrow> app_state \<times> unit res" where
  "pull_item os ll it st =
     (let local = tmp_path st (q_key it);
          remote = remote_path (q_ts it) (q_seg it) (q_file it);
          (st1, r) =
            (case pull_file os (q_addr it) remote local st of
               (st1, Inl e) \<Rightarrow> (st1, Inl e)
             | (st1, Inr _) \<Rightarrow>
               (case fs_get (files_on_disk st1) local of
                  None \<Rightarrow> (st1, Inl (Other ''read tmp''))
                | Some bytes \<Rightarrow>
                  (case ingest_segment_file ll (q_dongle it) (q_ts it) (q_seg it) (q_file it) bytes st1 of
                     (st2, Inl e) \<Rightarrow> (st2, Inl e)
                   | (st2, Inr _) \<Rightarrow> (st2, Inr ()))))
      in (remove_file local st1, r))"

definition process_item ::
    "ssh_os \<Rightarrow> log_lib \<Rightarrow> queue_item \<Rightarrow> app_state \<Rightarrow> app_state \<times> (string \<times> string) list" where
  "process_item os ll it st =
     (case blob_get st (q_key it) of
        Some bytes \<Rightarrow>
          (let body = (if contains_str ''qlog'' (q_file it) then bytes else [])
           in case register_segment_file ll (q_dongle it) (q_ts it) (q_seg it) (q_file it) body st of
                (st1, Inl e) \<Rightarrow> (st1, [])
              | (st1, Inr _) \<Rightarrow>
                  maybe_prune os (q_addr it) (q_ts it) (q_seg it) (q_file it) (q_key it) st1)
      | None \<Rightarrow>
          (if \<not> disk_ok st (path_join (c_data_dir (cfg st)) ''tmp'') then (st, [])
           else case pull_item os ll it st of
                  (st1, Inl e) \<Rightarrow> (st1, [])
                | (st1, Inr _) \<Rightarrow>
                    maybe_prune os (q_addr it) (q_ts it) (q_seg it) (q_file it) (q_key it) st1))"

text \<open>\<open>request_sweep\<close> of the movie queue wakes the movie builder.\<close>

definition request_sweep :: "app_state \<Rightarrow> app_state" where
  "request_sweep st = st\<lparr>movie_q := (movie_q st)\<lparr>mq_wake := True\<rparr>\<rparr>"

text \<open>A turn of a worker: it takes an item, and later finishes it.\<close>

definition worker_take :: "app_state \<Rightarrow> (queue_item \<times> app_state) option" where
  "worker_take st = map_option (\<lambda>(it, q). (it, st\<lparr>queue := q\<rparr>)) (next_item (queue st))"

definition worker_finish :: "queue_item \<Rightarrow> app_state \<Rightarrow> app_state" where
  "worker_finish it st =
     (let st1 = st\<lparr>queue := done_item (q_key it) (queue st)\<rparr>
      in if snd (queue_stats (queue st1)) = 0 then request_sweep st1 else st1)"

section \<open>Deleting on the device\<close>

definition delete_paths :: "string \<Rightarrow> (int \<times> string) list \<Rightarrow> string list" where
  "delete_paths ts files =
     map (\<lambda>(seg, name). remote_path ts seg name) (filter (\<lambda>(_, name). safe_component name) files)"

definition delete_script :: "string list \<Rightarrow> string" where
  "delete_script paths =
     join_with ''; ''
       (map (\<lambda>p. ''[ -e '' @ quote @ p @ quote @ '' ] && rm -f '' @ quote @ p @ quote @
                 '' && echo '' @ quote @ p @ quote) paths)"

definition delete_on_device ::
    "ssh_os \<Rightarrow> device \<Rightarrow> string \<Rightarrow> (int \<times> string) list \<Rightarrow> app_state \<Rightarrow>
     app_state \<times> nat res \<times> (string \<times> string) list" where
  "delete_on_device os device ts files st =
     (if d_last_addr device = [] then (st, Inl addr_unknown, [])
      else if \<not> safe_component ts then (st, Inl (BadRequest ''bad route id''), [])
      else
        let paths = delete_paths ts files
        in if paths = [] then (st, Inr 0, [])
           else
             let cmd = delete_script paths @ ''; true''
             in (case ssh_run os (d_last_addr device) cmd st of
                   (st1, Inl e) \<Rightarrow> (st1, Inl e, [(d_last_addr device, cmd)])
                 | (st1, Inr out) \<Rightarrow>
                     (st1, Inr (length (filter (\<lambda>l. trim l \<noteq> []) (lines_of out))),
                      [(d_last_addr device, cmd)])))"

section \<open>Paths and commands\<close>

lemma trim_start_matches_other: "c \<noteq> d \<Longrightarrow> trim_start_matches c (d # s) = d # s"
  by (simp add: trim_start_matches_def)

lemma parse_remote_path_roundtrip:
  assumes "ts \<noteq> []" "CHR ''/'' \<notin> set ts" "0 \<le> seg" "is_i64 seg" "file \<noteq> []"
  shows "parse_remote_path (remote_path ts seg file) = Some (ts, seg, file)"
proof -
  obtain c t where ts: "ts = c # t" using assms(1) by (cases ts) auto
  have "trim_start_matches (CHR ''/'') (CHR ''/'' # ts @ ''--'' @ show_int seg @ ''/'' @ file) =
      ts @ ''--'' @ show_int seg @ ''/'' @ file"
    using assms(2) by (auto simp: ts trim_start_matches_def)
  moreover have "CHR ''/'' \<notin> set (ts @ ''--'' @ show_int seg)"
    using assms(2,3) show_int_nonneg_digits[of seg "CHR ''/''"] by (auto simp: is_ascii_digit_def code_def)
  then have "split_once_str ''/'' ((ts @ ''--'' @ show_int seg) @ CHR ''/'' # file) =
      Some (ts @ ''--'' @ show_int seg, file)"
    by (rule split_once_char_append)
  moreover have "rsplit_once_str ''--'' (ts @ ''--'' @ show_int seg) = Some (ts, show_int seg)"
    using no_dd_show_int[OF assms(3)] by (rule rsplit_dd_append)
  moreover have "strip_prefix realdata_dir (remote_path ts seg file) =
      Some (CHR ''/'' # ts @ ''--'' @ show_int seg @ ''/'' @ file)"
    by (simp add: remote_path_def)
  ultimately show ?thesis
    using assms by (simp add: parse_remote_path_def parse_i64_show_int)
qed

text \<open>
  The remote paths the workers build are the ones the scanner reads: parsing the path of a
  segment file gives back its timestamp, segment number and file name, for every timestamp
  without a slash and every segment number of an \<open>i64\<close>.
\<close>

theorem remote_path_roundtrip:
  assumes "ts \<noteq> []" "CHR ''/'' \<notin> set ts" "0 \<le> seg" "is_i64 seg" "file \<noteq> []"
  shows "parse_remote_path (remote_path ts seg file) = Some (ts, seg, file)"
  using assms by (rule parse_remote_path_roundtrip)

theorem remote_path_roundtrip_witness:
  "parse_remote_path (remote_path ''00000009--f3d1ef15b7'' 12 ''qlog.zst'') =
    Some (''00000009--f3d1ef15b7'', 12, ''qlog.zst'')"
  by (rule remote_path_roundtrip) (simp_all add: is_i64_def i64_min_def i64_max_def)

text \<open>Characters that cannot end a single-quoted shell word.\<close>

definition shell_safe :: "string \<Rightarrow> bool" where
  "shell_safe s = list_all (\<lambda>c. is_ascii_alphanumeric c \<or> c = CHR ''.'' \<or> c = CHR ''_'' \<or> c = CHR ''-'' \<or> c = CHR ''/'') s"

lemma shell_safe_simps [simp]:
  "shell_safe []" "shell_safe (s @ t) = (shell_safe s \<and> shell_safe t)"
  "shell_safe (c # s) = ((is_ascii_alphanumeric c \<or> c = CHR ''.'' \<or> c = CHR ''_'' \<or> c = CHR ''-'' \<or> c = CHR ''/'') \<and> shell_safe s)"
  by (simp_all add: shell_safe_def)

lemma safe_component_shell: "safe_component s \<Longrightarrow> shell_safe s"
  by (auto simp: safe_component_def shell_safe_def list_all_iff)

lemma show_int_shell: "shell_safe (show_int i)"
  using show_int_chars by (auto simp: shell_safe_def list_all_iff is_ascii_alphanumeric_def)

lemma realdata_shell: "shell_safe realdata_dir"
  by (simp add: realdata_dir_def shell_safe_def is_ascii_alphanumeric_def is_ascii_lower_def
      is_ascii_upper_def is_ascii_digit_def code_def)

lemma remote_path_shell: "shell_safe ts \<Longrightarrow> shell_safe f \<Longrightarrow> shell_safe (remote_path ts n f)"
  by (simp add: remote_path_def realdata_shell show_int_shell)

lemma shell_safe_no_quote: "shell_safe s \<Longrightarrow> CHR 0x27 \<notin> set s"
  by (auto simp: shell_safe_def list_all_iff is_ascii_alphanumeric_def is_ascii_lower_def
      is_ascii_upper_def is_ascii_digit_def code_def)

lemma delete_paths_safe:
  assumes "safe_component ts" "p \<in> set (delete_paths ts files)"
  shows "shell_safe p \<and> prefix (realdata_dir @ ''/'' @ ts @ ''--'') p \<and> CHR 0x27 \<notin> set p"
proof -
  from assms(2) obtain n f where f: "p = remote_path ts n f" "safe_component f"
    by (auto simp: delete_paths_def)
  have "shell_safe p"
    using remote_path_shell safe_component_shell assms(1) f by simp
  moreover have "remote_path ts n f = (realdata_dir @ ''/'' @ ts @ ''--'') @ show_int n @ ''/'' @ f"
    by (simp add: remote_path_def)
  ultimately show ?thesis using f(1) shell_safe_no_quote by auto
qed

text \<open>
  C14: deleting on a device cannot be turned into another command. Whatever route id and file
  names are asked for, each command sent is the fixed script over paths that lie under the
  route's own recording directories and are made of characters that cannot close the quotes
  around them; nothing is sent when the address is unknown or the route id is not plain.
\<close>

theorem delete_on_device_quoting:
  "\<forall>(addr, cmd) \<in> set (snd (snd (delete_on_device os device ts files st))).
     addr = d_last_addr device \<and> safe_component ts \<and>
     (\<exists>ps. cmd = delete_script ps @ ''; true'' \<and> ps \<noteq> [] \<and>
        (\<forall>p \<in> set ps. shell_safe p \<and> prefix (realdata_dir @ ''/'' @ ts @ ''--'') p \<and> CHR 0x27 \<notin> set p))"
proof (cases "d_last_addr device = [] \<or> \<not> safe_component ts \<or> delete_paths ts files = []")
  case True
  then show ?thesis by (auto simp: delete_on_device_def Let_def)
next
  case False
  then have "snd (snd (delete_on_device os device ts files st)) =
      [(d_last_addr device, delete_script (delete_paths ts files) @ ''; true'')]"
    by (auto simp: delete_on_device_def Let_def split: prod.split sum.split)
  with False delete_paths_safe[of ts] show ?thesis
    by (auto intro!: exI[of _ "delete_paths ts files"])
qed

section \<open>What a scan queues\<close>

lemma map_filter_set: "set (List.map_filter f xs) = {y. \<exists>x \<in> set xs. f x = Some y}"
  by (auto simp: List.map_filter_def image_iff) force

text \<open>The files a listing offers that the device's settings want and the database lacks.\<close>

definition missing :: "app_state \<Rightarrow> device \<Rightarrow> sync_opts \<Rightarrow> string \<Rightarrow> (string \<times> int \<times> string) set" where
  "missing st device opts listing =
     {(ts, seg, file). \<exists>line \<in> set (lines_of listing).
        parse_remote_path (trim line) = Some (ts, seg, file) \<and>
        (so_route opts = None \<or> so_route opts = Some ts) \<and>
        wanted file
          (case so_types opts of
             Some t \<Rightarrow> t
           | None \<Rightarrow> (case map_of (load_route_overrides st (d_dongle_id device)) ts of
                        Some (Some ov) \<Rightarrow> ov | _ \<Rightarrow> get_sync_types st)) \<and>
        \<not> registered (map_of (load_registration st (d_dongle_id device))
                         (canonical_of (d_dongle_id device) ts seg)) file}"

lemma scan_items_keys:
  "q_key ` set (scan_items st device opts listing) =
    (\<lambda>(ts, seg, file). blob_key (d_dongle_id device) ts seg file) ` missing st device opts listing"
proof -
  let ?reg = "load_registration st (d_dongle_id device)"
  let ?global = "if so_types opts = None then get_sync_types st else []"
  let ?ov = "if so_types opts = None then load_route_overrides st (d_dongle_id device) else []"
  have line: "map_option q_key (scan_line device opts ?reg ?global ?ov line) = Some k \<longleftrightarrow>
      (\<exists>ts seg file. parse_remote_path (trim line) = Some (ts, seg, file) \<and>
        (so_route opts = None \<or> so_route opts = Some ts) \<and>
        wanted file (case so_types opts of Some t \<Rightarrow> t
           | None \<Rightarrow> (case map_of (load_route_overrides st (d_dongle_id device)) ts of
                        Some (Some ov) \<Rightarrow> ov | _ \<Rightarrow> get_sync_types st)) \<and>
        \<not> registered (map_of ?reg (canonical_of (d_dongle_id device) ts seg)) file \<and>
        k = blob_key (d_dongle_id device) ts seg file)" for line k
    by (cases "so_types opts") (auto simp: scan_line_def split: option.splits prod.splits if_splits)
  have "q_key ` set (scan_items st device opts listing) =
      {k. \<exists>line \<in> set (lines_of listing). map_option q_key (scan_line device opts ?reg ?global ?ov line) = Some k}"
    by (auto simp: scan_items_def map_filter_set Let_def image_iff)
  also have "... = (\<lambda>(ts, seg, file). blob_key (d_dongle_id device) ts seg file) ` missing st device opts listing"
    unfolding line missing_def by (auto simp: image_iff) blast+
  finally show ?thesis .
qed

definition queue_keys :: "sync_queue \<Rightarrow> string set" where
  "queue_keys q = q_key ` set (sq_pending q) \<union> active_keys q"

lemma enqueue_keys:
  "queue_ok q \<Longrightarrow> queue_keys (fst (enqueue xs q)) = queue_keys q \<union> q_key ` set xs"
proof -
  assume "queue_ok q"
  then obtain new where "sq_pending (fst (enqueue xs q)) = sq_pending q @ new"
      "q_key ` set new = q_key ` set xs - q_key ` set (sq_pending q) - active_keys q"
    using sq.put_waiting by blast
  then show ?thesis by (auto simp: queue_keys_def image_Un sq.put_running)
qed

text \<open>
  C10: a scan queues exactly what is missing. When the listing arrives, the files waiting or in
  process afterwards are those from before plus every listed file that the route's type choice
  wants and the database has not registered, none twice; a second scan of the same listing adds
  nothing; and when the device cannot be reached nothing is queued.
\<close>

theorem scan_queues_exactly_missing:
  assumes "queue_ok (queue st)" and "d_last_addr device \<noteq> []"
  shows "case ssh_run os (d_last_addr device) listing_cmd st of
    (st1, Inl e) \<Rightarrow> snd (scan os device opts st) = Inl e \<and> queue (fst (scan os device opts st)) = queue st
  | (st1, Inr listing) \<Rightarrow>
      (let q = queue (fst (scan os device opts st)) in
       queue_ok q \<and>
       queue_keys q = queue_keys (queue st) \<union>
         (\<lambda>(ts, seg, file). blob_key (d_dongle_id device) ts seg file) ` missing st1 device opts listing \<and>
       snd (enqueue (scan_items st1 device opts listing) q) = 0)"
proof (cases "ssh_run os (d_last_addr device) listing_cmd st")
  case (Pair st1 r)
  have q1: "queue st1 = queue st"
    using ssh_run_files(1)[of st os "d_last_addr device" listing_cmd] Pair only_files_frame(12) by simp
  show ?thesis
  proof (cases r)
    case (Inl e)
    then show ?thesis using Pair assms(2) q1 by (simp add: scan_def)
  next
    case (Inr listing)
    then have "queue (fst (scan os device opts st)) = fst (enqueue (scan_items st1 device opts listing) (queue st))"
      using Pair assms(2) q1 by (simp add: scan_def split: prod.split)
    then show ?thesis
      using Pair Inr assms(1) sq.put_ok sq.put_again enqueue_keys scan_items_keys by (simp add: Let_def)
  qed
qed

text \<open>A concrete device that answers every command.\<close>

definition demo_os :: "string \<Rightarrow> string \<Rightarrow> ssh_os" where
  "demo_os out bytes =
     \<lparr>os_keygen = (\<lambda>_. (Exited True '''' '''', ''k'', ''ssh-ed25519 x'')),
      os_ssh = (\<lambda>_. Exited True out ''''), os_scp = (\<lambda>_. (Exited True '''' '''', bytes)),
      os_utf8 = Some, os_lossy = id\<rparr>"

lemma demo_scan:
  "map q_key (sq_pending (queue (fst (scan (demo_os (remote_path ''r'' 0 ''qlog'') '''')
     (demo_device ''ab12'') default_opts demo_device_state)))) = [blob_key ''ab12'' ''r'' 0 ''qlog'']"
  by code_simp

theorem scan_queues_exactly_missing_witness:
  "let os = demo_os (remote_path ''r'' 0 ''qlog'') '''';
       q = queue (fst (scan os (demo_device ''ab12'') default_opts demo_device_state))
   in queue_ok q \<and> map q_key (sq_pending q) = [blob_key ''ab12'' ''r'' 0 ''qlog'']"
proof -
  have q: "queue_ok (queue demo_device_state)"
    by (simp add: demo_device_state_def empty_state_def queue_ok_def)
  have a: "d_last_addr (demo_device ''ab12'') \<noteq> []" by (simp add: demo_device_def)
  from scan_queues_exactly_missing[OF q a, of "demo_os (remote_path ''r'' 0 ''qlog'') ''''" default_opts] q
  have "queue_ok (queue (fst (scan (demo_os (remote_path ''r'' 0 ''qlog'') '''')
     (demo_device ''ab12'') default_opts demo_device_state)))"
    by (auto simp: Let_def split: prod.splits sum.splits)
  then show ?thesis by (simp add: demo_scan Let_def)
qed

theorem delete_on_device_quoting_witness:
  "let cmds = snd (snd (delete_on_device (demo_os '''' '''') (demo_device ''ab12'') ''r'' [(0, ''qlog.zst'')] empty_state))
   in length cmds = 1 \<and> list_all (\<lambda>(addr, cmd). addr = ''100.64.0.7'' \<and> safe_component ''r'') cmds"
proof -
  have "length (snd (snd (delete_on_device (demo_os '''' '''') (demo_device ''ab12'') ''r'' [(0, ''qlog.zst'')] empty_state))) = 1"
    by code_simp
  then show ?thesis
    using delete_on_device_quoting[of "demo_os '''' ''''" "demo_device ''ab12''" "''r''" "[(0, ''qlog.zst'')]" empty_state]
    by (auto simp: Let_def list_all_iff demo_device_def)
qed

end
