(* ===== verification/Transcode.thy ===== *)
theory Transcode
  imports DeviceSsh F64Text
begin

text \<open>
  \<^verbatim>\<open>src/transcode.rs\<close>: the encoder selection, the argument vectors given to
  \<^verbatim>\<open>ffmpeg\<close>, the cache of transcoded segments and its cleanup. The media tools and the
  parts of \<^verbatim>\<open>/sys\<close> and \<^verbatim>\<open>/dev\<close> the code looks at are the parameter
  \<open>media_os\<close>: a run of \<open>ffmpeg\<close> is given the files and its arguments, and answers whether it
  exited cleanly in time and what its output file (the last argument) then holds.
\<close>

section \<open>The tools\<close>

record media_os =
  mo_ffmpeg :: "files \<Rightarrow> string list \<Rightarrow> bool \<times> string option"
  mo_ffprobe :: "files \<Rightarrow> string list \<Rightarrow> exec_result"
  mo_encoders :: string
  mo_dri :: "string list"
  mo_sys :: "string \<Rightarrow> string option"
  mo_nvidiactl :: bool
  mo_nvidia_smi :: exec_result
  mo_vainfo :: "string \<Rightarrow> exec_result"
  mo_utf8 :: "string \<Rightarrow> string option"
  mo_lossy :: "string \<Rightarrow> string"

section \<open>Selecting the encoder\<close>

definition device_key :: string where "device_key = ''transcode_device''"

definition current_device :: "app_state \<Rightarrow> string option" where
  "current_device st =
     (case settings_get st device_key of
        Some s \<Rightarrow> (if s = ''cpu'' then None
                 else if s \<noteq> [] then Some s
                 else c_vaapi_device (cfg st))
      | None \<Rightarrow> c_vaapi_device (cfg st))"

definition set_device :: "string \<Rightarrow> app_state \<Rightarrow> app_state" where
  "set_device v st = settings_set device_key v st"

record device_option =
  do_value :: string
  do_label :: string
  do_encodes :: bool

datatype gpu_backend = Vaapi string | Nvenc

text \<open>\<open>Path::file_name\<close> of a path without a trailing slash or dot components.\<close>

definition file_name :: "string \<Rightarrow> string option" where
  "file_name p = (let n = last (split_on (CHR ''/'') p) in if n = [] \<or> n = ''..'' then None else Some n)"

definition is_nvidia_render_node :: "media_os \<Rightarrow> string \<Rightarrow> bool" where
  "is_nvidia_render_node os dev =
     (case file_name dev of
        None \<Rightarrow> False
      | Some node \<Rightarrow>
        (case mo_sys os (path_join (path_join ''/sys/class/drm'' node) ''device/vendor'') of
           Some s \<Rightarrow> eq_ignore_ascii_case (trim s) ''0x10de''
         | None \<Rightarrow> False))"

definition ffmpeg_has_encoder :: "media_os \<Rightarrow> string \<Rightarrow> bool" where
  "ffmpeg_has_encoder os name = contains_str name (mo_encoders os)"

definition select_backend :: "media_os \<Rightarrow> string \<Rightarrow> gpu_backend" where
  "select_backend os value =
     (if is_nvidia_render_node os value \<and> ffmpeg_has_encoder os ''h264_nvenc'' then Nvenc
      else Vaapi value)"

definition nvidia_runtime_visible :: "media_os \<Rightarrow> bool" where
  "nvidia_runtime_visible os =
     (if mo_nvidiactl os then True
      else case mo_nvidia_smi os of Exited ok _ _ \<Rightarrow> ok | _ \<Rightarrow> False)"

definition nvidia_name :: "media_os \<Rightarrow> string option" where
  "nvidia_name os =
     (case mo_nvidia_smi os of
        Exited True out _ \<Rightarrow>
          (case mo_utf8 os out of
             None \<Rightarrow> None
           | Some s \<Rightarrow>
             (case lines_of s of
                [] \<Rightarrow> None
              | l # _ \<Rightarrow> (if trim l = [] then None else Some (trim l))))
      | _ \<Rightarrow> None)"

text \<open>\<open>dev.rsplit('/').next()\<close>.\<close>

definition node_of :: "string \<Rightarrow> string" where
  "node_of dev = last (split_on (CHR ''/'') dev)"

definition probe_nvenc :: "media_os \<Rightarrow> string \<Rightarrow> string \<times> bool" where
  "probe_nvenc os dev =
     (let has_encoder = ffmpeg_has_encoder os ''h264_nvenc'';
          runtime = nvidia_runtime_visible os;
          name = (case nvidia_name os of Some n \<Rightarrow> n | None \<Rightarrow> ''NVIDIA GPU'');
          sfx = (if \<not> has_encoder then '' (ffmpeg lacks h264_nvenc)''
                 else if \<not> runtime then '' (Nvidia runtime unavailable)''
                 else [])
      in (name @ '' NVENC ('' @ node_of dev @ '')'' @ sfx, has_encoder \<and> runtime))"

text \<open>The friendly name: the text between \<open> for \<close> and a parenthesis in the driver line.\<close>

definition vaapi_name :: "string \<Rightarrow> string \<Rightarrow> string" where
  "vaapi_name node text =
     (case find (\<lambda>l. contains_str ''Driver version'' l) (lines_of text) of
        None \<Rightarrow> node
      | Some line \<Rightarrow>
        (case split_once_str '' for '' line of
           Some (_, rest) \<Rightarrow>
             (let part = (case split_once_str '' for '' rest of Some (a, _) \<Rightarrow> a | None \<Rightarrow> rest);
                  n = trim (hd (split_on (CHR ''('') part))
              in if n \<noteq> [] then n else node)
         | None \<Rightarrow> (if contains_str ''Intel'' line then ''Intel GPU'' else node)))"

definition probe_vaapi :: "media_os \<Rightarrow> string \<Rightarrow> string \<times> bool" where
  "probe_vaapi os dev =
     (case mo_vainfo os dev of
        Exited _ out _ \<Rightarrow>
          (let text = mo_lossy os out
           in (vaapi_name (node_of dev) text @ '' ('' @ node_of dev @ '')'',
               contains_str ''VAProfileH264'' text \<and> contains_str ''EncSlice'' text))
      | _ \<Rightarrow> (node_of dev @ '' (unavailable)'', False))"

definition probe_device :: "media_os \<Rightarrow> string \<Rightarrow> device_option" where
  "probe_device os dev =
     (let (label, encodes) = (if is_nvidia_render_node os dev then probe_nvenc os dev else probe_vaapi os dev)
      in \<lparr>do_value = dev, do_label = label, do_encodes = encodes\<rparr>)"

text \<open>\<open>probe_devices\<close>: the CPU, then the render nodes in path order.\<close>

definition probe_devices :: "media_os \<Rightarrow> device_option list" where
  "probe_devices os =
     \<lparr>do_value = ''cpu'', do_label = ''CPU (libx264, ultrafast)'', do_encodes = True\<rparr> #
     map (probe_device os)
       (sort (map (path_join ''/dev/dri'') (filter (starts_with ''renderD'') (mo_dri os))))"

section \<open>Arguments\<close>

definition fps :: string where "fps = ''20''"
definition segment_secs :: int where "segment_secs = 60"

definition tc_vaapi_args :: "string \<Rightarrow> string \<Rightarrow> string \<Rightarrow> string \<Rightarrow> string list" where
  "tc_vaapi_args dev src out ts_offset =
     [''-nostdin'', ''-y'',
      ''-hwaccel'', ''vaapi'', ''-hwaccel_device'', dev, ''-hwaccel_output_format'', ''vaapi'',
      ''-r'', fps, ''-f'', ''hevc'', ''-i'', src,
      ''-vf'', ''scale_vaapi=format=nv12'',
      ''-c:v'', ''h264_vaapi'', ''-qp'', ''28'', ''-an'',
      ''-output_ts_offset'', ts_offset, ''-muxdelay'', ''0'',
      ''-f'', ''mpegts'', out]"

definition tc_nvenc_args :: "string \<Rightarrow> string \<Rightarrow> string \<Rightarrow> string list" where
  "tc_nvenc_args src out ts_offset =
     [''-nostdin'', ''-y'', ''-fflags'', ''+genpts'', ''-r'', fps,
      ''-c:v'', ''hevc_cuvid'', ''-f'', ''hevc'', ''-i'', src,
      ''-c:v'', ''h264_nvenc'', ''-preset'', ''p6'', ''-cq'', ''28'', ''-b:v'', ''0'',
      ''-an'',
      ''-output_ts_offset'', ts_offset, ''-muxdelay'', ''0'',
      ''-f'', ''mpegts'', out]"

definition tc_cpu_args :: "string \<Rightarrow> string \<Rightarrow> string \<Rightarrow> string list" where
  "tc_cpu_args src out ts_offset =
     [''-nostdin'', ''-y'', ''-fflags'', ''+genpts'', ''-r'', fps, ''-f'', ''hevc'', ''-i'', src,
      ''-c:v'', ''libx264'', ''-preset'', ''veryfast'', ''-crf'', ''23'', ''-pix_fmt'', ''yuv420p'', ''-an'',
      ''-output_ts_offset'', ts_offset, ''-muxdelay'', ''0'',
      ''-f'', ''mpegts'', out]"

definition tc_gpu_args :: "gpu_backend \<Rightarrow> string \<Rightarrow> string \<Rightarrow> string \<Rightarrow> string list" where
  "tc_gpu_args backend src out ts_offset =
     (case backend of
        Vaapi dev \<Rightarrow> tc_vaapi_args dev src out ts_offset
      | Nvenc \<Rightarrow> tc_nvenc_args src out ts_offset)"

definition audio_args :: "string \<Rightarrow> string \<Rightarrow> string \<Rightarrow> string list" where
  "audio_args src out offset =
     [''-nostdin'', ''-y'', ''-i'', src, ''-vn'', ''-c:a'', ''copy'',
      ''-output_ts_offset'', offset, ''-muxdelay'', ''0'', ''-f'', ''mpegts'', out]"

text \<open>The shift of a segment on the drive's timeline; an \<open>i64\<close> product.\<close>

definition ts_offset_of :: "int \<Rightarrow> int" where
  "ts_offset_of seg = i64_wrap (max seg 0 * segment_secs)"

section \<open>The cache\<close>

definition camera_source :: "string \<Rightarrow> string option" where
  "camera_source cam =
     (if cam = ''fcamera'' then Some ''fcamera.hevc''
      else if cam = ''dcamera'' then Some ''dcamera.hevc''
      else if cam = ''ecamera'' then Some ''ecamera.hevc''
      else None)"

definition cache_path :: "app_state \<Rightarrow> string \<Rightarrow> string \<Rightarrow> int \<Rightarrow> string \<Rightarrow> string" where
  "cache_path st dongle ts seg cam =
     path_join (transcode_dir (cfg st))
       (dongle @ ''_'' @ ts @ ''--'' @ show_int seg @ ''--'' @ cam @ ''.ts'')"

text \<open>\<open>out.with_extension("tmp.ts")\<close> of a path that ends in \<^verbatim>\<open>.ts\<close>.\<close>

definition cache_tmp :: "string \<Rightarrow> string" where
  "cache_tmp out = with_extension ''tmp.ts'' out"

text \<open>\<open>run_ffmpeg\<close>: whatever the run leaves in its output file stays, clean exit or not.\<close>

definition run_ffmpeg :: "media_os \<Rightarrow> string list \<Rightarrow> app_state \<Rightarrow> app_state \<times> bool" where
  "run_ffmpeg os args st =
     (case mo_ffmpeg os (files_on_disk st) args of
        (ok, Some bytes) \<Rightarrow> (st\<lparr>files_on_disk := fs_put (last args) bytes (files_on_disk st)\<rparr>, ok)
      | (ok, None) \<Rightarrow> (st, ok))"

text \<open>Up to the permit: what is served from the cache, and what is missing.\<close>

definition transcode_check ::
    "app_state \<Rightarrow> string \<Rightarrow> string \<Rightarrow> int \<Rightarrow> string \<Rightarrow> (string \<times> string option) res" where
  "transcode_check st dongle ts seg cam =
     (case camera_source cam of
        None \<Rightarrow> Inl (BadRequest (''not a transcodable camera: '' @ cam))
      | Some src_file \<Rightarrow>
          let out = cache_path st dongle ts seg cam; src_key = blob_key dongle ts seg src_file
          in if file_exists st out then Inr (out, None)
             else if \<not> file_exists st (path_for st src_key)
             then Inl (NotFound (''no '' @ src_file @ '' for segment''))
             else if \<not> disk_ok st (transcode_dir (cfg st)) then Inl (Other ''io error'')
             else Inr (out, Some (path_for st src_key)))"

text \<open>
  With the permit, once the cache has been looked at a second time (another request may have filled
  it during the wait): the selected GPU first, the CPU when that fails, into the temporary file.\<close>

definition transcode_encode ::
    "media_os \<Rightarrow> string \<Rightarrow> string \<Rightarrow> int \<Rightarrow> app_state \<Rightarrow> app_state \<times> bool" where
  "transcode_encode os src tmp seg st =
     (let offset = show_int (ts_offset_of seg);
          (st1, ok) = (case current_device st of
              None \<Rightarrow> (st, False)
            | Some dev \<Rightarrow>
                (case run_ffmpeg os (tc_gpu_args (select_backend os dev) src tmp offset) st of
                   (st', ok) \<Rightarrow> (if ok then st' else remove_file tmp st', ok)))
      in if ok then (st1, True) else run_ffmpeg os (tc_cpu_args src tmp offset) st1)"

text \<open>Publishing renames the temporary file; a failed run removes it.\<close>

definition transcode_publish ::
    "string \<Rightarrow> string \<Rightarrow> string \<Rightarrow> bool \<Rightarrow> app_state \<Rightarrow> app_state \<times> string res" where
  "transcode_publish what tmp out ok st =
     (if ok then
        (if file_exists st tmp \<and> disk_ok st out
         then (st\<lparr>files_on_disk := fs_rename tmp out (files_on_disk st)\<rparr>, Inr out)
         else (st, Inl (Other ''io error'')))
      else (remove_file tmp st, Inl (Other what)))"

definition ensure_transcode ::
    "media_os \<Rightarrow> string \<Rightarrow> string \<Rightarrow> int \<Rightarrow> string \<Rightarrow> app_state \<Rightarrow> app_state \<times> string res" where
  "ensure_transcode os dongle ts seg cam st =
     (case transcode_check st dongle ts seg cam of
        Inl e \<Rightarrow> (st, Inl e)
      | Inr (out, None) \<Rightarrow> (st, Inr out)
      | Inr (out, Some src) \<Rightarrow>
          if file_exists st out then (st, Inr out)
          else let (st1, ok) = transcode_encode os src (cache_tmp out) seg st
          in transcode_publish (''ffmpeg transcode failed for '' @ cam) (cache_tmp out) out ok st1)"

text \<open>\<open>ensure_audio\<close>: the qcamera's track copied into its own file.\<close>

definition audio_path :: "app_state \<Rightarrow> string \<Rightarrow> string \<Rightarrow> int \<Rightarrow> string" where
  "audio_path st dongle ts seg =
     path_join (transcode_dir (cfg st)) (dongle @ ''_'' @ ts @ ''--'' @ show_int seg @ ''--audio.ts'')"

definition ensure_audio ::
    "media_os \<Rightarrow> string \<Rightarrow> string \<Rightarrow> int \<Rightarrow> app_state \<Rightarrow> app_state \<times> string res" where
  "ensure_audio os dongle ts seg st =
     (let out = audio_path st dongle ts seg;
          src = path_for st (blob_key dongle ts seg ''qcamera.ts'')
      in if file_exists st out then (st, Inr out)
         else if \<not> file_exists st src then (st, Inl (NotFound ''no qcamera for segment''))
         else if \<not> disk_ok st (transcode_dir (cfg st)) then (st, Inl (Other ''io error''))
         else if file_exists st out then (st, Inr out)
         else let (st1, ok) = run_ffmpeg os (audio_args src (cache_tmp out) (show_int (ts_offset_of seg))) st
              in transcode_publish ''audio extract failed'' (cache_tmp out) out ok st1)"

text \<open>\<open>clean_cache_tmp\<close>: the files directly under the cache directory.\<close>

definition in_dir :: "string \<Rightarrow> string \<Rightarrow> bool" where
  "in_dir dir p =
     (case strip_prefix (dir @ ''/'') p of
        Some n \<Rightarrow> n \<noteq> [] \<and> CHR ''/'' \<notin> set n
      | None \<Rightarrow> False)"

definition is_partial :: "string \<Rightarrow> bool" where
  "is_partial name = (ends_with ''.tmp.ts'' name \<or> ends_with ''.part'' name)"

definition clean_cache_tmp :: "app_state \<Rightarrow> app_state" where
  "clean_cache_tmp st =
     st\<lparr>files_on_disk :=
          filter (\<lambda>(p, _). \<not> (in_dir (transcode_dir (cfg st)) p \<and> is_partial p)) (files_on_disk st)\<rparr>"

definition probe_duration :: "media_os \<Rightarrow> string \<Rightarrow> app_state \<Rightarrow> f64 option" where
  "probe_duration os path st =
     (case mo_ffprobe os (files_on_disk st)
             [''-v'', ''error'', ''-show_entries'', ''format=duration'',
              ''-of'', ''default=nw=1:nk=1'', path] of
        Exited True out _ \<Rightarrow> parse_f64 (trim (mo_lossy os out))
      | _ \<Rightarrow> None)"

section \<open>Lemmas\<close>

lemma last_args [simp]:
  "last (tc_gpu_args b src out off) = out" "last (tc_cpu_args src out off) = out"
  "last (audio_args src out off) = out"
  by (simp_all add: tc_gpu_args_def tc_vaapi_args_def tc_nvenc_args_def tc_cpu_args_def audio_args_def
      split: gpu_backend.split)

lemma rsplit_char_append: "c \<notin> set b \<Longrightarrow> rsplit_once_str [c] (a @ c # b) = Some (a, b)"
  using split_once_char_append[of c "rev b" "rev a"] by (simp add: rsplit_once_str_def)

lemma cache_tmp_ts: "x \<noteq> [] \<Longrightarrow> cache_tmp (x @ ''.ts'') = x @ ''.tmp.ts''"
  using rsplit_char_append[of "CHR ''.''" "''ts''" x] by (simp add: cache_tmp_def with_extension_def)

text \<open>Names in the cache: a stem and \<^verbatim>\<open>.ts\<close>.\<close>

definition stem :: "app_state \<Rightarrow> string \<Rightarrow> string \<Rightarrow> int \<Rightarrow> string \<Rightarrow> string" where
  "stem st dongle ts seg what =
     path_join (transcode_dir (cfg st)) (dongle @ ''_'' @ ts @ ''--'' @ show_int seg @ ''--'' @ what)"

lemma cache_path_stem:
  "cache_path st dongle ts seg cam = stem st dongle ts seg cam @ ''.ts''"
  "audio_path st dongle ts seg = stem st dongle ts seg ''audio'' @ ''.ts''"
  "stem st dongle ts seg what \<noteq> []"
  by (simp_all add: cache_path_def audio_path_def stem_def path_join_def)

lemma cache_tmp_path:
  "cache_tmp (cache_path st dongle ts seg cam) = stem st dongle ts seg cam @ ''.tmp.ts''"
  "cache_tmp (audio_path st dongle ts seg) = stem st dongle ts seg ''audio'' @ ''.tmp.ts''"
  by (simp_all only: cache_path_stem cache_tmp_ts[OF cache_path_stem(3)])

lemma cache_tmp_ne [simp]:
  "cache_tmp (cache_path st dongle ts seg cam) \<noteq> cache_path st dongle ts seg cam"
  "cache_tmp (audio_path st dongle ts seg) \<noteq> audio_path st dongle ts seg"
proof -
  have "x @ ''.tmp.ts'' \<noteq> x @ ''.ts''" for x :: string by simp
  then show "cache_tmp (cache_path st dongle ts seg cam) \<noteq> cache_path st dongle ts seg cam"
    "cache_tmp (audio_path st dongle ts seg) \<noteq> audio_path st dongle ts seg"
    unfolding cache_tmp_path unfolding cache_path_stem(1,2) by blast+
qed

lemmas cache_tmp_ne_sym [simp] = cache_tmp_ne[symmetric]

text \<open>A step that touches at most the given files.\<close>

definition touches :: "string set \<Rightarrow> app_state \<Rightarrow> app_state \<Rightarrow> bool" where
  "touches P st st' \<longleftrightarrow> only_files st st' \<and>
     (\<forall>p. p \<notin> P \<longrightarrow> fs_get (files_on_disk st') p = fs_get (files_on_disk st) p)"

named_theorems touch_intros \<open>steps that touch only the files of a set\<close>

lemma touches_refl [touch_intros]: "touches P st st"
  by (simp add: touches_def)

lemma touches_trans: "touches P a b \<Longrightarrow> touches P b c \<Longrightarrow> touches P a c"
  by (auto simp: touches_def intro: only_files_trans)

lemma touches_mono: "touches P a b \<Longrightarrow> P \<subseteq> Q \<Longrightarrow> touches Q a b"
  by (auto simp: touches_def)

lemma touches_put [touch_intros]: "p \<in> P \<Longrightarrow> touches P st (st\<lparr>files_on_disk := fs_put p c (files_on_disk st)\<rparr>)"
  by (auto simp: touches_def fs_get_put)

lemma touches_remove [touch_intros]: "p \<in> P \<Longrightarrow> touches P st (remove_file p st)"
  by (auto simp: touches_def remove_file_def fs_get_del)

lemma fs_get_rename:
  "fs_get (fs_rename p q fs) r =
    (case fs_get fs p of None \<Rightarrow> fs_get fs r
     | Some c \<Rightarrow> if r = q then Some c else if r = p then None else fs_get fs r)"
  by (auto simp: fs_rename_def fs_simps split: option.split)

lemma touches_rename [touch_intros]:
  "p \<in> P \<Longrightarrow> q \<in> P \<Longrightarrow> touches P st (st\<lparr>files_on_disk := fs_rename p q (files_on_disk st)\<rparr>)"
  by (auto simp: touches_def fs_get_rename split: option.split)

lemma touches_ffmpeg [touch_intros]:
  "last args \<in> P \<Longrightarrow> touches P st (fst (run_ffmpeg os args st))"
  by (auto simp: run_ffmpeg_def touches_put touches_refl split: prod.split option.split)

lemma touches_publish [touch_intros]:
  "tmp \<in> P \<Longrightarrow> out \<in> P \<Longrightarrow> touches P st (fst (transcode_publish what tmp out ok st))"
  by (auto simp: transcode_publish_def intro!: touch_intros)

lemma touches_encode [touch_intros]:
  assumes "tmp \<in> P"
  shows "touches P st (fst (transcode_encode os src tmp seg st))"
proof (cases "current_device st")
  case None
  then show ?thesis using assms by (simp add: transcode_encode_def touches_ffmpeg)
next
  case (Some dev)
  define g where "g = run_ffmpeg os (tc_gpu_args (select_backend os dev) src tmp (show_int (ts_offset_of seg))) st"
  have g: "touches P st (fst g)" using assms by (simp add: g_def touches_ffmpeg)
  show ?thesis
  proof (cases "snd g")
    case True
    then show ?thesis using Some g by (simp add: transcode_encode_def g_def[symmetric] split_beta Let_def)
  next
    case False
    have "touches P (fst g) (remove_file tmp (fst g))" using assms by (rule touches_remove)
    with g have r: "touches P st (remove_file tmp (fst g))" by (rule touches_trans)
    show ?thesis
      using Some False touches_trans[OF r] assms
      by (simp add: transcode_encode_def g_def[symmetric] split_beta Let_def touches_ffmpeg)
  qed
qed

lemma touches_ensure:
  assumes "cache_path st dongle ts seg cam \<in> P" "cache_tmp (cache_path st dongle ts seg cam) \<in> P"
  shows "touches P st (fst (ensure_transcode os dongle ts seg cam st))"
proof -
  have "touches P st (fst (transcode_publish w tmp out ok (fst (transcode_encode os src tmp seg st))))"
    if "tmp \<in> P" "out \<in> P" for w tmp out ok src
    using that touches_encode touches_publish touches_trans by metis
  with assms show ?thesis
    by (simp add: ensure_transcode_def transcode_check_def split_beta Let_def touches_refl split: option.split)
qed

lemma touches_ensure_audio:
  assumes "audio_path st dongle ts seg \<in> P" "cache_tmp (audio_path st dongle ts seg) \<in> P"
  shows "touches P st (fst (ensure_audio os dongle ts seg st))"
proof -
  have "touches P st (fst (transcode_publish w tmp out ok (fst (run_ffmpeg os args st))))"
    if "last args \<in> P" "tmp \<in> P" "out \<in> P" for w tmp out ok args
    using that touches_ffmpeg touches_publish touches_trans by metis
  with assms show ?thesis by (simp add: ensure_audio_def split_beta Let_def touches_refl)
qed

lemma publish_InrD:
  "transcode_publish what tmp out ok st = (st', Inr p) \<Longrightarrow>
    p = out \<and> ok \<and> fs_get (files_on_disk st) tmp \<noteq> None \<and>
    fs_get (files_on_disk st') out = fs_get (files_on_disk st) tmp"
  by (auto simp: transcode_publish_def file_exists_def fs_get_rename split: if_splits)

lemma publish_InlD:
  "transcode_publish what tmp out ok st = (st', Inl e) \<Longrightarrow> tmp \<noteq> out \<Longrightarrow>
    fs_get (files_on_disk st') out = fs_get (files_on_disk st) out"
  by (auto simp: transcode_publish_def remove_file_def fs_simps split: if_splits)

text \<open>What the code relies on: a run of \<^verbatim>\<open>ffmpeg\<close> that exits cleanly has written its output.\<close>

definition writes_output :: "media_os \<Rightarrow> bool" where
  "writes_output os \<longleftrightarrow> (\<forall>fs args. fst (mo_ffmpeg os fs args) \<longrightarrow> snd (mo_ffmpeg os fs args) \<noteq> None)"

lemma run_ffmpeg_ok:
  assumes "writes_output os" and "snd (run_ffmpeg os args st)"
  shows "\<exists>b. mo_ffmpeg os (files_on_disk st) args = (True, Some b) \<and>
    fs_get (files_on_disk (fst (run_ffmpeg os args st))) (last args) = Some b"
proof -
  obtain r where r: "mo_ffmpeg os (files_on_disk st) args = r" by simp
  have "fst r" using assms(2) r by (auto simp: run_ffmpeg_def split: prod.splits option.splits)
  then have "snd r \<noteq> None" using assms(1) r by (auto simp: writes_output_def)
  then obtain b where "r = (True, Some b)" using \<open>fst r\<close> by (cases r) auto
  then show ?thesis using r by (simp add: run_ffmpeg_def fs_get_put)
qed

lemma transcode_encode_ok:
  assumes "writes_output os" and "snd (transcode_encode os src tmp seg st)"
  shows "\<exists>fs args b. mo_ffmpeg os fs args = (True, Some b) \<and> last args = tmp \<and>
    fs_get (files_on_disk (fst (transcode_encode os src tmp seg st))) tmp = Some b"
proof -
  have "\<exists>args st'. snd (run_ffmpeg os args st') \<and> last args = tmp \<and>
      fst (transcode_encode os src tmp seg st) = fst (run_ffmpeg os args st')"
    using assms(2)
    by (simp add: transcode_encode_def split_beta Let_def split: option.splits if_splits)
       (metis last_args)+
  then show ?thesis using run_ffmpeg_ok[OF assms(1)] by metis
qed

lemma transcode_encode_cpu:
  assumes "\<And>fs. fst (mo_ffmpeg os fs (tc_cpu_args src tmp (show_int (ts_offset_of seg))))"
  shows "snd (transcode_encode os src tmp seg st)"
proof -
  have "snd (run_ffmpeg os args st')" if "fst (mo_ffmpeg os (files_on_disk st') args)" for args st'
    using that by (auto simp: run_ffmpeg_def split: prod.split option.split)
  then show ?thesis using assms by (simp add: transcode_encode_def split_beta Let_def split: option.split)
qed

definition demo_media :: media_os where
  "demo_media =
     \<lparr>mo_ffmpeg = (\<lambda>fs args. (True, Some ''h264'')), mo_ffprobe = (\<lambda>fs args. SpawnFailed ''not found''),
      mo_encoders = ''libx264'', mo_dri = [], mo_sys = (\<lambda>_. None), mo_nvidiactl = False,
      mo_nvidia_smi = SpawnFailed ''not found'', mo_vainfo = (\<lambda>_. SpawnFailed ''not found''),
      mo_utf8 = Some, mo_lossy = id\<rparr>"

definition demo_transcode_state :: app_state where
  "demo_transcode_state = blob_write (blob_key ''d'' ''t'' 2 ''fcamera.hevc'') ''hevc'' empty_state"

lemma demo_media_writes: "writes_output demo_media" "fst (mo_ffmpeg demo_media fs args)"
  by (simp_all add: writes_output_def demo_media_def)

lemma demo_transcode_facts:
  "blob_exists demo_transcode_state (blob_key ''d'' ''t'' 2 ''fcamera.hevc'')"
  "disk_ok demo_transcode_state = (\<lambda>_. True)" "settings_tbl demo_transcode_state = []"
  "cfg demo_transcode_state = demo_config"
  by (simp_all add: demo_transcode_state_def blob_exists_def blobs.get_put_same)
     (simp_all add: blob_write_def empty_state_def)

lemma path_for_ne_cache:
  "path_for st key \<noteq> cache_path st dongle ts seg cam" "path_for st key \<noteq> cache_tmp (cache_path st dongle ts seg cam)"
proof -
  have blob: "take (length (c_data_dir (cfg st)) + 2) (path_for st key) = c_data_dir (cfg st) @ ''/b''"
    by (simp add: path_for_def shard_dir_def path_join_def blobs_dir_def Let_def)
  have "take (length (c_data_dir (cfg st)) + 2) (stem st dongle ts seg cam @ x) = c_data_dir (cfg st) @ ''/t''" for x
    by (simp add: stem_def path_join_def transcode_dir_def)
  then have "path_for st key \<noteq> stem st dongle ts seg cam @ x" for x
    using blob by auto
  then show "path_for st key \<noteq> cache_path st dongle ts seg cam"
    "path_for st key \<noteq> cache_tmp (cache_path st dongle ts seg cam)"
    unfolding cache_tmp_path unfolding cache_path_stem(1) by blast+
qed

section \<open>Properties\<close>

text \<open>
  What one request does that nothing interrupts (TranscodeCache has requests side by side). If it makes a
  cache file appear, it was answered with its path, and the file's content is what a run of \<^verbatim>\<open>ffmpeg\<close>
  that exited cleanly wrote; a failed or timed out encode leaves the cache without the file. Apart
  from that file and its temporary, no file changes, and no other part of the state.
\<close>

lemma transcode_publishes_complete:
  assumes os: "writes_output os" and out: "out = cache_path st dongle ts seg cam"
    and new: "\<not> file_exists st out"
    and run: "ensure_transcode os dongle ts seg cam st = (st', r)"
  shows "(case fs_get (files_on_disk st') out of
            Some b \<Rightarrow> r = Inr out \<and> (\<exists>fs args. mo_ffmpeg os fs args = (True, Some b) \<and> last args = cache_tmp out)
          | None \<Rightarrow> \<exists>e. r = Inl e) \<and>
    touches {out, cache_tmp out} st st'"
proof
  show "touches {out, cache_tmp out} st st'"
    using touches_ensure[of st dongle ts seg cam "{out, cache_tmp out}" os] run out by simp
  have none: "fs_get (files_on_disk st) out = None" using new by (simp add: file_exists_def)
  show "case fs_get (files_on_disk st') out of
            Some b \<Rightarrow> r = Inr out \<and> (\<exists>fs args. mo_ffmpeg os fs args = (True, Some b) \<and> last args = cache_tmp out)
          | None \<Rightarrow> \<exists>e. r = Inl e"
  proof (cases "transcode_check st dongle ts seg cam")
    case (Inl e)
    then show ?thesis using run none by (auto simp: ensure_transcode_def)
  next
    case (Inr c)
    with new out obtain src where c: "c = (out, Some src)"
      by (auto simp: transcode_check_def Let_def split: option.splits if_splits)
    define e where "e = transcode_encode os src (cache_tmp out) seg st"
    define p where "p = transcode_publish (''ffmpeg transcode failed for '' @ cam) (cache_tmp out) out (snd e) (fst e)"
    have p: "p = (st', r)"
      using run Inr c new by (simp add: ensure_transcode_def e_def p_def split_beta Let_def)
    have e: "fs_get (files_on_disk (fst e)) out = None"
      using touches_encode[of "cache_tmp out" "{cache_tmp out}" st os src seg] none out
      by (auto simp: touches_def e_def)
    show ?thesis
    proof (cases r)
      case (Inl err)
      then have "fs_get (files_on_disk st') out = None"
        using publish_InlD[OF p[unfolded p_def Inl]] e out by simp
      then show ?thesis using Inl by simp
    next
      case (Inr q)
      then have pub: "q = out \<and> snd e \<and> fs_get (files_on_disk st') out = fs_get (files_on_disk (fst e)) (cache_tmp out)
          \<and> fs_get (files_on_disk (fst e)) (cache_tmp out) \<noteq> None"
        using publish_InrD[OF p[unfolded p_def Inr]] by simp
      then obtain fs args b where "mo_ffmpeg os fs args = (True, Some b) \<and> last args = cache_tmp out"
          "fs_get (files_on_disk (fst e)) (cache_tmp out) = Some b"
        using transcode_encode_ok[OF os, of src "cache_tmp out" seg st] by (auto simp: e_def)
      then show ?thesis using pub Inr by (simp only: option.simps sum.inject) blast
    qed
  qed
qed

lemma transcode_publishes_complete_witness:
  "\<not> file_exists demo_transcode_state (cache_path demo_transcode_state ''d'' ''t'' 2 ''fcamera'') \<and>
   (\<exists>st' r. ensure_transcode demo_media ''d'' ''t'' 2 ''fcamera'' demo_transcode_state = (st', r) \<and>
     touches {cache_path demo_transcode_state ''d'' ''t'' 2 ''fcamera'',
              cache_tmp (cache_path demo_transcode_state ''d'' ''t'' 2 ''fcamera'')} demo_transcode_state st')"
proof -
  have "files_on_disk demo_transcode_state = [(path_for demo_transcode_state (blob_key ''d'' ''t'' 2 ''fcamera.hevc''), ''hevc'')]"
    unfolding demo_transcode_state_def frame_simps
    by (simp add: blob_write_def fs_rename_def fs_put_def fs_get_def fs_del_def empty_state_def)
  then have "\<not> file_exists demo_transcode_state (cache_path demo_transcode_state ''d'' ''t'' 2 ''fcamera'')"
    using path_for_ne_cache(1)[symmetric] by (simp add: file_exists_def fs_get_def)
  then show ?thesis
    using transcode_publishes_complete[OF demo_media_writes(1) refl, of demo_transcode_state "''d''" "''t''" 2 "''fcamera''"]
    by (cases "ensure_transcode demo_media ''d'' ''t'' 2 ''fcamera'' demo_transcode_state") auto
qed

text \<open>
  A GPU failure never breaks playback. For a known camera whose segment is stored, whatever the
  selected device does, if the CPU encode of that segment succeeds then the request is answered with
  the cache file, which exists afterwards, and asking again changes nothing.
\<close>

theorem transcode_falls_back:
  assumes os: "writes_output os" and cam: "camera_source cam = Some src_file"
    and blob: "blob_exists st (blob_key dongle ts seg src_file)"
    and disk: "disk_ok st = (\<lambda>_. True)"
    and cpu: "\<And>fs. fst (mo_ffmpeg os fs (tc_cpu_args (path_for st (blob_key dongle ts seg src_file))
                (cache_tmp (cache_path st dongle ts seg cam)) (show_int (ts_offset_of seg))))"
    and run: "ensure_transcode os dongle ts seg cam st = (st', r)"
  shows "r = Inr (cache_path st dongle ts seg cam) \<and> file_exists st' (cache_path st dongle ts seg cam) \<and>
    ensure_transcode os dongle ts seg cam st' = (st', r)"
proof -
  define out where "out = cache_path st dongle ts seg cam"
  define src where "src = path_for st (blob_key dongle ts seg src_file)"
  have same: "cache_path st' dongle ts seg cam = out"
    using touches_ensure[of st dongle ts seg cam UNIV os] run
    by (simp add: touches_def only_files_frame cache_path_def out_def)
  have "r = Inr out \<and> file_exists st' out"
  proof (cases "file_exists st out")
    case True
    then show ?thesis using run cam by (simp add: ensure_transcode_def transcode_check_def out_def[symmetric] Let_def)
  next
    case False
    define e where "e = transcode_encode os src (cache_tmp out) seg st"
    have ok: "snd e" using transcode_encode_cpu cpu by (simp add: e_def src_def out_def)
    have ex: "file_exists (fst e) (cache_tmp out)"
      using transcode_encode_ok[OF os] ok by (fastforce simp: e_def file_exists_def)
    have "disk_ok (fst e) = (\<lambda>_. True)"
      using touches_encode[of "cache_tmp out" UNIV st os src seg] disk by (simp add: e_def touches_def only_files_frame)
    then have "ensure_transcode os dongle ts seg cam st =
        ((fst e)\<lparr>files_on_disk := fs_rename (cache_tmp out) out (files_on_disk (fst e))\<rparr>, Inr out)"
      using False ok ex cam blob disk
      by (simp add: ensure_transcode_def transcode_check_def out_def[symmetric] src_def[symmetric] e_def[symmetric]
          Let_def split_beta transcode_publish_def blob_exists_def blob_get_def file_exists_def)
    then show ?thesis using run ex by (auto simp: file_exists_def fs_get_rename)
  qed
  then show ?thesis
    using cam same by (auto simp: out_def[symmetric] ensure_transcode_def transcode_check_def Let_def)
qed

theorem transcode_falls_back_witness:
  "\<exists>st'. ensure_transcode demo_media ''d'' ''t'' 2 ''fcamera'' demo_transcode_state =
     (st', Inr (cache_path demo_transcode_state ''d'' ''t'' 2 ''fcamera''))"
proof -
  have "camera_source ''fcamera'' = Some ''fcamera.hevc''" by (simp add: camera_source_def)
  then show ?thesis
    using transcode_falls_back[OF demo_media_writes(1) _ demo_transcode_facts(1,2) demo_media_writes(2), of "''fcamera''"]
    by (metis surj_pair)
qed

text \<open>
  C39: the permits do not serialise requests for one segment. When two requests have both passed the
  second look at the cache, the first to finish renames the shared temporary file away, and the other
  is answered with an error although its encode succeeded and the cache file is there.
\<close>

theorem concurrent_transcode_second_fails:
  assumes os: "writes_output os" and disk: "disk_ok st = (\<lambda>_. True)"
    and cpu: "\<And>fs. fst (mo_ffmpeg os fs (tc_cpu_args src (cache_tmp (cache_path st dongle ts seg cam))
                (show_int (ts_offset_of seg))))"
    and a: "transcode_encode os src (cache_tmp (cache_path st dongle ts seg cam)) seg st = (st1, okA)"
    and b: "transcode_encode os src (cache_tmp (cache_path st dongle ts seg cam)) seg st1 = (st2, okB)"
    and pa: "transcode_publish m (cache_tmp (cache_path st dongle ts seg cam)) (cache_path st dongle ts seg cam) okA st2 = (st3, rA)"
    and pb: "transcode_publish m (cache_tmp (cache_path st dongle ts seg cam)) (cache_path st dongle ts seg cam) okB st3 = (st4, rB)"
  shows "okA \<and> okB \<and> rA = Inr (cache_path st dongle ts seg cam) \<and> rB = Inl (Other ''io error'') \<and>
    file_exists st4 (cache_path st dongle ts seg cam)"
proof -
  define out where "out = cache_path st dongle ts seg cam"
  define tmp where "tmp = cache_tmp out"
  note defs = out_def[symmetric] tmp_def[symmetric]
  have ne: "tmp \<noteq> out" by (simp add: tmp_def out_def)
  have oks: "okA" "okB"
    using transcode_encode_cpu[OF cpu, of st] transcode_encode_cpu[OF cpu, of st1] a b by simp_all
  have "only_files st st1" "only_files st1 st2"
    using touches_encode[of tmp UNIV st os src seg] touches_encode[of tmp UNIV st1 os src seg] a b
    by (simp_all add: defs touches_def)
  then have disk2: "disk_ok st2 = (\<lambda>_. True)" using disk by (metis only_files_frame(15))
  obtain c where c: "fs_get (files_on_disk st2) tmp = Some c"
    using transcode_encode_ok[OF os, of src tmp seg st1] b oks(2) by (auto simp: defs)
  have st3: "st3 = st2\<lparr>files_on_disk := fs_rename tmp out (files_on_disk st2)\<rparr>" "rA = Inr out"
    using pa oks disk2 c by (auto simp: transcode_publish_def defs file_exists_def)
  have "\<not> file_exists st3 tmp" "file_exists st3 out"
    using c ne by (simp_all add: st3 file_exists_def fs_get_rename)
  then show ?thesis using pb oks st3 by (auto simp: transcode_publish_def defs)
qed

theorem concurrent_transcode_second_fails_witness:
  "\<exists>st1 st2 st3 st4 tmp out.
     transcode_encode demo_media ''src'' tmp 2 demo_transcode_state = (st1, True) \<and>
     transcode_encode demo_media ''src'' tmp 2 st1 = (st2, True) \<and>
     transcode_publish ''m'' tmp out True st2 = (st3, Inr out) \<and>
     transcode_publish ''m'' tmp out True st3 = (st4, Inl (Other ''io error'')) \<and> file_exists st4 out"
proof -
  define out where "out = cache_path demo_transcode_state ''d'' ''t'' 2 ''fcamera''"
  define tmp where "tmp = cache_tmp out"
  obtain st1 a where a: "transcode_encode demo_media ''src'' tmp 2 demo_transcode_state = (st1, a)" by fastforce
  obtain st2 b where b: "transcode_encode demo_media ''src'' tmp 2 st1 = (st2, b)" by fastforce
  obtain st3 c where c: "transcode_publish ''m'' tmp out a st2 = (st3, c)" by fastforce
  obtain st4 d where d: "transcode_publish ''m'' tmp out b st3 = (st4, d)" by fastforce
  have "a \<and> b \<and> c = Inr out \<and> d = Inl (Other ''io error'') \<and> file_exists st4 out"
    using concurrent_transcode_second_fails[OF demo_media_writes(1) demo_transcode_facts(2) demo_media_writes(2)]
      a b c d unfolding tmp_def out_def by blast
  then show ?thesis using a b c d by (intro exI[of _ st1] exI[of _ st2] exI[of _ st3] exI[of _ st4] exI[of _ tmp] exI[of _ out]) simp
qed

end
