(* ===== verification/Denoise.thy ===== *)
theory Denoise
  imports Transcode
begin

text \<open>
  \<^verbatim>\<open>src/denoise.rs\<close>: the settings of the speech enhancement and \<open>build_wav\<close>, which
  extracts a drive's audio, sends it to the enhancement server chunk by chunk and joins what comes
  back. The HTTP client is the parameter \<open>http_os\<close>; the chunk loop, shared with
  \<^verbatim>\<open>src/subs.rs\<close>, is a partial function, with its termination proved below.
\<close>

section \<open>HTTP\<close>

text \<open>A response: status code, the status as text, and the body.\<close>

datatype http_result = HttpErr string | HttpResp nat string string

record http_os =
  ht_client :: bool
  ht_get :: "string \<Rightarrow> http_result"
  ht_post :: "string \<Rightarrow> (string \<times> string) list \<Rightarrow> http_result"

definition is_success :: "nat \<Rightarrow> bool" where
  "is_success status = (200 \<le> status \<and> status < 300)"

definition http_up :: "http_os \<Rightarrow> string \<Rightarrow> bool" where
  "http_up ht url =
     (ht_client ht \<and> (case ht_get ht url of HttpResp status _ _ \<Rightarrow> is_success status | HttpErr _ \<Rightarrow> False))"

section \<open>Settings\<close>

definition dn_enabled_key :: string where "dn_enabled_key = ''denoise_enabled''"
definition dn_url_key :: string where "dn_url_key = ''denoise_url''"
definition dn_atten_key :: string where "dn_atten_key = ''denoise_atten_db''"

definition denoise_enabled :: "app_state \<Rightarrow> bool" where
  "denoise_enabled st = setting_flag st dn_enabled_key (c_denoise_enabled (cfg st))"

definition set_denoise_enabled :: "bool \<Rightarrow> app_state \<Rightarrow> app_state" where
  "set_denoise_enabled on st = set_setting_flag dn_enabled_key on st"

text \<open>A server address: the stored one unless blank, trimmed, without trailing slashes.\<close>

definition url_setting :: "app_state \<Rightarrow> string \<Rightarrow> string \<Rightarrow> string" where
  "url_setting st key dflt =
     (let raw = (case settings_get st key of Some s \<Rightarrow> (if trim s = [] then dflt else s) | None \<Rightarrow> dflt)
      in trim_end_matches (CHR ''/'') (trim raw))"

definition set_url_setting :: "string \<Rightarrow> string \<Rightarrow> string \<Rightarrow> app_state \<Rightarrow> app_state \<times> unit res" where
  "set_url_setting key msg url st =
     (let u = trim url
      in if u \<noteq> [] \<and> \<not> (starts_with ''http://'' u \<or> starts_with ''https://'' u)
         then (st, Inl (BadRequest msg))
         else (settings_set key u st, Inr ()))"

definition denoise_url :: "app_state \<Rightarrow> string" where
  "denoise_url st = url_setting st dn_url_key (c_denoise_url (cfg st))"

definition set_denoise_url :: "string \<Rightarrow> app_state \<Rightarrow> app_state \<times> unit res" where
  "set_denoise_url url st = set_url_setting dn_url_key ''denoise url must be http(s)'' url st"

definition atten_db :: "app_state \<Rightarrow> f64 option" where
  "atten_db st =
     (case settings_get st dn_atten_key of
        Some s \<Rightarrow> parse_f64 (trim s)
      | None \<Rightarrow> c_denoise_atten_db (cfg st))"

definition set_atten_db :: "f64 option \<Rightarrow> app_state \<Rightarrow> app_state \<times> unit res" where
  "set_atten_db db st =
     (case db of
        None \<Rightarrow> (settings_set dn_atten_key [] st, Inr ())
      | Some v \<Rightarrow>
          if \<not> (f_le f_zero v \<and> f_le v (Fin 100))
          then (st, Inl (BadRequest ''denoise attenuation must be 0-100 dB''))
          else (settings_set dn_atten_key (show_f64 v) st, Inr ()))"

definition denoise_probe :: "http_os \<Rightarrow> app_state \<Rightarrow> bool" where
  "denoise_probe ht st = (denoise_url st \<noteq> [] \<and> http_up ht (denoise_url st @ ''/health''))"

record denoise_settings =
  ds_enabled :: bool
  ds_url :: string
  ds_atten :: "f64 option"
  ds_reachable :: bool

definition denoise_settings_json :: "http_os \<Rightarrow> app_state \<Rightarrow> denoise_settings" where
  "denoise_settings_json ht st =
     \<lparr>ds_enabled = denoise_enabled st, ds_url = denoise_url st, ds_atten = atten_db st,
      ds_reachable = denoise_probe ht st\<rparr>"

section \<open>Files and arguments\<close>

definition safe_name :: "string \<Rightarrow> string" where
  "safe_name s = map (\<lambda>c. if is_ascii_alphanumeric c then c else CHR ''_'') s"

definition workdir :: "app_state \<Rightarrow> string \<Rightarrow> string" where
  "workdir st fullname = path_join (path_join (c_data_dir (cfg st)) ''denoise-work'') (safe_name fullname)"

text \<open>\<open>remove_dir_all\<close>.\<close>

definition under :: "string \<Rightarrow> string \<Rightarrow> bool" where
  "under dir p = prefix (dir @ ''/'') p"

definition cleanup :: "string \<Rightarrow> app_state \<Rightarrow> app_state" where
  "cleanup dir st = st\<lparr>files_on_disk := filter (\<lambda>(p, _). \<not> under dir p) (files_on_disk st)\<rparr>"

definition file_len :: "app_state \<Rightarrow> string \<Rightarrow> nat" where
  "file_len st p = (case fs_get (files_on_disk st) p of Some c \<Rightarrow> length c | None \<Rightarrow> 0)"

definition nonempty :: "app_state \<Rightarrow> string \<Rightarrow> bool" where
  "nonempty st p = (0 < file_len st p)"

definition concat_input :: "string list \<Rightarrow> string" where
  "concat_input paths = ''concat:'' @ join_with ''|'' paths"

text \<open>\<open>if lead > 0.01 { adelay }\<close>.\<close>

definition adelay_args :: "f64 \<Rightarrow> string list" where
  "adelay_args lead =
     (if f_lt (rnd (1 / 100)) lead
      then [''-af'', ''adelay='' @ show_int (f_to_i64 (f_mul lead (Fin 1000))) @ '':all=1'']
      else [])"

definition extract_args :: "string \<Rightarrow> string list \<Rightarrow> f64 \<Rightarrow> string \<Rightarrow> string list" where
  "extract_args rate paths lead out =
     [''-nostdin'', ''-y'', ''-fflags'', ''+genpts'', ''-i'', concat_input paths, ''-vn''] @
     adelay_args lead @
     [''-ac'', ''1'', ''-ar'', rate, ''-c:a'', ''pcm_s16le'', out]"

definition extract_wav :: "media_os \<Rightarrow> string \<Rightarrow> string list \<Rightarrow> f64 \<Rightarrow> string \<Rightarrow> app_state \<Rightarrow> app_state \<times> bool" where
  "extract_wav os rate paths lead out st =
     (let (st1, ok) = run_ffmpeg os (extract_args rate paths lead out) st
      in (st1, ok \<and> nonempty st1 out))"

definition chunk_secs :: f64 where "chunk_secs = Fin 300"

definition slice_args :: "string \<Rightarrow> f64 \<Rightarrow> f64 \<Rightarrow> string \<Rightarrow> string list" where
  "slice_args src start len out =
     [''-nostdin'', ''-y'', ''-ss'', show_f64 start, ''-t'', show_f64 len, ''-i'', src, ''-c'', ''copy'', out]"

definition slice_wav :: "media_os \<Rightarrow> string \<Rightarrow> f64 \<Rightarrow> f64 \<Rightarrow> string \<Rightarrow> app_state \<Rightarrow> app_state \<times> bool" where
  "slice_wav os src start len out st =
     (let (st1, ok) = run_ffmpeg os (slice_args src start len out) st
      in (st1, ok \<and> 1024 < file_len st1 out))"

definition list_body :: "string list \<Rightarrow> string" where
  "list_body parts = concat (map (\<lambda>p. ''file '' @ [CHR 0x27] @ p @ [CHR 0x27] @ [CHR 0x0A]) parts)"

definition join_args :: "string \<Rightarrow> string \<Rightarrow> string list" where
  "join_args lst out =
     [''-nostdin'', ''-y'', ''-f'', ''concat'', ''-safe'', ''0'', ''-i'', lst, ''-c'', ''copy'', out]"

definition concat_wavs :: "media_os \<Rightarrow> string list \<Rightarrow> string \<Rightarrow> string \<Rightarrow> app_state \<Rightarrow> app_state \<times> bool" where
  "concat_wavs os parts out dir st =
     (let lst = path_join dir ''parts.txt''
      in if \<not> disk_ok st lst then (st, False)
         else let st1 = st\<lparr>files_on_disk := fs_put lst (list_body parts) (files_on_disk st)\<rparr>;
                  (st2, ok) = run_ffmpeg os (join_args lst out) st1
              in (remove_file lst st2, ok \<and> nonempty st2 out))"

section \<open>One chunk\<close>

definition denoise_endpoint :: "string \<Rightarrow> f64 option \<Rightarrow> string" where
  "denoise_endpoint url atten =
     (case atten of
        Some db \<Rightarrow> url @ ''/denoise?atten_lim_db='' @ show_f64 db
      | None \<Rightarrow> url @ ''/denoise'')"

definition enhance ::
    "http_os \<Rightarrow> string \<Rightarrow> f64 option \<Rightarrow> string \<Rightarrow> string \<Rightarrow> app_state \<Rightarrow> app_state \<times> bool" where
  "enhance ht url atten src out st =
     (case fs_get (files_on_disk st) src of
        None \<Rightarrow> (st, False)
      | Some bytes \<Rightarrow>
        (case ht_post ht (denoise_endpoint url atten) [(''file'', bytes)] of
           HttpErr _ \<Rightarrow> (st, False)
         | HttpResp status _ body \<Rightarrow>
             if \<not> is_success status then (st, False)
             else if length body < 1024 then (st, False)
             else if \<not> disk_ok st out then (st, False)
             else (st\<lparr>files_on_disk := fs_put out body (files_on_disk st)\<rparr>, True)))"

text \<open>How a pass through the loop body ends: go on, \<open>break\<close>, or return from the function.\<close>

datatype 'e flow = Next | Break | Return 'e

partial_function (option) chunk_loop ::
    "(f64 \<Rightarrow> 's \<Rightarrow> 's \<times> 'e flow) \<Rightarrow> f64 \<Rightarrow> f64 \<Rightarrow> 's \<Rightarrow> ('s \<times> 'e flow) option" where
  "chunk_loop body len offset s =
     (if f_lt offset (f_max len (rnd (1 / 1000)))
      then (case body offset s of
              (s', Next) \<Rightarrow> chunk_loop body len (f_add offset chunk_secs) s'
            | (s', Break) \<Rightarrow> Some (s', Break)
            | (s', Return e) \<Rightarrow> Some (s', Return e))
      else Some (s, Next))"

definition chunk_file :: "string \<Rightarrow> string \<Rightarrow> f64 \<Rightarrow> string" where
  "chunk_file dir what offset = path_join dir (what @ ''-'' @ show_int (f_to_i64 offset) @ ''.wav'')"

definition denoise_chunk ::
    "media_os \<Rightarrow> http_os \<Rightarrow> string \<Rightarrow> f64 option \<Rightarrow> string \<Rightarrow> f64 \<Rightarrow>
     app_state \<times> string list \<Rightarrow> (app_state \<times> string list) \<times> unit flow" where
  "denoise_chunk os ht url atten dir offset s =
     (let (st, parts) = s;
          chunk = chunk_file dir ''chunk'' offset;
          clean = chunk_file dir ''clean'' offset;
          (st1, cut) = slice_wav os (path_join dir ''raw.wav'') offset chunk_secs chunk st
      in if \<not> cut then ((st1, parts), Break)
         else case enhance ht url atten chunk clean st1 of
                (st2, True) \<Rightarrow> ((remove_file chunk st2, parts @ [clean]), Next)
              | (st2, False) \<Rightarrow> ((st2, parts), Return ()))"

text \<open>Joining the cleaned chunks; without any, or when that fails, the raw audio is kept.\<close>

definition join_parts ::
    "media_os \<Rightarrow> string list \<Rightarrow> string \<Rightarrow> app_state \<Rightarrow> app_state \<times> string option" where
  "join_parts os parts dir st =
     (if parts = [] then (st, None)
      else let out = path_join dir ''clean.wav'';
               (st1, ok) = concat_wavs os parts out dir st
           in if \<not> ok then (st1, None)
              else (fold remove_file parts (remove_file (path_join dir ''raw.wav'') st1), Some out))"

text \<open>\<open>build_wav\<close>; the outer \<open>None\<close> is a chunk loop that never ends.\<close>

definition build_wav ::
    "media_os \<Rightarrow> http_os \<Rightarrow> string list \<Rightarrow> f64 \<Rightarrow> string \<Rightarrow> app_state \<Rightarrow>
     (app_state \<times> string option) option" where
  "build_wav os ht paths lead dir st =
     (if paths = [] \<or> \<not> denoise_enabled st then Some (st, None)
      else if denoise_url st = [] then Some (st, None)
      else if \<not> disk_ok st dir then Some (st, None)
      else let raw = path_join dir ''raw.wav'';
               (st1, got) = extract_wav os ''48000'' paths lead raw st
           in if \<not> got then Some (st1, None)
              else let len = (case probe_duration os raw st1 of Some d \<Rightarrow> d | None \<Rightarrow> f_zero)
                   in if \<not> ht_client ht then Some (st1, None)
                      else case chunk_loop (denoise_chunk os ht (denoise_url st) (atten_db st) dir)
                                  len f_zero (st1, []) of
                             None \<Rightarrow> None
                           | Some ((st2, parts), Return _) \<Rightarrow> Some (st2, None)
                           | Some ((st2, parts), _) \<Rightarrow> Some (join_parts os parts dir st2))"

section \<open>Termination of the chunk loop\<close>

text \<open>Offsets are whole multiples of 300 seconds, exact up to \<open>2 ^ 53\<close>.\<close>

definition chunk_offset :: "nat \<Rightarrow> f64" where
  "chunk_offset k = Fin (of_nat (300 * k))"

lemma chunk_offset_0: "chunk_offset 0 = f_zero"
  by (simp add: chunk_offset_def)

lemma chunk_offset_Suc: "300 * (k + 1) \<le> 2 ^ 53 \<Longrightarrow> f_add (chunk_offset k) chunk_secs = chunk_offset (Suc k)"
proof -
  assume "300 * (k + 1) \<le> 2 ^ 53"
  then have "int (300 * Suc k) \<le> 2 ^ 53" by (metis Suc_eq_plus1 of_nat_le_iff of_nat_numeral of_nat_power)
  then have "f_of_int (int (300 * Suc k)) = Fin (of_int (int (300 * Suc k)))" by (intro rnd_int) simp
  then show ?thesis
    by (simp add: chunk_offset_def chunk_secs_def f_of_int_def algebra_simps)
qed

text \<open>
  The loop ends for every length below \<open>2 ^ 50\<close> seconds, in at most as many passes as there are
  chunks, and the passes it makes are at the offsets 0, 300, 600 and so on.
\<close>

lemma chunk_loop_from:
  assumes len: "f_max len (rnd (1 / 1000)) = Fin l" "l \<le> of_nat (300 * m)" and m: "300 * m \<le> 2 ^ 53"
  shows "k \<le> m \<Longrightarrow> \<exists>r. chunk_loop body len (chunk_offset k) s = Some r"
proof (induction "m - k" arbitrary: k s)
  case 0
  then have "\<not> f_lt (chunk_offset k) (Fin l)" using len(2) by (simp add: chunk_offset_def)
  then show ?case using len(1) by (subst chunk_loop.simps) simp
next
  case (Suc d)
  then have k: "Suc k \<le> m" "d = m - Suc k" by simp_all
  then have "300 * (k + 1) \<le> 300 * m" by simp
  then have "300 * (k + 1) \<le> 2 ^ 53" using m by (rule le_trans)
  then have step: "f_add (chunk_offset k) chunk_secs = chunk_offset (Suc k)" by (rule chunk_offset_Suc)
  show ?case
    using Suc.hyps(1)[OF k(2) k(1)]
    by (subst chunk_loop.simps) (simp add: step split: prod.split flow.split)
qed

lemma chunk_loop_ends:
  assumes "f_max len (rnd (1 / 1000)) = Fin l" and "l \<le> 2 ^ 50"
  shows "\<exists>r. chunk_loop body len f_zero s = Some r"
proof -
  have "l \<le> of_nat (300 * (2 ^ 44))" using assms(2) by simp
  then show ?thesis
    using chunk_loop_from[OF assms(1), of "2 ^ 44" 0 body s] by (simp add: chunk_offset_0)
qed

section \<open>Lemmas\<close>

lemma under_join [simp]: "under dir (path_join dir x)"
  by (simp add: under_def path_join_def)

lemma under_chunk [simp]: "under dir (chunk_file dir what off)"
  by (simp add: chunk_file_def)

lemma last_args_denoise [simp]:
  "last (extract_args rate paths lead out) = out" "last (slice_args src start len out) = out"
  "last (join_args lst out) = out"
  by (simp_all add: extract_args_def slice_args_def join_args_def)

lemma touches_extract [touch_intros]: "out \<in> P \<Longrightarrow> touches P st (fst (extract_wav os rate paths lead out st))"
  by (simp add: extract_wav_def split_beta Let_def touches_ffmpeg)

lemma touches_slice [touch_intros]: "out \<in> P \<Longrightarrow> touches P st (fst (slice_wav os src start len out st))"
  by (simp add: slice_wav_def split_beta Let_def touches_ffmpeg)

lemma touches_enhance [touch_intros]: "out \<in> P \<Longrightarrow> touches P st (fst (enhance ht url atten src out st))"
  by (auto simp: enhance_def intro: touch_intros split: option.split http_result.split)

lemma touches_concat [touch_intros]:
  assumes "out \<in> P" "path_join dir ''parts.txt'' \<in> P"
  shows "touches P st (fst (concat_wavs os parts out dir st))"
proof -
  have "touches P st (fst (run_ffmpeg os args (st\<lparr>files_on_disk := fs_put l c (files_on_disk st)\<rparr>)))"
    if "l \<in> P" "last args \<in> P" for l c args
    using touches_trans[OF touches_put[OF that(1)] touches_ffmpeg[OF that(2)]] .
  then have "touches P st (remove_file l (fst (run_ffmpeg os args (st\<lparr>files_on_disk := fs_put l c (files_on_disk st)\<rparr>))))"
    if "l \<in> P" "last args \<in> P" for l c args
    using that touches_trans touches_remove by metis
  then show ?thesis using assms by (simp add: concat_wavs_def split_beta Let_def touches_refl)
qed

lemma touches_fold_remove [touch_intros]: "set ps \<subseteq> P \<Longrightarrow> touches P st (fold remove_file ps st)"
proof (induction ps arbitrary: st)
  case (Cons p ps)
  then have "touches P st (remove_file p st)" "touches P (remove_file p st) (fold remove_file ps (remove_file p st))"
    by (simp_all add: touches_remove)
  then show ?case using touches_trans by auto
qed (simp add: touches_refl)

lemma touches_join [touch_intros]:
  assumes "set parts \<subseteq> {p. under dir p}"
  shows "touches {p. under dir p} st (fst (join_parts os parts dir st))"
proof (cases "parts = []")
  case True
  then show ?thesis by (simp add: join_parts_def touches_refl)
next
  case False
  define c where "c = concat_wavs os parts (path_join dir ''clean.wav'') dir st"
  have c: "touches {p. under dir p} st (fst c)" by (simp add: c_def touches_concat)
  have r: "touches {p. under dir p} (fst c) (remove_file (path_join dir ''raw.wav'') (fst c))"
    by (simp add: touches_remove)
  have f: "touches {p. under dir p} st (fold remove_file parts (remove_file (path_join dir ''raw.wav'') (fst c)))"
    using touches_trans[OF touches_trans[OF c r] touches_fold_remove[OF assms]] .
  show ?thesis using False c f by (simp add: join_parts_def c_def[symmetric] split_beta Let_def)
qed

text \<open>An invariant of the loop body holds of what the loop returns.\<close>

lemma chunk_loop_invariant:
  assumes body: "\<And>off s. I s \<Longrightarrow> I (fst (body off s))"
    and run: "chunk_loop body len off s = Some r" and start: "I s"
  shows "I (fst r)"
proof -
  have "(\<forall>off s. I s \<longrightarrow> I (fst (body off s))) \<longrightarrow> I s \<longrightarrow> I (fst r)"
  proof (rule chunk_loop.raw_induct[OF _ run,
        where P = "\<lambda>body len off s r. (\<forall>off s. I s \<longrightarrow> I (fst (body off s))) \<longrightarrow> I s \<longrightarrow> I (fst r)"])
    fix loop :: "(f64 \<Rightarrow> 'a \<Rightarrow> 'a \<times> 'b flow) \<Rightarrow> f64 \<Rightarrow> f64 \<Rightarrow> 'a \<Rightarrow> ('a \<times> 'b flow) option"
      and body :: "f64 \<Rightarrow> 'a \<Rightarrow> 'a \<times> 'b flow" and len off s r
    assume IH: "\<And>body len off s r. loop body len off s = Some r \<Longrightarrow>
        (\<forall>off s. I s \<longrightarrow> I (fst (body off s))) \<longrightarrow> I s \<longrightarrow> I (fst r)"
      and step: "(if f_lt off (f_max len (rnd (1 / 1000)))
        then case body off s of (s', Next) \<Rightarrow> loop body len (f_add off chunk_secs) s'
             | (s', Break) \<Rightarrow> Some (s', Break) | (s', Return e) \<Rightarrow> Some (s', Return e)
        else Some (s, Next)) = Some r"
    show "(\<forall>off s. I s \<longrightarrow> I (fst (body off s))) \<longrightarrow> I s \<longrightarrow> I (fst r)"
    proof (intro impI)
      assume b: "\<forall>off s. I s \<longrightarrow> I (fst (body off s))" and s: "I s"
      obtain s' f where sf: "body off s = (s', f)" by fastforce
      have "I s'" using b s sf by (metis fst_conv)
      then show "I (fst r)"
        using IH[of body len "f_add off chunk_secs" s' r] step b s sf by (cases f) (auto split: if_splits)
    qed
  qed
  then show ?thesis using body start by blast
qed

text \<open>The pieces collected are chunk files under the working directory, and nothing else is touched.\<close>

lemma denoise_chunk_touches:
  assumes "denoise_chunk os ht url atten dir off (st, parts) = ((st', parts'), f)"
  shows "touches {p. under dir p} st st' \<and> (parts' = parts \<or> parts' = parts @ [chunk_file dir ''clean'' off])"
proof -
  let ?P = "{p. under dir p}"
  define c where "c = slice_wav os (path_join dir ''raw.wav'') off chunk_secs (chunk_file dir ''chunk'' off) st"
  define e where "e = enhance ht url atten (chunk_file dir ''chunk'' off) (chunk_file dir ''clean'' off) (fst c)"
  have c: "touches ?P st (fst c)" by (simp add: c_def touches_slice)
  have e: "touches ?P st (fst e)"
    using touches_trans[OF c] by (simp add: e_def touches_enhance)
  have r: "touches ?P st (remove_file (chunk_file dir ''chunk'' off) (fst e))"
    using touches_trans[OF e] by (simp add: touches_remove)
  have "denoise_chunk os ht url atten dir off (st, parts) =
      (if \<not> snd c then ((fst c, parts), Break)
       else if snd e then ((remove_file (chunk_file dir ''chunk'' off) (fst e), parts @ [chunk_file dir ''clean'' off]), Next)
       else ((fst e, parts), Return ()))"
    by (simp add: denoise_chunk_def c_def e_def split_beta Let_def split: bool.split)
  with assms c e r show ?thesis by (auto split: if_splits)
qed

lemma build_wav_touches:
  assumes "build_wav os ht paths lead dir st = Some (st', r)"
  shows "touches {p. under dir p} st st'"
proof (cases "paths = [] \<or> \<not> denoise_enabled st \<or> denoise_url st = [] \<or> \<not> disk_ok st dir")
  case True
  then show ?thesis using assms by (auto simp: build_wav_def touches_refl split: if_splits)
next
  case False
  let ?P = "{p. under dir p}"
  define x where "x = extract_wav os ''48000'' paths lead (path_join dir ''raw.wav'') st"
  have x: "touches ?P st (fst x)" by (simp add: x_def touches_extract)
  show ?thesis
  proof (cases "snd x \<and> ht_client ht")
    case no: False
    then show ?thesis using False assms x
      by (auto simp: build_wav_def x_def[symmetric] split_beta Let_def split: if_splits)
  next
    case yes: True
    define len where "len = (case probe_duration os (path_join dir ''raw.wav'') (fst x) of Some d \<Rightarrow> d | None \<Rightarrow> f_zero)"
    define body where "body = denoise_chunk os ht (denoise_url st) (atten_db st) dir"
    have run: "(case chunk_loop body len f_zero (fst x, []) of
             None \<Rightarrow> None
           | Some ((st2, parts), Return _) \<Rightarrow> Some (st2, None)
           | Some ((st2, parts), _) \<Rightarrow> Some (join_parts os parts dir st2)) = Some (st', r)"
      using assms False yes
      by (simp add: build_wav_def x_def[symmetric] body_def len_def split_beta Let_def)
    then obtain st2 parts f where l: "chunk_loop body len f_zero (fst x, []) = Some ((st2, parts), f)"
      by (auto split: option.splits)
    define I where "I = (\<lambda>s :: app_state \<times> string list. touches ?P st (fst s) \<and> set (snd s) \<subseteq> ?P)"
    have "I (st2, parts)"
    proof -
      have "I (fst (body off s))" if "I s" for off s
        using that denoise_chunk_touches[of os ht "denoise_url st" "atten_db st" dir off "fst s" "snd s"] touches_trans
        by (cases "body off s") (fastforce simp: I_def body_def)
      then show ?thesis
        using chunk_loop_invariant[of I body len f_zero "(fst x, [])", OF _ l] x by (simp add: I_def)
    qed
    then show ?thesis
      using run l touches_trans[OF _ touches_join, of dir st st2 parts os] by (cases f) (auto simp: I_def)
  qed
qed

lemma cleanup_get: "fs_get (files_on_disk (cleanup dir st)) p = (if under dir p then None else fs_get (files_on_disk st) p)"
proof -
  have "map_of (filter (\<lambda>(p, _). \<not> Q p) fs) p = (if Q p then None else map_of fs p)" for Q :: "string \<Rightarrow> bool" and fs :: files
    by (induction fs) auto
  then show ?thesis by (simp add: cleanup_def fs_get_def)
qed

lemma touches_cleanup [touch_intros]: "{p. under dir p} \<subseteq> P \<Longrightarrow> touches P st (cleanup dir st)"
proof -
  assume P: "{p. under dir p} \<subseteq> P"
  have "only_files st (cleanup dir st)" by (simp add: cleanup_def)
  then show ?thesis using P by (auto simp: touches_def cleanup_get)
qed

section \<open>Properties\<close>

text \<open>A duration the loop is certain to get through: anything but an infinite or astronomical one.\<close>

definition sane_duration :: "f64 option \<Rightarrow> bool" where
  "sane_duration d = (case d of None \<Rightarrow> True | Some x \<Rightarrow> x = NaN \<or> f_le x (Fin (2 ^ 50)))"

lemma rnd_thousandth: "\<exists>q. rnd (1 / 1000) = Fin q \<and> q \<le> 1"
proof -
  have "f_le (rnd (1 / 1000)) (rnd 1)" by (rule rnd_mono) simp
  moreover have "rnd 1 = Fin 1" using rnd_int[of 1] by (simp add: f_of_int_def)
  moreover have "f_le f_zero (rnd (1 / 1000))" by (rule rnd_nonneg) simp
  ultimately show ?thesis by (cases "rnd (1 / 1000)") auto
qed

lemma sane_duration_max:
  assumes "sane_duration d"
  shows "\<exists>l. f_max (case d of Some x \<Rightarrow> x | None \<Rightarrow> f_zero) (rnd (1 / 1000)) = Fin l \<and> l \<le> 2 ^ 50"
proof -
  obtain q where q: "rnd (1 / 1000) = Fin q" "q \<le> 1" using rnd_thousandth by blast
  define x where "x = (case d of Some x \<Rightarrow> x | None \<Rightarrow> f_zero)"
  have "x = NaN \<or> f_le x (Fin (2 ^ 50))" using assms by (cases d) (auto simp: sane_duration_def x_def)
  then show ?thesis using q unfolding x_def[symmetric] by (cases x) (auto simp: f_max_def)
qed

lemma build_wav_not_None:
  assumes "\<And>fs. sane_duration (probe_duration os (path_join dir ''raw.wav'') fs)"
  shows "build_wav os ht paths lead dir st \<noteq> None"
proof -
  have loop: "\<exists>s f. chunk_loop body (case probe_duration os (path_join dir ''raw.wav'') st1 of Some d \<Rightarrow> d | None \<Rightarrow> f_zero)
      f_zero s0 = Some (s, f)" for body :: "f64 \<Rightarrow> 's \<Rightarrow> 's \<times> 'e flow" and st1 s0
    using chunk_loop_ends sane_duration_max[OF assms] by (metis surj_pair)
  define x where "x = extract_wav os ''48000'' paths lead (path_join dir ''raw.wav'') st"
  obtain s2 parts f where "chunk_loop (denoise_chunk os ht (denoise_url st) (atten_db st) dir)
      (case probe_duration os (path_join dir ''raw.wav'') (fst x) of Some d \<Rightarrow> d | None \<Rightarrow> f_zero)
      f_zero (fst x, []) = Some ((s2, parts), f)"
    using loop by (metis surj_pair)
  then show ?thesis
    by (simp add: build_wav_def x_def[symmetric] split_beta Let_def split: flow.split)
qed

text \<open>
  C32: the enhancement always returns to its caller, with the joined WAV or with the order to keep the
  raw audio, whatever the tools, the server and the disk do, as long as the probed length is not an
  infinite or absurd number; and it changes nothing outside its working directory.
\<close>

theorem build_wav_returns:
  assumes "\<And>fs. sane_duration (probe_duration os (path_join dir ''raw.wav'') fs)"
  shows "\<exists>st' r. build_wav os ht paths lead dir st = Some (st', r) \<and> touches {p. under dir p} st st'"
  using build_wav_not_None[OF assms] build_wav_touches by (metis not_Some_eq surj_pair)

theorem build_wav_returns_witness:
  "\<exists>st' r. build_wav demo_media \<lparr>ht_client = True, ht_get = (\<lambda>_. HttpErr []), ht_post = (\<lambda>_ _. HttpErr [])\<rparr>
     [''a.ts''] f_zero ''/w'' (set_denoise_enabled True empty_state) = Some (st', r)"
proof -
  have "sane_duration (probe_duration demo_media p fs)" for p fs
    by (simp add: probe_duration_def demo_media_def sane_duration_def)
  then show ?thesis using build_wav_returns by blast
qed

end
