(* ===== verification/Vtt.thy ===== *)
theory Vtt
  imports F64Text
begin

text \<open>
  The WebVTT part of \<^verbatim>\<open>src/subs.rs\<close>: parsing what whisper answers, moving cues onto
  the drive's timeline, and rendering the document. The main result is that a rendered document
  parses back to its cues.
\<close>

record cue =
  cue_start :: f64
  cue_end :: f64
  cue_text :: string

section \<open>Parsing\<close>

text \<open>\<open>split_whitespace().next()\<close>.\<close>

fun until_ws :: "string \<Rightarrow> string" where
  "until_ws [] = []"
| "until_ws (c # s) =
     (if find (\<lambda>p. prefix p (c # s)) ws_list \<noteq> None then [] else c # until_ws s)"

definition first_word :: "string \<Rightarrow> string option" where
  "first_word s = (let w = until_ws (trim_start s) in if w = [] then None else Some w)"

fun add_parts :: "f64 \<Rightarrow> string list \<Rightarrow> f64 option" where
  "add_parts secs [] = Some secs"
| "add_parts secs (p # ps) =
     (case parse_f64 p of
        None \<Rightarrow> None
      | Some x \<Rightarrow> add_parts (f_add (f_mul secs (Fin 60)) x) ps)"

definition parse_ts :: "string \<Rightarrow> f64 option" where
  "parse_ts s =
     (case first_word (replace_char (CHR '','') ''.'' (trim s)) of
        None \<Rightarrow> None
      | Some w \<Rightarrow>
          let parts = split_on (CHR '':'') w
          in if parts = [] \<or> 3 < length parts then None else add_parts f_zero parts)"

text \<open>The text of a cue: the lines up to a blank one.\<close>

fun take_text :: "string list \<Rightarrow> string list \<times> string list" where
  "take_text [] = ([], [])"
| "take_text (l # ls) =
     (if trim l = [] then ([], l # ls)
      else let (t, r) = take_text ls in (trim l # t, r))"

lemma take_text_length: "length (snd (take_text ls)) \<le> length ls"
  by (induction ls) (auto simp: split_beta Let_def)

function parse_cues :: "string list \<Rightarrow> cue list" where
  "parse_cues [] = []"
| "parse_cues (line # ls) =
     (case split_once_str ''-->'' line of
        None \<Rightarrow> parse_cues ls
      | Some (a, b) \<Rightarrow>
        (case (parse_ts a, parse_ts b) of
           (Some st, Some en) \<Rightarrow>
             (let (text, rest) = take_text ls; t = join_with [CHR 0x0A] text
              in (if t \<noteq> [] then [\<lparr>cue_start = st, cue_end = en, cue_text = t\<rparr>] else []) @ parse_cues rest)
         | _ \<Rightarrow> parse_cues ls))"
  by pat_completeness auto
termination
  by (relation "measure length") (auto simp: less_Suc_eq_le, metis snd_conv take_text_length)

definition parse_vtt :: "string \<Rightarrow> cue list" where
  "parse_vtt body = parse_cues (lines_of body)"

definition shift :: "cue list \<Rightarrow> f64 \<Rightarrow> cue list" where
  "shift cues offset =
     map (\<lambda>c. \<lparr>cue_start = f_add (cue_start c) offset, cue_end = f_add (cue_end c) offset,
              cue_text = cue_text c\<rparr>) cues"

section \<open>Rendering\<close>

definition fmt_ts :: "f64 \<Rightarrow> string" where
  "fmt_ts t =
     (let t = f_max t f_zero;
          h = f_to_i64 (f_floor (f_div t (Fin 3600)));
          m = f_to_i64 (f_floor (f_div (f_rem t (Fin 3600)) (Fin 60)));
          s = f_rem t (Fin 60)
      in pad_left 2 (CHR ''0'') (show_int h) @ '':'' @ pad_left 2 (CHR ''0'') (show_int m) @ '':'' @
         fmt_fixed3 6 s)"

definition render_cue :: "cue \<Rightarrow> string" where
  "render_cue c =
     fmt_ts (cue_start c) @ '' --> '' @ fmt_ts (cue_end c) @ [CHR 0x0A] @ cue_text c @ [CHR 0x0A, CHR 0x0A]"

definition render_vtt :: "cue list \<Rightarrow> string" where
  "render_vtt cues = ''WEBVTT'' @ [CHR 0x0A, CHR 0x0A] @ concat (map render_cue cues)"

section \<open>Times read back\<close>

text \<open>
  Times on the grid of eighths of a second, below \<open>2 ^ 40\<close>: exact in binary and in milliseconds.
  Arithmetic on them does not round.
\<close>

definition eighth :: "int \<Rightarrow> rat" where
  "eighth k = of_int k / 8"

lemma rnd_multiple:
  assumes "\<bar>k\<bar> \<le> 2 ^ 53" and "- 1000 \<le> s" and "s \<le> 0"
  shows "rnd (of_int k * pow2 s) = Fin (of_int k * pow2 s)"
proof -
  have g: "grid 53 (- 1022) (of_int k * pow2 s) = of_int k * pow2 s"
    by (rule grid_exact[of 53 _ k s]) (use assms in simp_all)
  have "\<bar>of_int k\<bar> \<le> (2 ^ 53 :: rat)"
    using assms(1) by (metis of_int_abs of_int_le_iff of_int_numeral of_int_power)
  moreover have "pow2 s \<le> 1" using pow2_mono[OF assms(3)] by (simp add: pow2_def[of 0])
  ultimately have "\<bar>of_int k * pow2 s\<bar> \<le> 2 ^ 53"
    by (simp add: abs_mult) (metis mult_mono' abs_ge_zero less_imp_le mult.right_neutral pow2_pos)
  also have "... < pow2 1024" by (simp add: pow2_def)
  finally show ?thesis using g by (auto simp: rnd_def round_to_grid abs_if split: if_splits)
qed

lemma rnd_eighth: "\<bar>k\<bar> \<le> 2 ^ 53 \<Longrightarrow> rnd (eighth k) = Fin (eighth k)"
  using rnd_multiple[of k "- 3"] by (simp add: eighth_def pow2_def)

lemma rnd_of_int: "\<bar>k\<bar> \<le> 2 ^ 53 \<Longrightarrow> rnd (of_int k) = Fin (of_int k)"
  using rnd_multiple[of k 0] by (simp add: pow2_def)

text \<open>Rounding a quotient with a small denominator does not cross an integer.\<close>

lemma floor_rnd:
  assumes "0 < d" "d \<le> 2 ^ 15" "0 \<le> k" "k < 2 ^ 37"
  shows "\<exists>v. rnd (of_int k / of_int d) = Fin v \<and> \<lfloor>v\<rfloor> = k div d"
proof -
  define n where "n = k div d"
  have "nat k div nat d \<le> nat k" by (rule div_le_dividend)
  then have n: "0 \<le> n" "n \<le> k"
    using assms by (simp_all add: n_def pos_imp_zdiv_nonneg_iff nat_div_distrib[symmetric])
  have n53: "\<bar>n\<bar> \<le> 2 ^ 53" using n assms(4) by simp
  have lo: "of_int n \<le> (of_int k / of_int d :: rat)"
    using of_int_floor_le[of "of_int k / of_int d :: rat"] by (simp add: n_def floor_divide_of_int_eq)
  have "k \<le> (n + 1) * d - 1"
  proof -
    have "k = n * d + k mod d" "k mod d < d" using assms(1) by (simp_all add: n_def)
    then show ?thesis by (simp only: distrib_right mult_1)
  qed
  then have "(of_int k :: rat) \<le> of_int ((n + 1) * d - 1)" by (simp only: of_int_le_iff)
  then have "(of_int k :: rat) \<le> of_int (n + 1) * of_int d - 1" by simp
  then have hi: "of_int k / of_int d \<le> (of_int (n + 1) - 1 / of_int d :: rat)"
    using assms(1) by (simp add: field_simps)
  have "(1 / 2 ^ 15 :: rat) \<le> 1 / of_int d"
  proof -
    have "(of_int d :: rat) \<le> of_int (2 ^ 15)" using assms(2) by (simp only: of_int_le_iff)
    then show ?thesis using assms(1) by (simp add: field_simps)
  qed
  then have "of_int k / of_int d \<le> (of_int (n + 1) - 1 / 2 ^ 15 :: rat)" using hi by linarith
  also have "... = of_int ((n + 1) * 2 ^ 15 - 1) * pow2 (- 15)" by (simp add: pow2_def field_simps)
  finally have hi2: "of_int k / of_int d \<le> (of_int ((n + 1) * 2 ^ 15 - 1) * pow2 (- 15) :: rat)" .
  have "\<bar>(n + 1) * 2 ^ 15 - 1\<bar> \<le> (2 ^ 53 :: int)" using n assms(4) by simp
  then have "rnd (of_int ((n + 1) * 2 ^ 15 - 1) * pow2 (- 15)) = Fin (of_int ((n + 1) * 2 ^ 15 - 1) * pow2 (- 15))"
    by (rule rnd_multiple) simp_all
  then have up: "f_le (rnd (of_int k / of_int d)) (Fin (of_int ((n + 1) * 2 ^ 15 - 1) * pow2 (- 15)))"
    using rnd_mono[OF hi2] by simp
  have down: "f_le (Fin (of_int n)) (rnd (of_int k / of_int d))"
    using rnd_mono[OF lo] rnd_of_int[OF n53] by simp
  obtain v where v: "rnd (of_int k / of_int d) = Fin v"
    using up down by (cases "rnd (of_int k / of_int d :: rat)") simp_all
  have "v < of_int (n + 1)" using up by (simp add: v pow2_def)
  then have "\<lfloor>v\<rfloor> = n" using down by (intro floor_unique) (simp_all add: v)
  then show ?thesis using v by (simp add: n_def)
qed

lemma f_rem_eighth:
  assumes "0 < d" "0 \<le> k"
  shows "f_rem (Fin (eighth k)) (Fin (of_int d)) = Fin (eighth (k mod (8 * d)))"
proof -
  have "eighth k / of_int d = of_int k / of_int (8 * d)" by (simp add: eighth_def)
  moreover have "0 \<le> k div (8 * d)" using assms by (simp add: pos_imp_zdiv_nonneg_iff)
  ultimately have "trunc_rat (eighth k / of_int d) = k div (8 * d)"
    using assms by (simp only: trunc_rat_def floor_divide_of_int_eq) simp
  moreover have "eighth (k mod (8 * d)) = eighth k - of_int d * of_int (k div (8 * d))"
  proof -
    have "k mod (8 * d) = k - 8 * d * (k div (8 * d))" by (simp add: minus_mult_div_eq_mod[symmetric])
    then have "(of_int (k mod (8 * d)) :: rat) = of_int (k - 8 * d * (k div (8 * d)))" by (simp only:)
    then show ?thesis by (simp add: eighth_def field_simps)
  qed
  ultimately show ?thesis using assms by simp
qed

lemma floor_part:
  assumes "0 < d" "8 * d \<le> 2 ^ 15" "0 \<le> k" "k < 2 ^ 37"
  shows "f_to_i64 (f_floor (f_div (Fin (eighth k)) (Fin (of_int d)))) = k div (8 * d)"
proof -
  have e: "eighth k / of_int d = of_int k / of_int (8 * d)" by (simp add: eighth_def)
  obtain v where v: "rnd (of_int k / of_int (8 * d)) = Fin v" "\<lfloor>v\<rfloor> = k div (8 * d)"
    using floor_rnd[of "8 * d" k] assms by auto
  have "nat k div nat (8 * d) \<le> nat k" by (rule div_le_dividend)
  then have "0 \<le> k div (8 * d)" "k div (8 * d) \<le> k"
    using assms by (simp_all add: pos_imp_zdiv_nonneg_iff nat_div_distrib[symmetric])
  then show ?thesis
    using assms v unfolding e[symmetric] by (simp add: trunc_rat_def i64_max_def i64_min_def)
qed

lemma fmt_ts_eighth:
  assumes "0 \<le> k" "k < 2 ^ 37"
  shows "fmt_ts (Fin (eighth k)) =
    pad_left 2 (CHR ''0'') (show_int (k div 28800)) @ '':'' @
    pad_left 2 (CHR ''0'') (show_int (k mod 28800 div 480)) @ '':'' @
    pad_left 6 (CHR ''0'') (render_dec (nat (125 * (k mod 480))) 3)"
proof -
  have mx: "f_max (Fin (eighth k)) f_zero = Fin (eighth k)"
    using assms(1) by (simp add: f_max_def eighth_def)
  have h: "f_to_i64 (f_floor (f_div (Fin (eighth k)) (Fin 3600))) = k div 28800"
    using floor_part[of 3600 k] assms by simp
  have "0 \<le> k mod 28800" "k mod 28800 < 2 ^ 37"
    using pos_mod_sign[of 28800 k] pos_mod_bound[of 28800 k] by simp_all
  then have m: "f_to_i64 (f_floor (f_div (f_rem (Fin (eighth k)) (Fin 3600)) (Fin 60))) = k mod 28800 div 480"
    using floor_part[of 60 "k mod 28800"] f_rem_eighth[of 3600 k] assms by simp
  have s: "f_rem (Fin (eighth k)) (Fin 60) = Fin (eighth (k mod 480))"
    using f_rem_eighth[of 60 k] assms by simp
  have "eighth (k mod 480) * 1000 = of_int (125 * (k mod 480))" by (simp add: eighth_def)
  then show ?thesis
    unfolding fmt_ts_def Let_def mx h m s fmt_fixed3_def by (simp del: of_int_mult)
qed

section \<open>Strings of digits, colons and points\<close>

definition time_char :: "char \<Rightarrow> bool" where
  "time_char c = (is_ascii_digit c \<or> c = CHR '':'' \<or> c = CHR ''.'')"

lemma ws_no_time_char: "list_all (\<lambda>p. p \<noteq> [] \<and> \<not> time_char (hd p) \<and> \<not> time_char (last p)) ws_list"
  by code_simp

lemma ws_prefix_time: "time_char c \<Longrightarrow> p \<in> set ws_list \<Longrightarrow> \<not> prefix p (c # s) \<and> \<not> prefix (rev p) (c # s)"
proof -
  assume "time_char c" "p \<in> set ws_list"
  then have p: "p \<noteq> []" "hd p \<noteq> c" "hd (rev p) \<noteq> c" "rev p \<noteq> []"
    using ws_no_time_char by (auto simp: list_all_iff hd_rev)
  have "hd q = c" if "prefix q (c # s)" "q \<noteq> []" for q using that by (cases q) auto
  then show ?thesis using p by blast
qed

lemma trim_any_stop: "(\<And>p. p \<in> set ps \<Longrightarrow> p \<noteq> [] \<Longrightarrow> \<not> prefix p s) \<Longrightarrow> trim_any ps s = s"
proof -
  assume "\<And>p. p \<in> set ps \<Longrightarrow> p \<noteq> [] \<Longrightarrow> \<not> prefix p s"
  then have "find (\<lambda>p. p \<noteq> [] \<and> prefix p s) ps = None" by (auto simp: find_None_iff)
  then show ?thesis by (simp add: trim_any.simps)
qed

lemma trim_any_Nil [simp]: "trim_any ps [] = []"
  by (rule trim_any_stop) simp

lemma trim_any_space:
  "trim_any ws_list (CHR '' '' # s) = trim_any ws_list s"
  "trim_any (map rev ws_list) (CHR '' '' # s) = trim_any (map rev ws_list) s"
  by (subst trim_any.simps, simp add: ws_list_def)+

lemma trim_time:
  assumes "\<forall>c \<in> set x. time_char c"
  shows "trim x = x" "trim (x @ '' '') = x" "trim (CHR '' '' # x) = x" "trim_start x = x"
proof -
  have 1: "trim_any ws_list (x @ y) = x @ y" if "x \<noteq> []" for y
    using assms that ws_prefix_time by (intro trim_any_stop) (cases x, auto)
  have 2: "trim_any (map rev ws_list) (rev x) = rev x"
    using assms ws_prefix_time by (intro trim_any_stop) (cases x rule: rev_cases, auto)
  show "trim_start x = x" using 1[of "[]"] by (cases "x = []") (simp_all add: trim_start_def)
  then show "trim x = x" "trim (CHR '' '' # x) = x"
    using 2 by (simp_all add: trim_def trim_end_def trim_start_def trim_any_space)
  have "trim_any ws_list '' '' = []" by (simp add: trim_any_space)
  then show "trim (x @ '' '') = x"
    using 1[of "'' ''"] 2 by (cases "x = []") (simp_all add: trim_def trim_end_def trim_start_def trim_any_space)
qed

lemma until_ws_time: "\<forall>c \<in> set x. time_char c \<Longrightarrow> until_ws x = x"
  using ws_prefix_time by (induction x) (auto simp: find_None_iff)

lemma replace_char_id: "c \<notin> set s \<Longrightarrow> replace_char c r s = s"
  by (induction s) (auto simp: replace_char_def)

section \<open>A formatted time parses to itself\<close>

lemma parse_f64_digit: "is_ascii_digit c \<Longrightarrow> parse_f64 (c # t) = map_option rnd (parse_dec (c # t))"
  by (auto simp: parse_f64_def parse_unsigned_digits is_ascii_digit_def code_def)

lemma pad_left_first:
  "\<exists>c t. s = c # t \<and> is_ascii_digit c \<Longrightarrow> \<exists>c t. pad_left w (CHR ''0'') s = c # t \<and> is_ascii_digit c"
  by (cases "w - length s") (auto simp: pad_left_def)

lemma show_nonneg_digits: "0 \<le> h \<Longrightarrow> \<forall>c \<in> set (pad_left 2 (CHR ''0'') (show_int h)). is_ascii_digit c"
  using pad_left_digits show_int_nonneg_digits by blast

lemma parse_two_digits:
  assumes "0 \<le> h" "h \<le> 2 ^ 53"
  shows "parse_f64 (pad_left 2 (CHR ''0'') (show_int h)) = Some (Fin (of_int h))"
proof -
  let ?s = "pad_left 2 (CHR ''0'') (show_int h)"
  have "show_int h \<noteq> []" by simp
  then obtain c t where ct: "?s = c # t"
    by (cases ?s) (simp_all add: pad_left_def)
  then have c: "is_ascii_digit c" using show_nonneg_digits[OF assms(1)] by simp
  have "digits_value ?s = nat h" using assms(1) by (simp add: digits_value_pad show_int_def)
  moreover have "parse_dec ?s = Some (of_nat (digits_value ?s))"
    using ct show_nonneg_digits[OF assms(1)] by (intro parse_dec_digits) simp_all
  ultimately have "parse_dec ?s = Some (of_int h)" using assms(1) by simp
  then show ?thesis using ct parse_f64_digit[OF c, of t] rnd_of_int[of h] assms by simp
qed

lemma parse_seconds:
  assumes "0 \<le> k" "k < 2 ^ 50"
  shows "parse_f64 (pad_left 6 (CHR ''0'') (render_dec (nat (125 * k)) 3)) = Some (Fin (eighth k))"
proof -
  let ?s = "pad_left 6 (CHR ''0'') (render_dec (nat (125 * k)) 3)"
  obtain c t where ct: "?s = c # t" "is_ascii_digit c" using pad_left_first[OF render_first] by blast
  have "dec_rat (int (nat (125 * k))) 3 = eighth k"
    using assms(1) by (simp add: dec_rat_def pow10_def eighth_def)
  then have "parse_dec ?s = Some (eighth k)" using parse_dec_padded[of 3 6 "nat (125 * k)"] by simp
  then show ?thesis using ct parse_f64_digit[OF ct(2), of t] rnd_eighth[of k] assms by simp
qed

lemma render_dec_chars: "c \<in> set (pad_left w (CHR ''0'') (render_dec m 3)) \<Longrightarrow> is_ascii_digit c \<or> c = CHR ''.''"
proof -
  assume c: "c \<in> set (pad_left w (CHR ''0'') (render_dec m 3))"
  obtain s n where s: "render_dec m 3 = take n s @ CHR ''.'' # drop n s" "\<forall>c \<in> set s. is_ascii_digit c"
    by (rule render_dec_point[of 3 m]) simp_all
  show ?thesis
    using c s(2) unfolding s(1) by (auto simp: pad_left_def dest: in_set_takeD in_set_dropD split: if_splits)
qed

lemma fmt_ts_chars:
  assumes "0 \<le> k" "k < 2 ^ 37"
  shows "\<forall>c \<in> set (fmt_ts (Fin (eighth k))). time_char c"
proof -
  have "0 \<le> k div 28800" "0 \<le> k mod 28800 div 480"
    using assms(1) by (simp_all add: pos_imp_zdiv_nonneg_iff)
  then show ?thesis
    unfolding fmt_ts_eighth[OF assms]
    using show_nonneg_digits render_dec_chars by (fastforce simp: time_char_def)
qed

lemma not_colon: "is_ascii_digit c \<Longrightarrow> c \<noteq> CHR '':'' \<and> c \<noteq> CHR '','' \<and> c \<noteq> CHR ''.''"
  by (auto simp: is_ascii_digit_def code_def)

lemma split_fmt_ts:
  assumes "0 \<le> k" "k < 2 ^ 37"
  shows "split_on (CHR '':'') (fmt_ts (Fin (eighth k))) =
    [pad_left 2 (CHR ''0'') (show_int (k div 28800)),
     pad_left 2 (CHR ''0'') (show_int (k mod 28800 div 480)),
     pad_left 6 (CHR ''0'') (render_dec (nat (125 * (k mod 480))) 3)]"
proof -
  have "0 \<le> k div 28800" "0 \<le> k mod 28800 div 480"
    using assms(1) by (simp_all add: pos_imp_zdiv_nonneg_iff)
  then have 1: "CHR '':'' \<notin> set (pad_left 2 (CHR ''0'') (show_int (k div 28800)))"
    "CHR '':'' \<notin> set (pad_left 2 (CHR ''0'') (show_int (k mod 28800 div 480)))"
    using show_nonneg_digits not_colon by blast+
  have 2: "CHR '':'' \<notin> set (pad_left 6 (CHR ''0'') (render_dec (nat (125 * (k mod 480))) 3))"
  proof
    assume "CHR '':'' \<in> set (pad_left 6 (CHR ''0'') (render_dec (nat (125 * (k mod 480))) 3))"
    then show False using render_dec_chars not_colon by fastforce
  qed
  show ?thesis
    unfolding fmt_ts_eighth[OF assms] using split_on_append[OF 1(1)] split_on_append[OF 1(2)] split_on_none[OF 2]
    by simp
qed

lemma parse_ts_fmt:
  assumes k: "0 \<le> k" "k < 2 ^ 37"
  shows "parse_ts (fmt_ts (Fin (eighth k)) @ '' '') = Some (Fin (eighth k))"
    and "parse_ts (CHR '' '' # fmt_ts (Fin (eighth k))) = Some (Fin (eighth k))"
proof -
  let ?w = "fmt_ts (Fin (eighth k))"
  note w = fmt_ts_chars[OF k]
  have h: "0 \<le> k div 28800" "k div 28800 \<le> 2 ^ 37"
    using k by (simp_all add: pos_imp_zdiv_nonneg_iff)
  have m: "0 \<le> k mod 28800 div 480" "k mod 28800 div 480 \<le> 60"
    by (simp_all add: pos_imp_zdiv_nonneg_iff)
  have s: "0 \<le> k mod 480" "k mod 480 < 480" by simp_all
  have H: "f_add (f_mul f_zero (Fin 60)) (Fin (of_int (k div 28800))) = Fin (of_int (k div 28800))"
    using rnd_of_int[of "k div 28800"] h by simp
  have M: "f_add (f_mul (Fin (of_int (k div 28800))) (Fin 60)) (Fin (of_int (k mod 28800 div 480))) =
      Fin (of_int (60 * (k div 28800) + k mod 28800 div 480))"
    using rnd_of_int[of "60 * (k div 28800)"] rnd_of_int[of "60 * (k div 28800) + k mod 28800 div 480"] h m
    by (simp add: mult.commute)
  have tot: "480 * (60 * (k div 28800) + k mod 28800 div 480) + k mod 480 = k"
  proof -
    have "k mod 480 = k mod 28800 mod 480" by (simp add: mod_mod_cancel)
    then show ?thesis by (simp add: algebra_simps)
  qed
  define q where "q = 60 * (k div 28800) + k mod 28800 div 480"
  have q: "0 \<le> q" "q \<le> 2 ^ 44" using h m by (simp_all add: q_def)
  have S: "f_add (f_mul (Fin (of_int q)) (Fin 60)) (Fin (eighth (k mod 480))) = Fin (eighth k)"
  proof -
    have "of_int (60 * q) + eighth (k mod 480) = eighth k"
      using tot by (simp add: eighth_def q_def[symmetric] field_simps)
    then show ?thesis using rnd_of_int[of "60 * q"] rnd_eighth[of k] q k by (simp add: mult.commute)
  qed
  have nc: "CHR '','' \<notin> set ?w" using w not_colon by (fastforce simp: time_char_def)
  have ne: "?w \<noteq> []" using split_fmt_ts[OF k] by (metis list.distinct(1) list.inject split_on.simps(1))
  have "first_word (replace_char (CHR '','') ''.'' ?w) = Some ?w"
    using ne by (simp add: replace_char_id[OF nc] first_word_def trim_time[OF w] until_ws_time[OF w])
  then have "parse_ts x = Some (Fin (eighth k))" if "trim x = ?w" for x
  proof -
    have "k div 28800 \<le> 2 ^ 53" "k mod 28800 div 480 \<le> 2 ^ 53" "k mod 480 < 2 ^ 50" using h m s by simp_all
    then have "add_parts f_zero (split_on (CHR '':'') ?w) = Some (Fin (eighth k))"
      unfolding split_fmt_ts[OF k] add_parts.simps parse_two_digits[OF h(1)] parse_two_digits[OF m(1)]
        parse_seconds[OF s(1)] option.case H M q_def[symmetric] S
      by (simp only: parse_two_digits[OF h(1)] parse_two_digits[OF m(1)] parse_seconds[OF s(1)]
          option.case H M q_def[symmetric] S)
    moreover have "length (split_on (CHR '':'') ?w) = 3" by (simp only: split_fmt_ts[OF k]) simp
    moreover have "parse_ts x = add_parts f_zero (split_on (CHR '':'') ?w)"
      if "length (split_on (CHR '':'') ?w) = 3"
      unfolding parse_ts_def \<open>trim x = ?w\<close> \<open>first_word (replace_char (CHR '','') ''.'' ?w) = Some ?w\<close>
      using that by (auto simp: Let_def)
    ultimately show ?thesis by simp
  qed
  then show "parse_ts (?w @ '' '') = Some (Fin (eighth k))" "parse_ts (CHR '' '' # ?w) = Some (Fin (eighth k))"
    using trim_time[OF w] by simp_all
qed

section \<open>A rendered document parses back\<close>

definition unlines :: "string list \<Rightarrow> string" where
  "unlines ls = concat (map (\<lambda>l. l @ [CHR 0x0A]) ls)"

lemma unlines_simps [simp]:
  "unlines [] = []" "unlines (l # ls) = l @ CHR 0x0A # unlines ls" "unlines (a @ b) = unlines a @ unlines b"
  by (simp_all add: unlines_def)

lemma unlines_concat: "unlines (concat ls) = concat (map unlines ls)"
  by (induction ls) simp_all

text \<open>A line without line feed and without a trailing carriage return.\<close>

definition plain_line :: "string \<Rightarrow> bool" where
  "plain_line l = (CHR 0x0A \<notin> set l \<and> strip_cr l = l)"

lemma lines_of_unlines:
  assumes "\<forall>l \<in> set ls. plain_line l" shows "lines_of (unlines ls) = ls"
proof -
  have "split_on (CHR 0x0A) (unlines ls) = ls @ [[]]"
    using assms by (induction ls) (simp_all add: plain_line_def split_on_append)
  moreover have "map strip_cr ls = ls"
    using assms by (induction ls) (simp_all add: plain_line_def)
  ultimately show ?thesis by (simp add: lines_of_def Let_def)
qed

lemma join_split: "join_with [c] (split_on c s) = s"
proof (induction s)
  case (Cons x s)
  then show ?case by (cases "split_on c s" rule: list.exhaust; cases "tl (split_on c s)") auto
qed simp

lemma split_on_no_sep: "l \<in> set (split_on c s) \<Longrightarrow> c \<notin> set l"
  by (induction s arbitrary: l) (auto split: list.splits if_splits)

text \<open>
  Cues the documents are made of: times on the grid, and a text whose lines are trimmed and not
  empty, as \<open>parse_vtt\<close> produces them.
\<close>

definition grid_time :: "f64 \<Rightarrow> bool" where
  "grid_time t = (case t of Fin q \<Rightarrow> (\<exists>k \<in> {0..<2 ^ 37}. q = eighth k) | _ \<Rightarrow> False)"

definition valid_text :: "string \<Rightarrow> bool" where
  "valid_text t = list_all (\<lambda>l. l \<noteq> [] \<and> trim l = l) (split_on (CHR 0x0A) t)"

definition valid_cue :: "cue \<Rightarrow> bool" where
  "valid_cue c = (grid_time (cue_start c) \<and> grid_time (cue_end c) \<and> valid_text (cue_text c))"

definition cue_lines :: "cue \<Rightarrow> string list" where
  "cue_lines c =
     [fmt_ts (cue_start c) @ '' --> '' @ fmt_ts (cue_end c)] @ split_on (CHR 0x0A) (cue_text c) @ [[]]"

lemma unlines_join: "ls \<noteq> [] \<Longrightarrow> unlines ls = join_with [CHR 0x0A] ls @ [CHR 0x0A]"
  by (induction ls rule: induct_list012) simp_all

lemma render_cue_lines: "render_cue c = unlines (cue_lines c)"
  by (simp add: render_cue_def cue_lines_def unlines_join join_split)

lemma render_vtt_lines: "render_vtt cues = unlines ([''WEBVTT'', []] @ concat (map cue_lines cues))"
proof -
  have "render_cue = (\<lambda>c. unlines (cue_lines c))" by (rule ext) (rule render_cue_lines)
  then show ?thesis by (simp add: render_vtt_def unlines_concat comp_def)
qed

text \<open>White space at the end: a trimmed line has no trailing carriage return.\<close>

lemma trim_any_suffix: "\<exists>x. s = x @ trim_any ps s"
proof (induction ps s rule: trim_any.induct)
  case (1 ps s)
  show ?case
  proof (cases "find (\<lambda>p. p \<noteq> [] \<and> prefix p s) ps")
    case None
    then show ?thesis by (simp add: trim_any.simps)
  next
    case (Some p)
    then obtain x where "drop (length p) s = x @ trim_any ps (drop (length p) s)" using 1 by blast
    moreover have "s = p @ drop (length p) s" using Some by (auto simp: find_Some_iff prefix_def)
    moreover have "trim_any ps s = trim_any ps (drop (length p) s)" using Some by (simp add: trim_any.simps)
    ultimately show ?thesis by (metis append.assoc)
  qed
qed

lemma trimmed_end: "trim l = l \<Longrightarrow> trim_end l = l"
proof -
  assume t: "trim l = l"
  obtain x where "l = x @ trim_start l" using trim_any_suffix unfolding trim_start_def by blast
  then have 1: "length l = length x + length (trim_start l)" by (metis length_append)
  obtain y where "rev (trim_start l) = y @ trim_any (map rev ws_list) (rev (trim_start l))"
    using trim_any_suffix by blast
  then have "length (rev (trim_start l)) = length y + length (trim_any (map rev ws_list) (rev (trim_start l)))"
    by (metis length_append)
  then have "length (trim_start l) = length y + length (trim l)" by (simp add: trim_def trim_end_def)
  with 1 t have "x = []" by simp
  with \<open>l = x @ trim_start l\<close> have "trim_start l = l" by simp
  then show ?thesis using t by (simp add: trim_def)
qed

lemma trim_plain_line: "CHR 0x0A \<notin> set l \<Longrightarrow> trim l = l \<Longrightarrow> plain_line l"
proof -
  assume lf: "CHR 0x0A \<notin> set l" and t: "trim l = l"
  have "strip_cr l = l"
  proof (cases l rule: rev_cases)
    case (snoc k c)
    have "c \<noteq> CHR 0x0D"
    proof
      assume c: "c = CHR 0x0D"
      have "trim_any (map rev ws_list) (CHR 0x0D # rev k) = trim_any (map rev ws_list) (rev k)"
        by (subst trim_any.simps) (simp add: ws_list_def)
      then have "trim_end l = rev (trim_any (map rev ws_list) (rev k))" by (simp add: trim_end_def snoc c)
      moreover obtain y where "rev k = y @ trim_any (map rev ws_list) (rev k)" using trim_any_suffix by blast
      then have "length (trim_any (map rev ws_list) (rev k)) \<le> length k" by (metis length_append length_rev le_add2)
      ultimately have "length (trim_end l) < length l" by (simp add: snoc)
      then show False using trimmed_end[OF t] by simp
    qed
    then show ?thesis by (simp add: strip_cr_def snoc)
  qed (simp add: strip_cr_def)
  then show ?thesis using lf by (simp add: plain_line_def)
qed

lemma take_text_lines:
  "list_all (\<lambda>l. l \<noteq> [] \<and> trim l = l) ls \<Longrightarrow> take_text (ls @ [] # rest) = (ls, [] # rest)"
proof (induction ls)
  case Nil
  have "trim [] = []" by (simp add: trim_def trim_start_def trim_end_def)
  then show ?case by simp
qed simp

lemma split_once_arrow:
  "CHR ''>'' \<notin> set a \<Longrightarrow> split_once_str ''-->'' (a @ ''-->'' @ b) = Some (a, b)"
proof (rule split_once_str_append)
  assume a: "CHR ''>'' \<notin> set a"
  show "\<not> sublist ''-->'' (a @ butlast ''-->'')"
  proof
    assume "sublist ''-->'' (a @ butlast ''-->'')"
    then have "set ''-->'' \<subseteq> set (a @ butlast ''-->'')" by (rule set_mono_sublist)
    then show False using a by auto
  qed
qed simp

lemma grid_timeE:
  assumes "grid_time t" obtains k where "0 \<le> k" "k < 2 ^ 37" "t = Fin (eighth k)"
  using assms by (auto simp: grid_time_def split: f64.splits)

lemma parse_cues_cue:
  assumes "valid_cue c"
  shows "parse_cues (cue_lines c @ rest) = c # parse_cues rest"
proof -
  obtain j where j: "0 \<le> j" "j < 2 ^ 37" "cue_start c = Fin (eighth j)"
    using assms grid_timeE by (auto simp: valid_cue_def)
  obtain k where k: "0 \<le> k" "k < 2 ^ 37" "cue_end c = Fin (eighth k)"
    using assms grid_timeE by (auto simp: valid_cue_def)
  let ?a = "fmt_ts (cue_start c) @ '' ''" and ?b = "CHR '' '' # fmt_ts (cue_end c)"
  have "CHR ''>'' \<notin> set ?a" using fmt_ts_chars[OF j(1,2)] j(3) by (auto simp: time_char_def is_ascii_digit_def code_def)
  then have sp: "split_once_str ''-->'' (fmt_ts (cue_start c) @ '' --> '' @ fmt_ts (cue_end c)) = Some (?a, ?b)"
    using split_once_arrow[of ?a ?b] by simp
  have ts: "parse_ts ?a = Some (cue_start c)" "parse_ts ?b = Some (cue_end c)"
    using parse_ts_fmt(1)[OF j(1,2)] parse_ts_fmt(2)[OF k(1,2)] j(3) k(3) by simp_all
  have tx: "take_text (split_on (CHR 0x0A) (cue_text c) @ [] # rest) = (split_on (CHR 0x0A) (cue_text c), [] # rest)"
    using assms by (intro take_text_lines) (simp add: valid_cue_def valid_text_def)
  have ne: "cue_text c \<noteq> []" using assms by (auto simp: valid_cue_def valid_text_def)
  have lines: "cue_lines c @ rest = (fmt_ts (cue_start c) @ '' --> '' @ fmt_ts (cue_end c)) #
      (split_on (CHR 0x0A) (cue_text c) @ [] # rest)"
    by (simp add: cue_lines_def)
  have blank: "parse_cues ([] # rest) = parse_cues rest" by simp
  have "parse_cues (cue_lines c @ rest) =
      [\<lparr>cue_start = cue_start c, cue_end = cue_end c, cue_text = cue_text c\<rparr>] @ parse_cues ([] # rest)"
    unfolding lines parse_cues.simps(2) sp ts tx option.case prod.case Let_def join_split using ne by simp
  then show ?thesis unfolding blank by simp
qed

lemma cue_lines_plain:
  assumes "valid_cue c" "l \<in> set (cue_lines c)" shows "plain_line l"
proof -
  obtain j where j: "0 \<le> j" "j < 2 ^ 37" "cue_start c = Fin (eighth j)"
    using assms(1) grid_timeE by (auto simp: valid_cue_def)
  obtain k where k: "0 \<le> k" "k < 2 ^ 37" "cue_end c = Fin (eighth k)"
    using assms(1) grid_timeE by (auto simp: valid_cue_def)
  have nl: "time_char x \<Longrightarrow> x \<noteq> CHR 0x0A \<and> x \<noteq> CHR 0x0D" for x
    by (auto simp: time_char_def is_ascii_digit_def code_def)
  have "fmt_ts (cue_end c) \<noteq> []"
    unfolding k(3) fmt_ts_eighth[OF k(1,2)] by simp
  then have "last (fmt_ts (cue_end c)) \<noteq> CHR 0x0D"
    using fmt_ts_chars[OF k(1,2)] nl k(3) last_in_set by metis
  then have time: "plain_line (fmt_ts (cue_start c) @ '' --> '' @ fmt_ts (cue_end c))"
    using fmt_ts_chars[OF j(1,2)] fmt_ts_chars[OF k(1,2)] nl j(3) k(3) \<open>fmt_ts (cue_end c) \<noteq> []\<close>
    by (fastforce simp: plain_line_def strip_cr_def)
  have body: "plain_line l" if "l \<in> set (split_on (CHR 0x0A) (cue_text c))"
    using that assms(1) split_on_no_sep trim_plain_line
    by (auto simp: valid_cue_def valid_text_def list_all_iff)
  show ?thesis
    using assms(2) time body by (auto simp: cue_lines_def plain_line_def strip_cr_def)
qed

section \<open>Properties\<close>

text \<open>
  C20: a rendered transcript parses back to exactly its cues, in order, for any number of cues with
  any trimmed multi-line text, when the times lie on the grid of eighths of a second below
  \<open>2 ^ 34\<close> seconds (where neither binary nor millisecond rounding loses anything).
\<close>

theorem vtt_roundtrip:
  assumes "list_all valid_cue cues"
  shows "parse_vtt (render_vtt cues) = cues"
proof -
  have "\<forall>l \<in> set ([''WEBVTT'', []] @ concat (map cue_lines cues)). plain_line l"
  proof -
    have "plain_line ''WEBVTT''" "plain_line []" by (simp_all add: plain_line_def strip_cr_def)
    then show ?thesis using assms cue_lines_plain by (auto simp: list_all_iff)
  qed
  then have "parse_vtt (render_vtt cues) = parse_cues ([''WEBVTT'', []] @ concat (map cue_lines cues))"
    unfolding parse_vtt_def render_vtt_lines by (subst lines_of_unlines) simp_all
  also have "... = parse_cues (concat (map cue_lines cues))" by simp
  also have "... = cues"
    using assms by (induction cues) (simp_all add: parse_cues_cue)
  finally show ?thesis .
qed

theorem vtt_roundtrip_witness:
  "parse_vtt (render_vtt [\<lparr>cue_start = Fin (3661 + 1 / 2), cue_end = Fin 3662, cue_text = ''hello''\<rparr>]) =
     [\<lparr>cue_start = Fin (3661 + 1 / 2), cue_end = Fin 3662, cue_text = ''hello''\<rparr>]"
proof (rule vtt_roundtrip)
  have "\<exists>k \<in> {0..<2 ^ 37}. 3661 + 1 / 2 = eighth k"
    by (rule bexI[of _ 29292]) (simp_all add: eighth_def)
  moreover have "\<exists>k \<in> {0..<2 ^ 37}. 3662 = eighth k"
    by (rule bexI[of _ 29296]) (simp_all add: eighth_def)
  moreover have "valid_text ''hello''" by code_simp
  ultimately show "list_all valid_cue [\<lparr>cue_start = Fin (3661 + 1 / 2), cue_end = Fin 3662, cue_text = ''hello''\<rparr>]"
    by (simp add: valid_cue_def grid_time_def)
qed

end
