(* ===== verification/Movie.thy ===== *)
theory Movie
  imports Denoise DevSync
begin

text \<open>
  \<^verbatim>\<open>src/movie.rs\<close>: one MP4 per camera of a drive. The builder's queue and badge, the
  encode settings, the argument vectors, \<open>build\<close> itself, the freshness table and the sweep
  that decides what to build. What other requests do to the settings while a long encode runs is the
  parameter \<open>ev\<close> of the steps that wait for \<^verbatim>\<open>ffmpeg\<close>.
\<close>

section \<open>The queue shown to the user\<close>

definition mq_set_queue :: "string list \<Rightarrow> movie_queue \<Rightarrow> movie_queue" where
  "mq_set_queue labels q = q\<lparr>mq_queued := labels\<rparr>"

text \<open>\<open>begin\<close> takes the first equal label out of the queue.\<close>

definition mq_begin :: "string \<Rightarrow> movie_queue \<Rightarrow> movie_queue" where
  "mq_begin label q = q\<lparr>mq_queued := remove1 label (mq_queued q), mq_current := Some label\<rparr>"

definition mq_finish :: "movie_queue \<Rightarrow> movie_queue" where
  "mq_finish q = q\<lparr>mq_current := None\<rparr>"

definition mq_clear :: "movie_queue \<Rightarrow> movie_queue" where
  "mq_clear q = q\<lparr>mq_current := None, mq_queued := []\<rparr>"

definition mq_stats :: "movie_queue \<Rightarrow> nat \<times> string option" where
  "mq_stats q = (length (mq_queued q) + (if mq_current q = None then 0 else 1), mq_current q)"

definition mq_detail :: "movie_queue \<Rightarrow> string option \<times> string list" where
  "mq_detail q = (mq_current q, mq_queued q)"

text \<open>\<open>wait_or_request\<close>: does the wait end early, and the pending wake-up is used up.\<close>

definition mq_wait :: "movie_queue \<Rightarrow> bool \<times> movie_queue" where
  "mq_wait q = (mq_wake q, q\<lparr>mq_wake := False\<rparr>)"

definition cam_label :: "string \<Rightarrow> string" where
  "cam_label cam =
     (if cam = ''qcamera'' then ''Road'' else if cam = ''fcamera'' then ''Road HD''
      else if cam = ''dcamera'' then ''Driver'' else if cam = ''ecamera'' then ''Wide''
      else ''camera'')"

definition queue_label :: "string \<Rightarrow> string \<Rightarrow> string" where
  "queue_label cam ts =
     cam_label cam @ '' '' @ [CHR 0xC2, CHR 0xB7] @ '' '' @
     (case split_once_str ''--'' ts of Some (a, _) \<Rightarrow> a | None \<Rightarrow> ts)"

section \<open>Settings\<close>

definition mv_enabled_key :: string where "mv_enabled_key = ''movie_enabled''"
definition mv_interval_key :: string where "mv_interval_key = ''movie_interval''"
definition scale_key :: string where "scale_key = ''movie_scale''"
definition crf_key :: string where "crf_key = ''movie_crf''"
definition preset_key :: string where "preset_key = ''movie_preset''"
definition min_interval_secs :: int where "min_interval_secs = 30"

definition movie_enabled :: "app_state \<Rightarrow> bool" where
  "movie_enabled st = setting_flag st mv_enabled_key (c_movie_enabled (cfg st))"

definition set_movie_enabled :: "bool \<Rightarrow> app_state \<Rightarrow> app_state" where
  "set_movie_enabled on st = set_setting_flag mv_enabled_key on st"

definition movie_interval :: "app_state \<Rightarrow> int" where
  "movie_interval st = setting_u64 st mv_interval_key (c_movie_interval_secs (cfg st))"

definition set_movie_interval :: "int \<Rightarrow> app_state \<Rightarrow> app_state" where
  "set_movie_interval secs st = set_setting_u64 mv_interval_key secs st"

record encode_options =
  eo_scale :: "(int \<times> int) option"
  eo_crf :: int
  eo_preset :: string

definition scale_for :: "string \<Rightarrow> (int \<times> int) option" where
  "scale_for token =
     (if token = ''854'' then Some (854, 482) else if token = ''640'' then Some (640, 362) else None)"

definition parse_u32 :: "string \<Rightarrow> int option" where
  "parse_u32 s = (case parse_u64 s of Some n \<Rightarrow> if n < 2 ^ 32 then Some n else None | None \<Rightarrow> None)"

definition clamp_crf :: "int \<Rightarrow> int" where
  "clamp_crf c = max 16 (min 35 c)"

definition encode_opts :: "app_state \<Rightarrow> encode_options" where
  "encode_opts st =
     \<lparr>eo_scale = scale_for (case settings_get st scale_key of Some s \<Rightarrow> s | None \<Rightarrow> ''native''),
      eo_crf = clamp_crf (case Option.bind (settings_get st crf_key) parse_u32 of Some c \<Rightarrow> c | None \<Rightarrow> 23),
      eo_preset = (case settings_get st preset_key of Some p \<Rightarrow> p | None \<Rightarrow> ''veryfast'')\<rparr>"

definition scale_options :: "string list" where
  "scale_options = [''native'', ''854'', ''640'']"

definition preset_options :: "string list" where
  "preset_options = [''ultrafast'', ''veryfast'', ''faster'', ''fast'', ''medium'', ''slow'']"

record encode_settings =
  es_scale :: string
  es_crf :: int
  es_preset :: string
  es_scale_options :: "string list"
  es_preset_options :: "string list"

definition encode_settings_json :: "app_state \<Rightarrow> encode_settings" where
  "encode_settings_json st =
     \<lparr>es_scale = (case settings_get st scale_key of Some s \<Rightarrow> s | None \<Rightarrow> ''native''),
      es_crf = eo_crf (encode_opts st), es_preset = eo_preset (encode_opts st),
      es_scale_options = scale_options, es_preset_options = preset_options\<rparr>"

text \<open>Validated one by one: what comes before the rejected value has been stored.\<close>

definition set_encode_settings ::
    "string option \<Rightarrow> int option \<Rightarrow> string option \<Rightarrow> app_state \<Rightarrow> app_state \<times> unit res" where
  "set_encode_settings scale crf preset st =
     (case (case scale of
              None \<Rightarrow> Inr st
            | Some s \<Rightarrow> if s \<notin> set scale_options then Inl (BadRequest ''bad scale'')
                       else Inr (settings_set scale_key s st)) of
        Inl e \<Rightarrow> (st, Inl e)
      | Inr st1 \<Rightarrow>
          let st2 = (case crf of None \<Rightarrow> st1 | Some c \<Rightarrow> settings_set crf_key (show_int (clamp_crf c)) st1)
          in case preset of
               None \<Rightarrow> (st2, Inr ())
             | Some p \<Rightarrow> if p \<notin> set preset_options then (st2, Inl (BadRequest ''bad preset''))
                        else (settings_set preset_key p st2, Inr ()))"

section \<open>Sources\<close>

definition movie_cams :: "string list" where
  "movie_cams = [''qcamera'', ''fcamera'', ''dcamera'', ''ecamera'']"

definition movie_key :: "string \<Rightarrow> string \<Rightarrow> string \<Rightarrow> string" where
  "movie_key dongle ts cam = dongle @ ''_'' @ ts @ ''--movie--'' @ cam @ ''.mp4''"

definition source_file :: "string \<Rightarrow> string option" where
  "source_file cam =
     (if cam = ''qcamera'' then Some ''qcamera.ts'' else camera_source cam)"

text \<open>The column of \<open>segments\<close> the camera's queries test.\<close>

definition cam_col :: "string \<Rightarrow> string option" where
  "cam_col cam =
     (if cam = ''qcamera'' then Some ''qcam_url'' else if cam = ''fcamera'' then Some ''fcam_url''
      else if cam = ''dcamera'' then Some ''dcam_url'' else if cam = ''ecamera'' then Some ''ecam_url''
      else None)"

definition segments_with_cam :: "app_state \<Rightarrow> string \<Rightarrow> string \<Rightarrow> int list res" where
  "segments_with_cam st fullname cam =
     (case cam_col cam of
        None \<Rightarrow> Inl (BadRequest (''unknown camera: '' @ cam))
      | Some col \<Rightarrow>
          Inr (map s_number (filter (\<lambda>s. url_of col s \<noteq> []) (route_segments st fullname))))"

definition blob_paths :: "app_state \<Rightarrow> string \<Rightarrow> string \<Rightarrow> string \<Rightarrow> int list \<Rightarrow> string list" where
  "blob_paths st dongle ts file segs =
     filter (nonempty st) (map (\<lambda>n. path_for st (blob_key dongle ts n file)) segs)"

section \<open>Audio lead\<close>

definition av_line :: "string \<Rightarrow> f64 option \<times> f64 option \<Rightarrow> f64 option \<times> f64 option" where
  "av_line line va =
     (case split_on (CHR '','') line of
        kind # start # _ \<Rightarrow>
          (case parse_f64 (trim start) of
             None \<Rightarrow> va
           | Some t \<Rightarrow> (if kind = ''video'' then (Some t, snd va)
                      else if kind = ''audio'' then (fst va, Some t) else va))
      | _ \<Rightarrow> va)"

definition av_lead :: "media_os \<Rightarrow> string \<Rightarrow> app_state \<Rightarrow> f64" where
  "av_lead os path st =
     (case mo_ffprobe os (files_on_disk st)
             [''-v'', ''error'', ''-show_entries'', ''stream=codec_type,start_time'',
              ''-of'', ''csv=p=0'', path] of
        Exited _ out _ \<Rightarrow>
          (case fold av_line (lines_of (mo_lossy os out)) (None, None) of
             (Some v, Some a) \<Rightarrow> f_clamp f_zero (Fin 10) (f_sub a v)
           | _ \<Rightarrow> f_zero)
      | _ \<Rightarrow> f_zero)"

section \<open>Arguments\<close>

datatype src = Hevc | Qcam

definition input_args :: "src \<Rightarrow> string list" where
  "input_args s = (case s of Hevc \<Rightarrow> [''-r'', fps, ''-f'', ''hevc''] | Qcam \<Rightarrow> [])"

definition cuvid :: "src \<Rightarrow> string" where
  "cuvid s = (case s of Hevc \<Rightarrow> ''hevc_cuvid'' | Qcam \<Rightarrow> ''h264_cuvid'')"

definition output_args :: "src \<Rightarrow> string list" where
  "output_args s = (case s of Hevc \<Rightarrow> [] | Qcam \<Rightarrow> [''-fps_mode'', ''cfr'', ''-r'', fps])"

definition audio_in :: "bool \<Rightarrow> string \<Rightarrow> string list" where
  "audio_in audio a_in = (if audio then [''-i'', a_in] else [])"

definition audio_out :: "bool \<Rightarrow> f64 \<Rightarrow> string list" where
  "audio_out audio lead =
     (if audio
      then [''-map'', ''1:a:0?'', ''-c:a'', ''aac'', ''-b:a'', ''96k''] @ adelay_args lead @ [''-shortest'']
      else [])"

definition mv_vaapi_args ::
    "string \<Rightarrow> src \<Rightarrow> string \<Rightarrow> string \<Rightarrow> bool \<Rightarrow> f64 \<Rightarrow> encode_options \<Rightarrow> string \<Rightarrow> string list" where
  "mv_vaapi_args dev s v_in a_in audio lead opts out =
     [''-nostdin'', ''-y'',
      ''-hwaccel'', ''vaapi'', ''-hwaccel_device'', dev, ''-hwaccel_output_format'', ''vaapi''] @
     input_args s @ [''-i'', v_in] @ audio_in audio a_in @
     [''-vf'', (case eo_scale opts of
                 Some (w, h) \<Rightarrow> ''scale_vaapi=w='' @ show_int w @ '':h='' @ show_int h @ '':format=nv12''
               | None \<Rightarrow> ''scale_vaapi=format=nv12''),
      ''-map'', ''0:v:0'', ''-c:v'', ''h264_vaapi'', ''-qp'', show_int (eo_crf opts + 5)] @
     output_args s @ audio_out audio lead @ [''-movflags'', ''+faststart'', out]"

definition mv_nvenc_args ::
    "src \<Rightarrow> string \<Rightarrow> string \<Rightarrow> bool \<Rightarrow> f64 \<Rightarrow> encode_options \<Rightarrow> string \<Rightarrow> string list" where
  "mv_nvenc_args s v_in a_in audio lead opts out =
     [''-nostdin'', ''-y'', ''-fflags'', ''+genpts''] @
     input_args s @ [''-c:v'', cuvid s, ''-i'', v_in] @ audio_in audio a_in @ [''-map'', ''0:v:0''] @
     (case eo_scale opts of
        Some (w, h) \<Rightarrow>
          [''-vf'', ''scale_cuda=w='' @ show_int w @ '':h='' @ show_int h @ '':format=yuv420p'']
      | None \<Rightarrow> []) @
     [''-c:v'', ''av1_nvenc'', ''-preset'', ''p6'', ''-cq'', show_int (eo_crf opts + 5), ''-b:v'', ''0''] @
     output_args s @ audio_out audio lead @ [''-movflags'', ''+faststart'', out]"

definition mv_cpu_args ::
    "src \<Rightarrow> string \<Rightarrow> string \<Rightarrow> bool \<Rightarrow> f64 \<Rightarrow> encode_options \<Rightarrow> string \<Rightarrow> string list" where
  "mv_cpu_args s v_in a_in audio lead opts out =
     [''-nostdin'', ''-y'', ''-fflags'', ''+genpts''] @
     input_args s @ [''-i'', v_in] @ audio_in audio a_in @ [''-map'', ''0:v:0''] @
     (case eo_scale opts of
        Some (w, h) \<Rightarrow> [''-vf'', ''scale='' @ show_int w @ '':'' @ show_int h]
      | None \<Rightarrow> []) @
     [''-c:v'', ''libx264'', ''-preset'', eo_preset opts, ''-crf'', show_int (eo_crf opts),
      ''-pix_fmt'', ''yuv420p''] @
     output_args s @ audio_out audio lead @ [''-movflags'', ''+faststart'', out]"

definition mv_gpu_args ::
    "gpu_backend \<Rightarrow> src \<Rightarrow> string \<Rightarrow> string \<Rightarrow> bool \<Rightarrow> f64 \<Rightarrow> encode_options \<Rightarrow> string \<Rightarrow> string list" where
  "mv_gpu_args backend s v_in a_in audio lead opts out =
     (case backend of
        Vaapi dev \<Rightarrow> mv_vaapi_args dev s v_in a_in audio lead opts out
      | Nvenc \<Rightarrow> mv_nvenc_args s v_in a_in audio lead opts out)"

section \<open>Building\<close>

text \<open>A recorded attempt; the insert fails silently when the duration is not a number.\<close>

definition record_movie :: "string \<Rightarrow> string \<Rightarrow> int \<Rightarrow> int \<Rightarrow> f64 \<Rightarrow> app_state \<Rightarrow> app_state" where
  "record_movie fullname cam seg_count bytes duration st =
     (if duration = NaN then st
      else st\<lparr>movies_tbl :=
        tbl_upsert movie_pk
          \<lparr>m_fullname = fullname, m_cam = cam, m_seg_count = seg_count, m_bytes = bytes,
           m_duration = duration, m_built_at = now_secs st, m_disabled = 0\<rparr>
          (\<lambda>r. r\<lparr>m_seg_count := seg_count, m_bytes := bytes, m_duration := duration,
                m_built_at := now_secs st\<rparr>)
          (movies_tbl st)\<rparr>)"

text \<open>\<open>run\<close>: killed, hence unsuccessful, when the toggle goes off or the time is up.\<close>

definition movie_run ::
    "media_os \<Rightarrow> (app_state \<Rightarrow> app_state) \<Rightarrow> string list \<Rightarrow> app_state \<Rightarrow> app_state \<times> bool" where
  "movie_run os ev args st = (let (st1, ok) = run_ffmpeg os args st in (ev st1, ok))"

definition movie_encode ::
    "media_os \<Rightarrow> (app_state \<Rightarrow> app_state) \<Rightarrow> src \<Rightarrow> string \<Rightarrow> string \<Rightarrow> bool \<Rightarrow> f64 \<Rightarrow> string \<Rightarrow>
     app_state \<Rightarrow> app_state \<times> bool" where
  "movie_encode os ev s v_in a_in audio lead tmp st =
     (let opts = encode_opts st;
          (st1, ok) = (case current_device st of
              None \<Rightarrow> (st, False)
            | Some dev \<Rightarrow>
                (case movie_run os ev (mv_gpu_args (select_backend os dev) s v_in a_in audio lead opts tmp) st of
                   (st', ok) \<Rightarrow> (if \<not> ok \<and> movie_enabled st' then remove_file tmp st' else st', ok)))
      in if \<not> ok \<and> movie_enabled st1
         then movie_run os ev (mv_cpu_args s v_in a_in audio lead opts tmp) st1
         else (st1, ok))"

text \<open>From the encode to the recorded result.\<close>

definition movie_finish ::
    "media_os \<Rightarrow> string \<Rightarrow> string \<Rightarrow> int \<Rightarrow> string \<Rightarrow> string \<Rightarrow> bool \<Rightarrow> app_state \<Rightarrow> app_state \<times> nat res" where
  "movie_finish os fullname cam seg_count tmp out ok st =
     (if \<not> ok then
        (let st1 = remove_file tmp st
         in if \<not> movie_enabled st1 then (st1, Inl (Other ''movie build aborted (encoding disabled)''))
            else (record_movie fullname cam seg_count 0 f_zero st1, Inl (Other (''movie encode failed for '' @ cam))))
      else if \<not> (file_exists st tmp \<and> disk_ok st out) then (st, Inl (Other ''io error''))
      else let st1 = st\<lparr>files_on_disk := fs_rename tmp out (files_on_disk st)\<rparr>;
               bytes = file_len st1 out;
               duration = (case probe_duration os out st1 of Some d \<Rightarrow> d | None \<Rightarrow> f_zero)
           in (record_movie fullname cam seg_count (int bytes) duration st1, Inr bytes))"

definition movie_tmp :: "string \<Rightarrow> string" where
  "movie_tmp out = with_extension ''part.mp4'' out"

definition movie_build ::
    "media_os \<Rightarrow> http_os \<Rightarrow> (app_state \<Rightarrow> app_state) \<Rightarrow> string \<Rightarrow> string \<Rightarrow> string \<Rightarrow> app_state \<Rightarrow>
     (app_state \<times> nat res) option" where
  "movie_build os ht ev dongle ts cam st =
     (let fullname = fullname_of dongle ts
      in case source_file cam of
        None \<Rightarrow> Some (st, Inl (BadRequest (''unknown camera: '' @ cam)))
      | Some src_file \<Rightarrow>
        (case segments_with_cam st fullname cam of
           Inl e \<Rightarrow> Some (st, Inl e)
         | Inr segs \<Rightarrow>
           (let seg_count = int (length segs);
                v_paths = blob_paths st dongle ts src_file segs;
                qsegs = (case segments_with_cam st fullname ''qcamera'' of Inr q \<Rightarrow> q | Inl _ \<Rightarrow> []);
                a_paths = blob_paths st dongle ts ''qcamera.ts'' qsegs;
                out_key = movie_key dongle ts cam; out = path_for st out_key; tmp = movie_tmp out;
                audio = (a_paths \<noteq> []);
                lead = (if audio then av_lead os (hd a_paths) st else f_zero);
                work = workdir st fullname
            in if segs = [] then Some (st, Inl (NotFound (''no '' @ cam @ '' segments for '' @ fullname)))
               else if v_paths = []
               then Some (record_movie fullname cam seg_count 0 f_zero st,
                          Inl (NotFound (''no usable '' @ cam @ '' source for '' @ fullname)))
               else if \<not> disk_ok st (shard_dir st out_key) then Some (st, Inl (Other ''io error''))
               else case build_wav os ht a_paths lead work st of
                      None \<Rightarrow> None
                    | Some (st1, clean) \<Rightarrow>
                        let a_in = (case clean of Some p \<Rightarrow> p | None \<Rightarrow> concat_input a_paths);
                            lead' = (case clean of Some _ \<Rightarrow> f_zero | None \<Rightarrow> lead);
                            s = (if cam = ''qcamera'' then Qcam else Hevc);
                            (st2, ok) = movie_encode os ev s (concat_input v_paths) a_in audio lead' tmp st1
                        in Some (movie_finish os fullname cam seg_count tmp out ok (cleanup work st2)))))"

section \<open>Status and the sweep\<close>

record movie_info =
  ms_cam :: string
  ms_ready :: bool
  ms_disabled :: bool
  ms_bytes :: int
  ms_duration :: f64

definition find_movie :: "app_state \<Rightarrow> string \<Rightarrow> string \<Rightarrow> movie_row option" where
  "find_movie st fullname cam = tbl_find movie_pk (fullname, cam) (movies_tbl st)"

definition movie_status :: "app_state \<Rightarrow> string \<Rightarrow> movie_info list" where
  "movie_status st fullname =
     (case split_once_str ''|'' fullname of
        None \<Rightarrow> []
      | Some (dongle, ts) \<Rightarrow>
          map (\<lambda>cam. let row = find_movie st fullname cam;
                         disabled = (case row of Some r \<Rightarrow> m_disabled r = 1 | None \<Rightarrow> False)
                     in \<lparr>ms_cam = cam,
                         ms_ready = (\<not> disabled \<and> row \<noteq> None \<and> blob_exists st (movie_key dongle ts cam)),
                         ms_disabled = disabled,
                         ms_bytes = (case row of Some r \<Rightarrow> m_bytes r | None \<Rightarrow> 0),
                         ms_duration = (case row of Some r \<Rightarrow> m_duration r | None \<Rightarrow> f_zero)\<rparr>)
            movie_cams)"

text \<open>The grouped coverage query: segments of the route, and how many carry the camera.\<close>

definition coverage :: "app_state \<Rightarrow> string \<Rightarrow> string \<Rightarrow> nat \<times> nat" where
  "coverage st fullname col =
     (let segs = filter (\<lambda>s. s_route s = fullname) (segments st)
      in (length segs, length (filter (\<lambda>s. url_of col s \<noteq> []) segs)))"

definition movie_skip :: "app_state \<Rightarrow> string \<Rightarrow> string \<Rightarrow> string \<Rightarrow> string \<Rightarrow> nat \<Rightarrow> bool" where
  "movie_skip st fullname dongle ts cam tot =
     (case find_movie st fullname cam of
        None \<Rightarrow> False
      | Some r \<Rightarrow>
          m_disabled r = 1 \<or>
          (m_seg_count r = int tot \<and> (m_bytes r = 0 \<or> blob_exists st (movie_key dongle ts cam))))"

definition movie_wanted :: "app_state \<Rightarrow> route \<Rightarrow> string \<Rightarrow> bool" where
  "movie_wanted st r cam =
     (case (split_once_str ''|'' (r_fullname r), cam_col cam) of
        (Some (_, ts), Some col) \<Rightarrow>
          (let (tot, with_cam) = coverage st (r_fullname r) col
           in tot \<noteq> 0 \<and> with_cam \<noteq> 0 \<and> with_cam = tot \<and>
              \<not> movie_skip st (r_fullname r) (r_device_dongle_id r) ts cam tot)
      | _ \<Rightarrow> False)"

text \<open>A piece of work: the device, the drive's timestamp and the camera.\<close>

definition movie_todo :: "app_state \<Rightarrow> (string \<times> string \<times> string) list" where
  "movie_todo st =
     concat (map (\<lambda>r. map (\<lambda>cam. (r_device_dongle_id r,
                          (case split_once_str ''|'' (r_fullname r) of Some (_, ts) \<Rightarrow> ts | None \<Rightarrow> []), cam))
                      (filter (movie_wanted st r) movie_cams))
                 (routes st))"

definition on_movie_q :: "(movie_queue \<Rightarrow> movie_queue) \<Rightarrow> app_state \<Rightarrow> app_state" where
  "on_movie_q f st = st\<lparr>movie_q := f (movie_q st)\<rparr>"

text \<open>The second pass; a build that fails does not stop it, the toggle does.\<close>

fun movie_builds ::
    "media_os \<Rightarrow> http_os \<Rightarrow> (app_state \<Rightarrow> app_state) \<Rightarrow> (string \<times> string \<times> string) list \<Rightarrow> app_state \<Rightarrow>
     app_state option" where
  "movie_builds os ht ev [] st = Some st"
| "movie_builds os ht ev ((dongle, ts, cam) # todo) st =
     (if \<not> movie_enabled st then Some st
      else case movie_build os ht ev dongle ts cam (on_movie_q (mq_begin (queue_label cam ts)) st) of
             None \<Rightarrow> None
           | Some (st1, _) \<Rightarrow> movie_builds os ht ev todo (on_movie_q mq_finish st1))"

definition movie_sweep ::
    "media_os \<Rightarrow> http_os \<Rightarrow> (app_state \<Rightarrow> app_state) \<Rightarrow> app_state \<Rightarrow> app_state option" where
  "movie_sweep os ht ev st =
     (let todo = movie_todo st
      in if todo = [] then Some st
         else map_option (on_movie_q mq_clear)
                (movie_builds os ht ev todo
                   (on_movie_q (mq_set_queue (map (\<lambda>(_, ts, cam). queue_label cam ts) todo)) st)))"

definition movie_delete :: "string \<Rightarrow> string \<Rightarrow> string \<Rightarrow> app_state \<Rightarrow> app_state" where
  "movie_delete dongle ts cam st =
     (let st1 = blob_delete (movie_key dongle ts cam) st
      in st1\<lparr>movies_tbl := tbl_delete (\<lambda>r. m_fullname r = fullname_of dongle ts \<and> m_cam r = cam)
                            (movies_tbl st1)\<rparr>)"

definition movie_disable :: "string \<Rightarrow> string \<Rightarrow> string \<Rightarrow> app_state \<Rightarrow> app_state" where
  "movie_disable dongle ts cam st =
     (let st1 = blob_delete (movie_key dongle ts cam) st
      in st1\<lparr>movies_tbl :=
           tbl_upsert movie_pk
             \<lparr>m_fullname = fullname_of dongle ts, m_cam = cam, m_seg_count = 0, m_bytes = 0,
              m_duration = f_zero, m_built_at = now_secs st1, m_disabled = 1\<rparr>
             (\<lambda>r. r\<lparr>m_disabled := 1, m_bytes := 0\<rparr>) (movies_tbl st1)\<rparr>)"

definition delete_movie_blob :: "movie_row \<Rightarrow> app_state \<Rightarrow> app_state" where
  "delete_movie_blob r st =
     (case split_once_str ''|'' (m_fullname r) of
        Some (dongle, ts) \<Rightarrow> blob_delete (movie_key dongle ts (m_cam r)) st
      | None \<Rightarrow> st)"

definition reencode_all :: "app_state \<Rightarrow> app_state \<times> nat" where
  "reencode_all st =
     (let rows = filter (\<lambda>r. m_disabled r = 0) (movies_tbl st);
          st1 = fold delete_movie_blob rows st
      in (request_sweep (st1\<lparr>movies_tbl := tbl_delete (\<lambda>r. m_disabled r = 0) (movies_tbl st1)\<rparr>),
          length rows))"

text \<open>The builder's start, and one turn of its loop: the state, and how long it then waits.\<close>

definition movie_start :: "app_state \<Rightarrow> app_state" where
  "movie_start st =
     st\<lparr>movies_tbl := tbl_delete (\<lambda>r. m_bytes r = 0 \<and> m_disabled r = 0) (movies_tbl st)\<rparr>"

definition movie_turn ::
    "media_os \<Rightarrow> http_os \<Rightarrow> (app_state \<Rightarrow> app_state) \<Rightarrow> app_state \<Rightarrow> (app_state \<times> int) option" where
  "movie_turn os ht ev st =
     (if \<not> movie_enabled st then Some (st, 60)
      else map_option (\<lambda>st1. (st1, max (movie_interval st1) min_interval_secs)) (movie_sweep os ht ev st))"

section \<open>What a build may change\<close>

text \<open>Files of \<open>P\<close> and the settings table; the latter only through other requests.\<close>

definition touches_s :: "string set \<Rightarrow> app_state \<Rightarrow> app_state \<Rightarrow> bool" where
  "touches_s P st st' \<longleftrightarrow>
     st' = st\<lparr>files_on_disk := files_on_disk st', settings_tbl := settings_tbl st'\<rparr> \<and>
     (\<forall>p. p \<notin> P \<longrightarrow> fs_get (files_on_disk st') p = fs_get (files_on_disk st) p)"

definition settings_only :: "(app_state \<Rightarrow> app_state) \<Rightarrow> bool" where
  "settings_only ev \<longleftrightarrow> (\<forall>st. ev st = st\<lparr>settings_tbl := settings_tbl (ev st)\<rparr>)"

lemma touches_s_frame:
  assumes "touches_s P st st'"
  shows "cfg st' = cfg st" "sha256_hex st' = sha256_hex st" "routes st' = routes st"
    "segments st' = segments st" "movies_tbl st' = movies_tbl st" "subs_tbl st' = subs_tbl st"
    "disk_ok st' = disk_ok st" "now_millis st' = now_millis st" "movie_q st' = movie_q st"
    "devices st' = devices st"
  by (subst assms[unfolded touches_s_def, THEN conjunct1], simp)+

lemma touches_s_update:
  assumes "touches_s P a b"
  shows "b\<lparr>files_on_disk := fs, settings_tbl := t\<rparr> = a\<lparr>files_on_disk := fs, settings_tbl := t\<rparr>"
  by (subst assms[unfolded touches_s_def, THEN conjunct1]) simp

lemma touches_imp_s: "touches P st st' \<Longrightarrow> touches_s P st st'"
proof -
  assume t: "touches P st st'"
  then have f: "st' = st\<lparr>files_on_disk := files_on_disk st'\<rparr>" by (simp add: touches_def only_files_def)
  have "settings_tbl st' = settings_tbl st" by (subst f) simp
  then have "st\<lparr>files_on_disk := files_on_disk st', settings_tbl := settings_tbl st'\<rparr> = st\<lparr>files_on_disk := files_on_disk st'\<rparr>"
    by simp
  with f show ?thesis using t by (simp add: touches_def touches_s_def)
qed

lemma touches_s_trans: "touches_s P a b \<Longrightarrow> touches_s P b c \<Longrightarrow> touches_s P a c"
  using touches_s_update[where P = P and a = a and b = b and fs = "files_on_disk c" and t = "settings_tbl c"] by (simp add: touches_s_def)

lemma touches_s_mono: "touches_s P a b \<Longrightarrow> P \<subseteq> Q \<Longrightarrow> touches_s Q a b"
  by (auto simp: touches_s_def)

lemma touches_s_refl [touch_intros]: "touches_s P st st"
  by (rule touches_imp_s) (rule touches_refl)

lemma touches_s_ev: "settings_only ev \<Longrightarrow> touches_s P st (ev st)"
proof -
  assume "settings_only ev"
  then have e: "ev st = st\<lparr>settings_tbl := settings_tbl (ev st)\<rparr>" by (simp add: settings_only_def)
  have f: "files_on_disk (ev st) = files_on_disk st" by (subst e) simp
  then have "st\<lparr>files_on_disk := files_on_disk (ev st), settings_tbl := settings_tbl (ev st)\<rparr> =
      st\<lparr>settings_tbl := settings_tbl (ev st)\<rparr>"
    by simp
  with e f show ?thesis by (simp add: touches_s_def)
qed

lemma touches_s_run:
  "settings_only ev \<Longrightarrow> last args \<in> P \<Longrightarrow> touches_s P st (fst (movie_run os ev args st))"
  using touches_s_trans[OF touches_imp_s[OF touches_ffmpeg] touches_s_ev]
  by (simp add: movie_run_def split_beta Let_def)

lemma last_args_movie [simp]:
  "last (mv_gpu_args b s v a audio lead opts out) = out" "last (mv_cpu_args s v a audio lead opts out) = out"
  by (simp_all add: mv_gpu_args_def mv_vaapi_args_def mv_nvenc_args_def mv_cpu_args_def split: gpu_backend.split)

lemma touches_s_encode:
  assumes ev: "settings_only ev" and tmp: "tmp \<in> P"
  shows "touches_s P st (fst (movie_encode os ev s v a audio lead tmp st))"
proof (cases "current_device st")
  case None
  then show ?thesis using touches_s_run[OF ev] tmp by (simp add: movie_encode_def touches_s_refl)
next
  case (Some dev)
  define g where "g = movie_run os ev (mv_gpu_args (select_backend os dev) s v a audio lead (encode_opts st) tmp) st"
  have g: "touches_s P st (fst g)" using touches_s_run[OF ev] tmp by (simp add: g_def)
  define h where "h = (if \<not> snd g \<and> movie_enabled (fst g) then remove_file tmp (fst g) else fst g)"
  have h: "touches_s P st h"
    using g touches_s_trans[OF g touches_imp_s[OF touches_remove[OF tmp]]] by (simp add: h_def)
  have "movie_encode os ev s v a audio lead tmp st =
      (if \<not> snd g \<and> movie_enabled h
       then movie_run os ev (mv_cpu_args s v a audio lead (encode_opts st) tmp) h else (h, snd g))"
    using Some by (simp add: movie_encode_def g_def[symmetric] h_def split_beta Let_def)
  then show ?thesis using h touches_s_trans[OF h touches_s_run[OF ev]] tmp by simp
qed

text \<open>Up to the encode a build goes through files and settings only; then it records its outcome.\<close>

lemma movie_build_cases:
  assumes ev: "settings_only ev" and run: "movie_build os ht ev dongle ts cam st = Some (st', r)"
  obtains (early) e where "st' = st" "r = Inl e" "cam_col cam = None \<or>
      segments_with_cam st (fullname_of dongle ts) cam = Inr [] \<or> e = Other ''io error''"
  | (unusable) segs e where "segments_with_cam st (fullname_of dongle ts) cam = Inr segs"
      "st' = record_movie (fullname_of dongle ts) cam (int (length segs)) 0 f_zero st" "r = Inl e"
  | (encoded) segs st1 ok where "segments_with_cam st (fullname_of dongle ts) cam = Inr segs"
      "touches_s ({movie_tmp (path_for st (movie_key dongle ts cam))} \<union> {p. under (workdir st (fullname_of dongle ts)) p}) st st1"
      "movie_finish os (fullname_of dongle ts) cam (int (length segs))
         (movie_tmp (path_for st (movie_key dongle ts cam))) (path_for st (movie_key dongle ts cam)) ok st1 = (st', r)"
proof -
  define work where "work = workdir st (fullname_of dongle ts)"
  define out where "out = path_for st (movie_key dongle ts cam)"
  define P where "P = {movie_tmp out} \<union> {p. under work p}"
  show ?thesis
  proof (cases "source_file cam")
    case None
    then have "cam_col cam = None"
      by (auto simp: source_file_def camera_source_def cam_col_def split: if_splits)
    then show ?thesis using run None early by (auto simp: movie_build_def Let_def)
  next
    case (Some f)
    then obtain col where col: "cam_col cam = Some col"
      by (auto simp: source_file_def camera_source_def cam_col_def split: if_splits)
    then obtain segs where segs: "segments_with_cam st (fullname_of dongle ts) cam = Inr segs"
      by (simp add: segments_with_cam_def)
    define qsegs where "qsegs = (case segments_with_cam st (fullname_of dongle ts) ''qcamera'' of Inr q \<Rightarrow> q | Inl _ \<Rightarrow> [])"
    define aps where "aps = blob_paths st dongle ts ''qcamera.ts'' qsegs"
    define vps where "vps = blob_paths st dongle ts f segs"
    define lead where "lead = (if aps \<noteq> [] then av_lead os (hd aps) st else f_zero)"
    consider "segs = []" | "segs \<noteq> []" "vps = []" | "segs \<noteq> []" "vps \<noteq> []" "\<not> disk_ok st (shard_dir st (movie_key dongle ts cam))"
      | "segs \<noteq> []" "vps \<noteq> []" "disk_ok st (shard_dir st (movie_key dongle ts cam))" by blast
    then show ?thesis
    proof cases
      case 1
      then show ?thesis using run Some segs early by (auto simp: movie_build_def Let_def)
    next
      case 2
      then show ?thesis using run Some segs unusable by (auto simp: movie_build_def Let_def vps_def)
    next
      case 3
      then show ?thesis using run Some segs early by (auto simp: movie_build_def Let_def vps_def)
    next
      case 4
      define enc where "enc = (\<lambda>st1 clean. movie_encode os ev (if cam = ''qcamera'' then Qcam else Hevc) (concat_input vps)
        (case clean of Some p \<Rightarrow> p | None \<Rightarrow> concat_input aps) (aps \<noteq> [])
        (case clean of Some _ \<Rightarrow> f_zero | None \<Rightarrow> lead) (movie_tmp out) st1)"
      have eq: "movie_build os ht ev dongle ts cam st =
          (case build_wav os ht aps lead work st of
             None \<Rightarrow> None
           | Some (st1, clean) \<Rightarrow>
               Some (movie_finish os (fullname_of dongle ts) cam (int (length segs)) (movie_tmp out) out
                 (snd (enc st1 clean)) (cleanup work (fst (enc st1 clean)))))"
        using 4 unfolding movie_build_def Let_def Some segs option.case sum.case enc_def
          vps_def[symmetric] qsegs_def[symmetric] aps_def[symmetric] out_def[symmetric] work_def[symmetric]
          lead_def[symmetric]
        by (auto split: option.split prod.split)
      then obtain st1 clean where w: "build_wav os ht aps lead work st = Some (st1, clean)"
        using run by (auto split: option.splits)
      have fin: "movie_finish os (fullname_of dongle ts) cam (int (length segs)) (movie_tmp out) out
          (snd (enc st1 clean)) (cleanup work (fst (enc st1 clean))) = (st', r)"
        using run unfolding eq w by simp
      have "touches_s P st st1"
        using touches_mono[OF build_wav_touches[OF w]] by (intro touches_imp_s) (auto simp: P_def)
      moreover have "touches_s P st1 (fst (enc st1 clean))"
        unfolding enc_def by (rule touches_s_encode[OF ev]) (simp add: P_def)
      moreover have "touches_s P (fst (enc st1 clean)) (cleanup work (fst (enc st1 clean)))"
        by (rule touches_imp_s) (rule touches_cleanup, auto simp: P_def)
      ultimately have "touches_s P st (cleanup work (fst (enc st1 clean)))" using touches_s_trans by blast
      then show ?thesis using encoded[OF segs _ fin[unfolded out_def]] by (simp add: P_def out_def work_def)
    qed
  qed
qed

section \<open>When a movie is due\<close>

lemma length_filter_all: "length (filter P xs) = length xs \<longleftrightarrow> (\<forall>x \<in> set xs. P x)"
proof (induction xs)
  case (Cons x xs)
  have "length (filter P xs) \<noteq> Suc (length xs)" using length_filter_le[of P xs] by (metis Suc_n_not_le_n)
  then show ?case using Cons by auto
qed simp

text \<open>Reference: the drive has segments, and every one of them carries the camera.\<close>

definition complete_drive :: "app_state \<Rightarrow> string \<Rightarrow> string \<Rightarrow> bool" where
  "complete_drive st fullname cam =
     (let segs = filter (\<lambda>s. s_route s = fullname) (segments st)
      in segs \<noteq> [] \<and> (case cam_col cam of None \<Rightarrow> False | Some col \<Rightarrow> list_all (\<lambda>s. url_of col s \<noteq> []) segs))"

text \<open>
  Reference: the movie was deleted by the user, or it was attempted for the drive as it is now and
  either failed or its file is still there.
\<close>

definition movie_settled :: "app_state \<Rightarrow> route \<Rightarrow> string \<Rightarrow> string \<Rightarrow> bool" where
  "movie_settled st r ts cam =
     list_ex (\<lambda>m. m_fullname m = r_fullname r \<and> m_cam m = cam \<and>
        (m_disabled m = 1 \<or>
         (m_seg_count m = int (length (filter (\<lambda>s. s_route s = r_fullname r) (segments st))) \<and>
          (m_bytes m = 0 \<or> blob_exists st (movie_key (r_device_dongle_id r) ts cam)))))
     (movies_tbl st)"

lemma find_movie_iff:
  "tbl_ok movie_pk (movies_tbl st) \<Longrightarrow>
    find_movie st f cam = Some m \<longleftrightarrow> m \<in> set (movies_tbl st) \<and> m_fullname m = f \<and> m_cam m = cam"
  using tbl_find_in_set[of movie_pk "movies_tbl st" m] tbl_find_SomeD[of movie_pk "(f, cam)" "movies_tbl st" m]
  by (auto simp: find_movie_def movie_pk_def)

lemma movie_skip_iff:
  assumes "tbl_ok movie_pk (movies_tbl st)"
  shows "movie_skip st (r_fullname r) (r_device_dongle_id r) ts cam
      (length (filter (\<lambda>s. s_route s = r_fullname r) (segments st))) \<longleftrightarrow> movie_settled st r ts cam"
proof (cases "find_movie st (r_fullname r) cam")
  case None
  then have "\<not> (m \<in> set (movies_tbl st) \<and> m_fullname m = r_fullname r \<and> m_cam m = cam)" for m
    using None find_movie_iff[OF assms, of "r_fullname r" cam m] by simp
  then show ?thesis using None by (auto simp: movie_skip_def movie_settled_def list_ex_iff)
next
  case (Some m)
  then have "m \<in> set (movies_tbl st)" "m_fullname m = r_fullname r" "m_cam m = cam"
    using find_movie_iff[OF assms] by auto
  moreover have "m' = m" if "m' \<in> set (movies_tbl st)" "m_fullname m' = r_fullname r" "m_cam m' = cam" for m'
    using that Some find_movie_iff[OF assms] by (metis option.inject)
  ultimately have "(\<exists>m' \<in> set (movies_tbl st). m_fullname m' = r_fullname r \<and> m_cam m' = cam \<and> Q m') \<longleftrightarrow> Q m" for Q
    by blast
  then show ?thesis by (simp only: movie_skip_def movie_settled_def list_ex_iff Some option.case)
qed

lemma movie_wanted_iff:
  assumes "tbl_ok movie_pk (movies_tbl st)"
  shows "movie_wanted st r cam \<longleftrightarrow>
    (case split_once_str ''|'' (r_fullname r) of
       None \<Rightarrow> False
     | Some (p, ts) \<Rightarrow> complete_drive st (r_fullname r) cam \<and> \<not> movie_settled st r ts cam)"
proof -
  define segs where "segs = filter (\<lambda>s. s_route s = r_fullname r) (segments st)"
  have "length segs \<noteq> 0 \<and> length (filter Q segs) \<noteq> 0 \<and> length (filter Q segs) = length segs \<longleftrightarrow>
      segs \<noteq> [] \<and> list_all Q segs" for Q
    using length_filter_all[of Q segs] by (auto simp: list_all_iff)
  then show ?thesis
    unfolding movie_wanted_def coverage_def complete_drive_def Let_def segs_def[symmetric]
    using movie_skip_iff[OF assms, of r _ cam, folded segs_def]
    by (auto split: option.split prod.split)
qed

lemma route_segments_length:
  "length (filter Q (route_segments st f)) = length (filter Q (filter (\<lambda>s. s_route s = f) (segments st)))"
  by (simp add: route_segments_def filter_sort)

lemma movie_wanted_count:
  assumes "movie_wanted st r cam" and "segments_with_cam st (r_fullname r) cam = Inr segs"
  shows "segs \<noteq> []" "length segs = length (filter (\<lambda>s. s_route s = r_fullname r) (segments st))"
proof -
  obtain col where col: "cam_col cam = Some col"
    using assms(1) by (auto simp: movie_wanted_def split: option.splits)
  have "length segs = length (filter (\<lambda>s. url_of col s \<noteq> []) (route_segments st (r_fullname r)))"
    using assms(2) col by (auto simp: segments_with_cam_def)
  moreover have "length (filter (\<lambda>s. url_of col s \<noteq> []) (filter (\<lambda>s. s_route s = r_fullname r) (segments st))) =
      length (filter (\<lambda>s. s_route s = r_fullname r) (segments st))" "filter (\<lambda>s. s_route s = r_fullname r) (segments st) \<noteq> []"
    using assms(1) col by (auto simp: movie_wanted_def coverage_def Let_def split: option.splits)
  ultimately show "length segs = length (filter (\<lambda>s. s_route s = r_fullname r) (segments st))" "segs \<noteq> []"
    by (auto simp: route_segments_length)
qed

section \<open>Recording\<close>

lemma record_movie_frame [simp]:
  "segments (record_movie f c n b d st) = segments st" "routes (record_movie f c n b d st) = routes st"
  "files_on_disk (record_movie f c n b d st) = files_on_disk st"
  "path_for (record_movie f c n b d st) = path_for st" "blob_exists (record_movie f c n b d st) = blob_exists st"
  by (simp_all add: record_movie_def blob_exists_def fun_eq_iff)

lemma find_record_movie:
  assumes "d \<noteq> NaN"
  shows "\<exists>m. find_movie (record_movie f c n b d st) f c = Some m \<and> m_seg_count m = n \<and> m_bytes m = b \<and>
    (m_disabled m = (case find_movie st f c of Some r \<Rightarrow> m_disabled r | None \<Rightarrow> 0))"
  using assms unfolding record_movie_def find_movie_def
  by (simp add: tbl_find_upsert movie_pk_def split: option.split)

lemma movie_finish_cases:
  assumes "movie_finish os f c n tmp out ok st = (st', r)"
  obtains (aborted) "r = Inl (Other ''movie build aborted (encoding disabled)'')" "st' = remove_file tmp st"
  | (failed) "r = Inl (Other (''movie encode failed for '' @ c))" "st' = record_movie f c n 0 f_zero (remove_file tmp st)"
  | (io) "r = Inl (Other ''io error'')" "st' = st"
  | (built) b d where "ok" "r = Inr b" "d = (case probe_duration os out (st\<lparr>files_on_disk := fs_rename tmp out (files_on_disk st)\<rparr>) of Some d \<Rightarrow> d | None \<Rightarrow> f_zero)"
      "fs_get (files_on_disk st) tmp \<noteq> None"
      "st' = record_movie f c n (int b) d (st\<lparr>files_on_disk := fs_rename tmp out (files_on_disk st)\<rparr>)"
proof (cases ok)
  case True
  show ?thesis
  proof (cases "file_exists st tmp \<and> disk_ok st out")
    case yes: True
    then have "fs_get (files_on_disk st) tmp \<noteq> None" by (simp add: file_exists_def)
    moreover have "(st', r) = movie_finish os f c n tmp out ok st" using assms by simp
    ultimately show ?thesis
      using True yes by (intro built[OF True _ HOL.refl]) (simp_all add: movie_finish_def Let_def)
  next
    case no: False
    then show ?thesis using True assms by (intro io) (auto simp: movie_finish_def)
  qed
next
  case False
  show ?thesis
  proof (cases "movie_enabled (remove_file tmp st)")
    case yes: True
    then show ?thesis using False assms by (intro failed) (auto simp: movie_finish_def Let_def)
  next
    case no: False
    then show ?thesis using False assms by (intro aborted) (auto simp: movie_finish_def Let_def)
  qed
qed

lemma touches_s_path: "touches_s P st st' \<Longrightarrow> path_for st' = path_for st"
  by (simp add: fun_eq_iff path_for_def shard_dir_def touches_s_frame(1,2))

section \<open>Properties\<close>

text \<open>
  C19: what the sweep queues is exactly what is due: for each camera of each drive, the movie of a
  drive all of whose segments carry the camera, unless the user deleted it or it was already
  attempted for this many segments and either failed or is still there.
\<close>

theorem movie_todo_exact:
  assumes "tbl_ok movie_pk (movies_tbl st)"
  shows "(dongle, ts, cam) \<in> set (movie_todo st) \<longleftrightarrow>
    cam \<in> set movie_cams \<and>
    list_ex (\<lambda>r. r_device_dongle_id r = dongle \<and>
        (\<exists>p. split_once_str ''|'' (r_fullname r) = Some (p, ts)) \<and>
        complete_drive st (r_fullname r) cam \<and> \<not> movie_settled st r ts cam) (routes st)"
proof -
  have "movie_wanted st r cam \<longleftrightarrow>
      (\<exists>p ts. split_once_str ''|'' (r_fullname r) = Some (p, ts) \<and>
        complete_drive st (r_fullname r) cam \<and> \<not> movie_settled st r ts cam)" for r
    using movie_wanted_iff[OF assms, of r cam] by (auto split: option.splits)
  moreover have "(dongle, ts, cam) \<in> set (movie_todo st) \<longleftrightarrow>
      (\<exists>r \<in> set (routes st). r_device_dongle_id r = dongle \<and> cam \<in> set movie_cams \<and> movie_wanted st r cam \<and>
        (case split_once_str ''|'' (r_fullname r) of Some (_, ts) \<Rightarrow> ts | None \<Rightarrow> []) = ts)"
    by (auto simp: movie_todo_def image_iff)
  ultimately show ?thesis by (auto simp: list_ex_iff Bex_def split: option.splits)
qed

definition demo_movie_state :: app_state where
  "demo_movie_state =
     (blob_write (blob_key ''d'' ''t'' 0 ''qcamera.ts'') ''ts'' empty_state)
       \<lparr>routes := [new_route ''d|t'' ''d'' 0],
        segments := [(new_segment ''d|t--0'' ''d|t'' 0 0)\<lparr>s_qcam_url := ''u''\<rparr>]\<rparr>"

lemma demo_movie_tables [simp]:
  "routes demo_movie_state = [new_route ''d|t'' ''d'' 0]" "movies_tbl demo_movie_state = []"
  "segments demo_movie_state = [(new_segment ''d|t--0'' ''d|t'' 0 0)\<lparr>s_qcam_url := ''u''\<rparr>]"
  "settings_tbl demo_movie_state = []" "cfg demo_movie_state = demo_config" "disk_ok demo_movie_state = (\<lambda>_. True)"
  by (simp_all add: demo_movie_state_def blob_write_def empty_state_def)

theorem movie_todo_exact_witness:
  "(''d'', ''t'', ''qcamera'') \<in> set (movie_todo demo_movie_state) \<and>
   (''d'', ''t'', ''fcamera'') \<notin> set (movie_todo demo_movie_state)"
  using movie_todo_exact[of demo_movie_state "''d''" "''t''" "''qcamera''"]
    movie_todo_exact[of demo_movie_state "''d''" "''t''" "''fcamera''"]
  by (simp add: tbl_ok_def movie_cams_def complete_drive_def movie_settled_def cam_col_def url_of_def
      new_route_def new_segment_def)

text \<open>A row for the drive as it is keeps the sweep away, if it says failed or its file is there.\<close>

lemma recorded_settles:
  assumes name: "r_fullname r = fullname_of (r_device_dongle_id r) ts" "CHR ''|'' \<notin> set (r_device_dongle_id r)"
    and rec: "st' = record_movie (r_fullname r) cam
        (int (length (filter (\<lambda>s. s_route s = r_fullname r) (segments st)))) b dn s1" "dn \<noteq> NaN" "segments s1 = segments st"
    and there: "b = 0 \<or> blob_exists st' (movie_key (r_device_dongle_id r) ts cam)"
  shows "\<not> movie_wanted st' r cam"
proof -
  define tot where "tot = length (filter (\<lambda>s. s_route s = r_fullname r) (segments st))"
  have split: "split_once_str ''|'' (r_fullname r) = Some (r_device_dongle_id r, ts)"
    using name split_once_char_append[of "CHR ''|''" "r_device_dongle_id r" ts] by (simp add: fullname_of_def)
  have "segments st' = segments st" using rec(1,3) by simp
  then have "fst (coverage st' (r_fullname r) col) = tot" for col by (simp add: coverage_def tot_def)
  moreover have "movie_skip st' (r_fullname r) (r_device_dongle_id r) ts cam tot"
    using find_record_movie[OF rec(2), where st = s1 and f = "r_fullname r" and c = cam and n = "int tot" and b = b]
      rec(1) there by (auto simp: movie_skip_def tot_def)
  ultimately show ?thesis
    by (simp add: movie_wanted_def split split_beta Let_def split: option.split)
qed

text \<open>
  C9: an attempt settles the movie. Whatever the tools, the enhancement server and other settings
  requests did, a build of a due movie that was neither aborted by the toggle nor stopped by an I/O
  error leaves it not due: it was built, or it is marked so that it is not retried until the drive's
  coverage changes. The one exception is a movie that was built and whose duration \<^verbatim>\<open>ffprobe\<close> reports as
  not a number: the table refuses that row, the error is dropped, and nothing is recorded.
\<close>

theorem movie_attempt_settles:
  assumes keys: "tbl_ok movie_pk (movies_tbl st)" and ev: "settings_only ev"
    and due: "movie_wanted st r cam"
    and name: "r_fullname r = fullname_of (r_device_dongle_id r) ts" "CHR ''|'' \<notin> set (r_device_dongle_id r)"
    and run: "movie_build os ht ev (r_device_dongle_id r) ts cam st = Some (st', res)"
    and res: "res \<noteq> Inl (Other ''io error'')" "res \<noteq> Inl (Other ''movie build aborted (encoding disabled)'')"
  shows "if is_ok res \<and> probe_duration os (path_for st (movie_key (r_device_dongle_id r) ts cam)) st' = Some NaN
    then movies_tbl st' = movies_tbl st \<and> blob_exists st' (movie_key (r_device_dongle_id r) ts cam)
    else \<not> movie_wanted st' r cam"
proof -
  define d where "d = r_device_dongle_id r"
  define f where "f = r_fullname r"
  define tot where "tot = length (filter (\<lambda>s. s_route s = f) (segments st))"
  have f: "fullname_of d ts = f" using name(1) by (simp add: f_def d_def)
  note settled = recorded_settles[OF name, where st = st, folded f_def d_def, folded tot_def]
  show ?thesis
    using ev run[folded d_def]
  proof (cases rule: movie_build_cases)
    case (early e)
    have "cam_col cam \<noteq> None" using due by (auto simp: movie_wanted_def split: option.splits)
    moreover have "segments_with_cam st (fullname_of d ts) cam \<noteq> Inr []"
      using movie_wanted_count[OF due] by (auto simp: f f_def)
    ultimately show ?thesis using early res(1) by auto
  next
    case (unusable segs e)
    then have "length segs = tot" using movie_wanted_count(2)[OF due] by (simp add: f f_def tot_def)
    then show ?thesis using settled[where b = 0 and dn = f_zero and ?s1.0 = st] unusable(2,3) by (simp add: f is_ok_def)
  next
    case (encoded segs st1 ok)
    then have n: "length segs = tot" using movie_wanted_count(2)[OF due] by (simp add: f f_def tot_def)
    have segs: "segments st1 = segments st" by (rule touches_s_frame(4)[OF encoded(2)])
    have path: "path_for st1 = path_for st" by (rule touches_s_path[OF encoded(2)])
    show ?thesis
      using encoded(3)[unfolded f n]
    proof (cases rule: movie_finish_cases)
      case failed
      then show ?thesis using settled[where b = 0 and dn = f_zero] segs by (simp add: remove_file_def is_ok_def)
    next
      case (built b dn)
      have there: "blob_exists st' (movie_key d ts cam)"
        using built(4,5) path by (auto simp: blob_exists_def blob_get_def fs_get_rename)
      have probe: "dn = (case probe_duration os (path_for st (movie_key d ts cam)) st' of Some x \<Rightarrow> x | None \<Rightarrow> f_zero)"
        unfolding built(3) by (simp add: probe_duration_def built(5))
      show ?thesis
      proof (cases "dn = NaN")
        case True
        then have "probe_duration os (path_for st (movie_key d ts cam)) st' = Some NaN"
          using probe by (auto split: option.splits)
        moreover have "movies_tbl st' = movies_tbl st"
          using True touches_s_frame(5)[OF encoded(2)] by (simp add: built(5) record_movie_def)
        ultimately show ?thesis using there built(2) by (simp add: is_ok_def d_def)
      next
        case False
        then have "\<not> movie_wanted st' r cam" using settled[OF built(5)] segs there by simp
        then show ?thesis using False probe by (simp add: d_def split: option.splits)
      qed
    qed (use res in simp_all)
  qed
qed

lemma movie_tmp_path:
  "movie_tmp (path_for st (movie_key d ts cam)) =
    path_join (shard_dir st (movie_key d ts cam)) (sanitize (d @ ''_'' @ ts @ ''--movie--'' @ cam)) @ ''.part.mp4''"
proof -
  define x where "x = path_join (shard_dir st (movie_key d ts cam)) (sanitize (d @ ''_'' @ ts @ ''--movie--'' @ cam))"
  have p: "path_for st (movie_key d ts cam) = x @ CHR ''.'' # ''mp4''"
    by (simp add: path_for_def movie_key_def sanitize_def path_join_def x_def)
  have "rsplit_once_str ''.'' (x @ CHR ''.'' # ''mp4'') = Some (x, ''mp4'')"
    by (rule rsplit_char_append) simp
  moreover have "x \<noteq> []" by (simp add: x_def path_join_def)
  ultimately have "movie_tmp (path_for st (movie_key d ts cam)) = x @ ''.part.mp4''"
    unfolding p movie_tmp_def with_extension_def by simp
  then show ?thesis by (simp add: x_def)
qed

lemma not_under_work: "\<not> under (workdir st f) (path_join (shard_dir st k) x)"
  by (simp add: under_def workdir_def shard_dir_def blobs_dir_def path_join_def Let_def)

lemma movie_tmp_not_under_work: "\<not> under (workdir st f) (movie_tmp (path_for st (movie_key d ts cam)))"
  using not_under_work[of st f "movie_key d ts cam" "sanitize (d @ ''_'' @ ts @ ''--movie--'' @ cam) @ ''.part.mp4''"]
  unfolding movie_tmp_path by (simp add: path_join_def)

definition demo_http :: http_os where
  "demo_http = \<lparr>ht_client = True, ht_get = (\<lambda>_. HttpErr []), ht_post = (\<lambda>_ _. HttpErr [])\<rparr>"

lemma demo_movie_wanted: "movie_wanted demo_movie_state (new_route ''d|t'' ''d'' 0) ''qcamera''"
  by (simp add: movie_wanted_def new_route_def cam_col_def coverage_def url_of_def movie_skip_def find_movie_def
      new_segment_def)

lemma demo_movie_build: "\<exists>st' b. movie_build demo_media demo_http id ''d'' ''t'' ''qcamera'' demo_movie_state = Some (st', Inr b)"
proof -
  let ?st = demo_movie_state
  have "blob_get ?st (blob_key ''d'' ''t'' 0 ''qcamera.ts'') = Some ''ts''"
    unfolding demo_movie_state_def by (simp add: blobs.get_put_same)
  then have ne: "nonempty ?st (path_for ?st (blob_key ''d'' ''t'' 0 ''qcamera.ts''))"
    by (simp add: nonempty_def file_len_def blob_get_def)
  have segs: "segments_with_cam ?st ''d|t'' ''qcamera'' = Inr [0]"
    by (simp add: segments_with_cam_def cam_col_def route_segments_def url_of_def new_segment_def)
  have src: "source_file ''qcamera'' = Some ''qcamera.ts''" by (simp add: source_file_def)
  have wav: "build_wav demo_media demo_http p l w ?st = Some (?st, None)" for p l w
    by (simp add: build_wav_def denoise_enabled_def setting_flag_def settings_get_def demo_config_def)
  have dev: "current_device ?st = None" "movie_enabled ?st"
    by (simp_all add: current_device_def movie_enabled_def setting_flag_def settings_get_def demo_config_def)
  define tmp where "tmp = movie_tmp (path_for ?st (movie_key ''d'' ''t'' ''qcamera''))"
  have enc: "movie_encode demo_media id Qcam v a au l tmp ?st =
      (?st\<lparr>files_on_disk := fs_put tmp ''h264'' (files_on_disk ?st)\<rparr>, True)" for v a au l
    by (simp add: movie_encode_def dev movie_run_def run_ffmpeg_def demo_media_def)
  have "file_exists (cleanup (workdir ?st ''d|t'') (?st\<lparr>files_on_disk := fs_put tmp ''h264'' (files_on_disk ?st)\<rparr>)) tmp"
    using movie_tmp_not_under_work[of ?st "''d|t''" "''d''" "''t''" "''qcamera''"]
    by (simp add: file_exists_def cleanup_get fs_get_put tmp_def)
  then show ?thesis
    by (simp add: movie_build_def fullname_of_def src segs blob_paths_def ne wav Let_def tmp_def[symmetric] enc
        movie_finish_def cleanup_def)
qed

theorem movie_attempt_settles_witness:
  "movie_wanted demo_movie_state (new_route ''d|t'' ''d'' 0) ''qcamera'' \<and>
   (\<exists>st' b. movie_build demo_media demo_http id ''d'' ''t'' ''qcamera'' demo_movie_state = Some (st', Inr b) \<and>
      \<not> movie_wanted st' (new_route ''d|t'' ''d'' 0) ''qcamera'')"
proof -
  obtain st' b where b: "movie_build demo_media demo_http id ''d'' ''t'' ''qcamera'' demo_movie_state = Some (st', Inr b)"
    using demo_movie_build by blast
  have "settings_only id" by (simp add: settings_only_def)
  then have "\<not> movie_wanted st' (new_route ''d|t'' ''d'' 0) ''qcamera''"
    using movie_attempt_settles[of demo_movie_state id "new_route ''d|t'' ''d'' 0" "''qcamera''" "''t''" demo_media
        demo_http st' "Inr b"] demo_movie_wanted b
    by (simp add: tbl_ok_def new_route_def fullname_of_def probe_duration_def demo_media_def)
  then show ?thesis using b demo_movie_wanted by blast
qed

text \<open>
  C38: a build in flight outlives a deletion. When the user deleted the movie while it was being
  encoded, the finished build puts the file back although the row stays marked as deleted: the
  status never offers it, the sweep never replaces it, and it stays on the disk.
\<close>

theorem movie_deletion_race:
  assumes row: "find_movie st (fullname_of dongle ts) cam = Some m" "m_disabled m = 1"
    and bar: "CHR ''|'' \<notin> set dongle" and dur: "\<And>p s. probe_duration os p s \<noteq> Some NaN"
    and r: "r_fullname r = fullname_of dongle ts"
    and run: "movie_finish os (fullname_of dongle ts) cam n tmp (path_for st (movie_key dongle ts cam)) True st = (st', Inr b)"
  shows "blob_exists st' (movie_key dongle ts cam) \<and> \<not> movie_wanted st' r cam \<and>
    list_all (\<lambda>s. ms_cam s = cam \<longrightarrow> ms_disabled s \<and> \<not> ms_ready s) (movie_status st' (fullname_of dongle ts))"
  using run
proof (cases rule: movie_finish_cases)
  case (built b' dn)
  have dn: "dn \<noteq> NaN" using built(3) dur by (auto split: option.splits)
  have split: "split_once_str ''|'' (fullname_of dongle ts) = Some (dongle, ts)"
    using bar split_once_char_append[of "CHR ''|''" dongle ts] by (simp add: fullname_of_def)
  obtain m' where m': "find_movie st' (fullname_of dongle ts) cam = Some m'" "m_disabled m' = 1"
    using find_record_movie[OF dn] built(5) row by (fastforce simp: find_movie_def)
  have "blob_exists st' (movie_key dongle ts cam)"
    using built(4,5) by (auto simp: blob_exists_def blob_get_def fs_get_rename)
  moreover have "\<not> movie_wanted st' r cam"
    using m' by (simp add: movie_wanted_def r split movie_skip_def split_beta Let_def split: option.split)
  moreover have "list_all (\<lambda>s. ms_cam s = cam \<longrightarrow> ms_disabled s \<and> \<not> ms_ready s)
      (movie_status st' (fullname_of dongle ts))"
    using m' by (auto simp: movie_status_def split list_all_iff Let_def)
  ultimately show ?thesis by blast
qed simp_all

theorem movie_deletion_race_witness:
  "\<exists>st' b. movie_finish demo_media ''d|t'' ''qcamera'' 1 ''x'' (path_for (movie_disable ''d'' ''t'' ''qcamera'' demo_movie_state)
       (movie_key ''d'' ''t'' ''qcamera'')) True
       (fst (run_ffmpeg demo_media [''x''] (movie_disable ''d'' ''t'' ''qcamera'' demo_movie_state))) = (st', Inr b) \<and>
     blob_exists st' (movie_key ''d'' ''t'' ''qcamera'')"
proof -
  define s0 where "s0 = movie_disable ''d'' ''t'' ''qcamera'' demo_movie_state"
  define s1 where "s1 = fst (run_ffmpeg demo_media [''x''] s0)"
  have s1: "s1 = s0\<lparr>files_on_disk := fs_put ''x'' ''h264'' (files_on_disk s0)\<rparr>"
    by (simp add: s1_def run_ffmpeg_def demo_media_def)
  have path: "path_for s0 = path_for s1" by (simp add: s1)
  have row: "\<exists>m. find_movie s1 ''d|t'' ''qcamera'' = Some m \<and> m_disabled m = 1"
    by (simp add: s1 s0_def movie_disable_def find_movie_def movie_pk_def fullname_of_def blob_delete_def
        remove_file_def tbl_upsert_def Let_def)
  have "disk_ok s1 = (\<lambda>_. True)" by (simp add: s1 s0_def movie_disable_def blob_delete_def remove_file_def Let_def)
  then obtain st' b where b: "movie_finish demo_media ''d|t'' ''qcamera'' 1 ''x'' (path_for s1 (movie_key ''d'' ''t'' ''qcamera''))
      True s1 = (st', Inr b)"
    by (simp add: movie_finish_def s1 file_exists_def fs_get_put Let_def)
  have dur: "probe_duration demo_media p s \<noteq> Some NaN" for p s by (simp add: probe_duration_def demo_media_def)
  obtain m where m: "find_movie s1 (fullname_of ''d'' ''t'') ''qcamera'' = Some m" "m_disabled m = 1"
    using row by (auto simp: fullname_of_def)
  have "blob_exists st' (movie_key ''d'' ''t'' ''qcamera'')"
    using movie_deletion_race[OF m _ dur, where r = "new_route ''d|t'' ''d'' 0" and n = 1 and tmp = "''x''"] b
    by (simp add: new_route_def fullname_of_def)
  then show ?thesis using b unfolding s0_def[symmetric] path s1_def[symmetric] by blast
qed

text \<open>
  Valid encode settings are stored and read back, whatever was stored before, with the quality
  clamped to 16 to 35; an unknown preset is refused, but the scale and quality sent with it have been
  stored by then.
\<close>

theorem encode_settings_roundtrip:
  assumes "s \<in> set scale_options" and "0 \<le> c"
  shows "(p \<in> set preset_options \<longrightarrow>
      (\<exists>st'. set_encode_settings (Some s) (Some c) (Some p) st = (st', Inr ()) \<and>
        encode_opts st' = \<lparr>eo_scale = scale_for s, eo_crf = clamp_crf c, eo_preset = p\<rparr>)) \<and>
    (p \<notin> set preset_options \<longrightarrow>
      (\<exists>st'. set_encode_settings (Some s) (Some c) (Some p) st = (st', Inl (BadRequest ''bad preset'')) \<and>
        encode_opts st' = \<lparr>eo_scale = scale_for s, eo_crf = clamp_crf c, eo_preset = eo_preset (encode_opts st)\<rparr>))"
proof -
  have keys: "scale_key \<noteq> crf_key" "scale_key \<noteq> preset_key" "crf_key \<noteq> preset_key" "crf_key \<noteq> scale_key"
    "preset_key \<noteq> scale_key" "preset_key \<noteq> crf_key"
    by (simp_all add: scale_key_def crf_key_def preset_key_def)
  have "parse_u32 (show_int (clamp_crf c)) = Some (clamp_crf c)"
    using parse_u64_show_int[of "clamp_crf c"] by (simp add: parse_u32_def clamp_crf_def u64_max_def)
  moreover have "clamp_crf (clamp_crf c) = clamp_crf c" by (simp add: clamp_crf_def)
  ultimately show ?thesis
    using assms(1) keys
    by (simp add: set_encode_settings_def encode_opts_def settings.get_put_same settings.get_put_other)
qed

theorem encode_settings_roundtrip_witness:
  "\<exists>st'. set_encode_settings (Some ''854'') (Some 99) (Some ''slow'') empty_state = (st', Inr ()) \<and>
     encode_opts st' = \<lparr>eo_scale = Some (854, 482), eo_crf = 35, eo_preset = ''slow''\<rparr>"
  using encode_settings_roundtrip[of "''854''" 99 "''slow''" empty_state]
  by (simp add: scale_options_def preset_options_def scale_for_def clamp_crf_def)

lemma movie_build_returns:
  assumes "\<And>p s. sane_duration (probe_duration os p s)"
  shows "movie_build os ht ev dongle ts cam st \<noteq> None"
proof -
  have "\<exists>x. build_wav os ht ps lead work st = Some x" for ps lead work
    using build_wav_not_None[OF assms] by blast
  then obtain f where f: "\<And>ps lead work. build_wav os ht ps lead work st = Some (f ps lead work)" by metis
  show ?thesis
    by (simp add: movie_build_def Let_def f split_beta split: option.split sum.split)
qed

lemma movie_builds_returns:
  assumes "\<And>p s. sane_duration (probe_duration os p s)"
  shows "\<exists>st'. movie_builds os ht ev todo st = Some st'"
proof (induction todo arbitrary: st)
  case (Cons x todo)
  obtain d t c where x: "x = (d, t, c)" by (cases x)
  obtain st1 r where "movie_build os ht ev d t c (on_movie_q (mq_begin (queue_label c t)) st) = Some (st1, r)"
    using movie_build_returns[OF assms] by (metis not_Some_eq surj_pair)
  then show ?case using Cons.IH by (simp add: x)
qed simp

text \<open>
  A sweep always comes to its end, however many movies are due and whatever fails, as long as the
  probed lengths are not infinite; and when there was something to do it leaves the badge idle.
\<close>

lemma movie_sweep_returns:
  assumes "\<And>p s. sane_duration (probe_duration os p s)"
  shows "\<exists>st'. movie_sweep os ht ev st = Some st' \<and>
    (if movie_todo st = [] then st' = st else mq_stats (movie_q st') = (0, None))"
proof (cases "movie_todo st = []")
  case True
  then show ?thesis by (simp add: movie_sweep_def)
next
  case False
  define s0 where "s0 = on_movie_q (mq_set_queue (map (\<lambda>(_, ts, cam). queue_label cam ts) (movie_todo st))) st"
  obtain st1 where "movie_builds os ht ev (movie_todo st) s0 = Some st1" using movie_builds_returns[OF assms] by blast
  then have "movie_sweep os ht ev st = Some (on_movie_q mq_clear st1)"
    using False by (simp add: movie_sweep_def Let_def s0_def)
  then show ?thesis using False by (simp add: on_movie_q_def mq_clear_def mq_stats_def)
qed

lemma movie_sweep_returns_witness:
  "\<exists>st'. movie_sweep demo_media demo_http id demo_movie_state = Some st'"
proof -
  have "sane_duration (probe_duration demo_media p s)" for p s
    by (simp add: probe_duration_def demo_media_def sane_duration_def)
  then show ?thesis using movie_sweep_returns by blast
qed

end
