(* ===== verification/Subs.thy ===== *)
theory Subs
  imports Movie Vtt
begin

text \<open>
  \<^verbatim>\<open>src/subs.rs\<close>: a drive's transcript. Settings, the build (the movie's audio, cleaned when
  possible, sent to whisper in chunks, the cues merged and stored as a WebVTT blob), the freshness
  table, the sweep and its relatives. WebVTT itself is in theory \<open>Vtt\<close>, the chunk loop in
  theory \<open>Denoise\<close>.
\<close>

section \<open>Settings\<close>

definition sb_enabled_key :: string where "sb_enabled_key = ''subs_enabled''"
definition sb_url_key :: string where "sb_url_key = ''whisper_url''"

definition subs_key :: "string \<Rightarrow> string \<Rightarrow> string" where
  "subs_key dongle ts = dongle @ ''_'' @ ts @ ''--subs--en.vtt''"

definition subs_enabled :: "app_state \<Rightarrow> bool" where
  "subs_enabled st = setting_flag st sb_enabled_key (c_subs_enabled (cfg st))"

definition set_subs_enabled :: "bool \<Rightarrow> app_state \<Rightarrow> app_state" where
  "set_subs_enabled on st = set_setting_flag sb_enabled_key on st"

definition whisper_url :: "app_state \<Rightarrow> string" where
  "whisper_url st = url_setting st sb_url_key (c_whisper_url (cfg st))"

definition set_whisper_url :: "string \<Rightarrow> app_state \<Rightarrow> app_state \<times> unit res" where
  "set_whisper_url url st = set_url_setting sb_url_key ''whisper url must be http(s)'' url st"

definition subs_probe :: "http_os \<Rightarrow> app_state \<Rightarrow> bool" where
  "subs_probe ht st = (whisper_url st \<noteq> [] \<and> http_up ht (whisper_url st))"

record subs_settings =
  ss_enabled :: bool
  ss_whisper_url :: string
  ss_reachable :: bool

definition subs_settings_json :: "http_os \<Rightarrow> app_state \<Rightarrow> subs_settings" where
  "subs_settings_json ht st =
     \<lparr>ss_enabled = subs_enabled st, ss_whisper_url = whisper_url st, ss_reachable = subs_probe ht st\<rparr>"

section \<open>Building\<close>

definition audio_segments :: "app_state \<Rightarrow> string \<Rightarrow> int list" where
  "audio_segments st fullname =
     map s_number (filter (\<lambda>s. s_qcam_url s \<noteq> []) (route_segments st fullname))"

definition subs_dir :: "app_state \<Rightarrow> string \<Rightarrow> string" where
  "subs_dir st fullname = path_join (path_join (c_data_dir (cfg st)) ''subs-work'') (safe_name fullname)"

definition resample_args :: "string \<Rightarrow> string \<Rightarrow> string list" where
  "resample_args src out =
     [''-nostdin'', ''-y'', ''-i'', src, ''-vn'', ''-ac'', ''1'', ''-ar'', ''16000'', ''-c:a'', ''pcm_s16le'', out]"

definition resample_wav :: "media_os \<Rightarrow> string \<Rightarrow> string \<Rightarrow> app_state \<Rightarrow> app_state \<times> bool" where
  "resample_wav os src out st =
     (let (st1, ok) = run_ffmpeg os (resample_args src out) st in (st1, ok \<and> nonempty st1 out))"

definition record_subs :: "string \<Rightarrow> int \<Rightarrow> int \<Rightarrow> int \<Rightarrow> app_state \<Rightarrow> app_state" where
  "record_subs fullname seg_count cues bytes st =
     st\<lparr>subs_tbl :=
       tbl_upsert sb_fullname
         \<lparr>sb_fullname = fullname, sb_seg_count = seg_count, sb_cues = cues, sb_bytes = bytes,
          sb_built_at = now_secs st, sb_disabled = 0\<rparr>
         (\<lambda>r. r\<lparr>sb_seg_count := seg_count, sb_cues := cues, sb_bytes := bytes, sb_built_at := now_secs st\<rparr>)
         (subs_tbl st)\<rparr>"

text \<open>\<open>transcribe\<close>: the parts of the form, and the text of the answer.\<close>

definition transcribe :: "media_os \<Rightarrow> http_os \<Rightarrow> string \<Rightarrow> string \<Rightarrow> app_state \<Rightarrow> string + string" where
  "transcribe os ht url wav st =
     (case fs_get (files_on_disk st) wav of
        None \<Rightarrow> Inl ''no such file''
      | Some bytes \<Rightarrow>
        (case ht_post ht (url @ ''/inference'')
                [(''file'', bytes), (''response_format'', ''vtt''), (''temperature'', ''0.0'')] of
           HttpErr e \<Rightarrow> Inl e
         | HttpResp status reason body \<Rightarrow>
             if \<not> is_success status then Inl (''whisper returned '' @ reason)
             else Inr (mo_lossy os body)))"

text \<open>The toggle is read again before every chunk: \<open>ev\<close> is what other requests did meanwhile.\<close>

definition subs_chunk ::
    "media_os \<Rightarrow> http_os \<Rightarrow> (app_state \<Rightarrow> app_state) \<Rightarrow> string \<Rightarrow> string \<Rightarrow> int \<Rightarrow> string \<Rightarrow> f64 \<Rightarrow>
     app_state \<times> cue list \<Rightarrow> (app_state \<times> cue list) \<times> app_error flow" where
  "subs_chunk os ht ev fullname url seg_count dir offset s =
     (let st = ev (fst s); cues = snd s; chunk = chunk_file dir ''chunk'' offset
      in if \<not> subs_enabled st
         then ((cleanup dir st, cues), Return (Other ''subtitle build aborted (disabled)''))
         else
           let (st1, cut) = slice_wav os (path_join dir ''audio.wav'') offset chunk_secs chunk st
           in if \<not> cut then ((st1, cues), Break)
              else case transcribe os ht url chunk st1 of
                     Inl e \<Rightarrow>
                       ((record_subs fullname seg_count 0 0 (cleanup dir st1), cues),
                        Return (Other (''whisper: '' @ e)))
                   | Inr vtt \<Rightarrow> ((remove_file chunk st1, cues @ shift (parse_vtt vtt) offset), Next))"

definition subs_store ::
    "string \<Rightarrow> string \<Rightarrow> string \<Rightarrow> int \<Rightarrow> cue list \<Rightarrow> app_state \<Rightarrow> app_state \<times> nat res" where
  "subs_store fullname dongle ts seg_count cues st =
     (let vtt = render_vtt cues
      in case blob_put st (subs_key dongle ts) vtt of
           (st1, Inl e) \<Rightarrow> (st1, Inl (Other e))
         | (st1, Inr _) \<Rightarrow>
             (record_subs fullname seg_count (int (length cues)) (int (length vtt)) st1, Inr (length cues)))"

text \<open>The audio of the build: the cleaned track resampled, or the raw one extracted.\<close>

definition subs_audio ::
    "media_os \<Rightarrow> string list \<Rightarrow> f64 \<Rightarrow> string \<Rightarrow> string option \<Rightarrow> app_state \<Rightarrow> app_state \<times> bool" where
  "subs_audio os paths lead dir clean st =
     (let wav = path_join dir ''audio.wav'';
          (st1, ok) = (case clean of
              Some src \<Rightarrow> resample_wav os src wav st
            | None \<Rightarrow> extract_wav os ''16000'' paths lead wav st)
      in (cleanup (path_join dir ''denoise'') st1, ok))"

definition subs_transcribe ::
    "media_os \<Rightarrow> http_os \<Rightarrow> (app_state \<Rightarrow> app_state) \<Rightarrow> string \<Rightarrow> string \<Rightarrow> int \<Rightarrow> string \<Rightarrow> app_state \<Rightarrow>
     (app_state \<times> nat res) option" where
  "subs_transcribe os ht ev dongle ts seg_count dir st =
     (let fullname = fullname_of dongle ts;
          wav = path_join dir ''audio.wav'';
          len = (case probe_duration os wav st of Some d \<Rightarrow> d | None \<Rightarrow> f_zero);
          url = whisper_url st
      in if url = [] then Some (cleanup dir st, Inl (BadRequest ''no whisper url configured''))
         else if \<not> ht_client ht then Some (st, Inl (Other ''http client''))
         else case chunk_loop (subs_chunk os ht ev fullname url seg_count dir) len f_zero (st, []) of
                None \<Rightarrow> None
              | Some ((st1, cues), Return e) \<Rightarrow> Some (st1, Inl e)
              | Some ((st1, cues), _) \<Rightarrow> Some (subs_store fullname dongle ts seg_count cues (cleanup dir st1)))"

definition subs_build ::
    "media_os \<Rightarrow> http_os \<Rightarrow> (app_state \<Rightarrow> app_state) \<Rightarrow> string \<Rightarrow> string \<Rightarrow> app_state \<Rightarrow>
     (app_state \<times> nat res) option" where
  "subs_build os ht ev dongle ts st =
     (let fullname = fullname_of dongle ts;
          segs = audio_segments st fullname;
          seg_count = int (length segs);
          paths = blob_paths st dongle ts ''qcamera.ts'' segs;
          dir = subs_dir st fullname
      in if paths = []
         then Some (record_subs fullname seg_count 0 0 st, Inl (NotFound (''no audio for '' @ fullname)))
         else if \<not> disk_ok st dir then Some (st, Inl (Other ''io error''))
         else case build_wav os ht paths (av_lead os (hd paths) st) (path_join dir ''denoise'') st of
                None \<Rightarrow> None
              | Some (st1, clean) \<Rightarrow>
                  let (st2, ok) = subs_audio os paths (av_lead os (hd paths) st) dir clean st1
                  in if \<not> ok
                     then Some (record_subs fullname seg_count 0 0 (cleanup dir st2),
                                Inl (Other (''audio extract failed for '' @ fullname)))
                     else subs_transcribe os ht ev dongle ts seg_count dir st2)"

section \<open>Status, deletion and the sweep\<close>

definition find_subs :: "app_state \<Rightarrow> string \<Rightarrow> subs_row option" where
  "find_subs st fullname = tbl_find sb_fullname fullname (subs_tbl st)"

record subs_info =
  si_ready :: bool
  si_disabled :: bool
  si_cues :: int

definition subs_status :: "app_state \<Rightarrow> string \<Rightarrow> subs_info" where
  "subs_status st fullname =
     (case split_once_str ''|'' fullname of
        None \<Rightarrow> \<lparr>si_ready = False, si_disabled = False, si_cues = 0\<rparr>
      | Some (dongle, ts) \<Rightarrow>
          let row = find_subs st fullname;
              disabled = (case row of Some r \<Rightarrow> sb_disabled r = 1 | None \<Rightarrow> False)
          in \<lparr>si_ready = (\<not> disabled \<and> row \<noteq> None \<and> blob_exists st (subs_key dongle ts)),
              si_disabled = disabled,
              si_cues = (case row of Some r \<Rightarrow> sb_cues r | None \<Rightarrow> 0)\<rparr>)"

definition subs_delete :: "string \<Rightarrow> string \<Rightarrow> app_state \<Rightarrow> app_state" where
  "subs_delete dongle ts st =
     (let st1 = blob_delete (subs_key dongle ts) st
      in st1\<lparr>subs_tbl := tbl_delete (\<lambda>r. sb_fullname r = fullname_of dongle ts) (subs_tbl st1)\<rparr>)"

definition subs_disable :: "string \<Rightarrow> string \<Rightarrow> app_state \<Rightarrow> app_state" where
  "subs_disable dongle ts st =
     (let st1 = blob_delete (subs_key dongle ts) st
      in st1\<lparr>subs_tbl :=
           tbl_upsert sb_fullname
             \<lparr>sb_fullname = fullname_of dongle ts, sb_seg_count = 0, sb_cues = 0, sb_bytes = 0,
              sb_built_at = now_secs st1, sb_disabled = 1\<rparr>
             (\<lambda>r. r\<lparr>sb_disabled := 1, sb_bytes := 0\<rparr>) (subs_tbl st1)\<rparr>)"

text \<open>What the sweep read at its start decides; the blobs are looked at when the turn comes.\<close>

definition subs_skip :: "subs_row list \<Rightarrow> app_state \<Rightarrow> string \<Rightarrow> string \<Rightarrow> string \<Rightarrow> nat \<Rightarrow> bool" where
  "subs_skip rows st fullname dongle ts tot =
     (case tbl_find sb_fullname fullname rows of
        None \<Rightarrow> False
      | Some r \<Rightarrow>
          sb_disabled r = 1 \<or>
          (sb_seg_count r = int tot \<and> (sb_bytes r = 0 \<or> blob_exists st (subs_key dongle ts))))"

definition subs_wanted :: "subs_row list \<Rightarrow> nat \<times> nat \<Rightarrow> app_state \<Rightarrow> route \<Rightarrow> bool" where
  "subs_wanted rows cov st r =
     (case split_once_str ''|'' (r_fullname r) of
        None \<Rightarrow> False
      | Some (_, ts) \<Rightarrow>
          fst cov \<noteq> 0 \<and> snd cov = fst cov \<and>
          \<not> subs_skip rows st (r_fullname r) (r_device_dongle_id r) ts (fst cov))"

fun subs_builds ::
    "media_os \<Rightarrow> http_os \<Rightarrow> (app_state \<Rightarrow> app_state) \<Rightarrow> subs_row list \<Rightarrow> (route \<times> nat \<times> nat) list \<Rightarrow>
     app_state \<Rightarrow> app_state option" where
  "subs_builds os ht ev rows [] st = Some st"
| "subs_builds os ht ev rows ((r, cov) # rest) st =
     (if \<not> subs_enabled st then Some st
      else if \<not> subs_wanted rows cov st r then subs_builds os ht ev rows rest st
      else case split_once_str ''|'' (r_fullname r) of
             None \<Rightarrow> subs_builds os ht ev rows rest st
           | Some (_, ts) \<Rightarrow>
             (case subs_build os ht ev (r_device_dongle_id r) ts st of
                None \<Rightarrow> None
              | Some (st1, _) \<Rightarrow> subs_builds os ht ev rows rest st1))"

definition subs_sweep ::
    "media_os \<Rightarrow> http_os \<Rightarrow> (app_state \<Rightarrow> app_state) \<Rightarrow> app_state \<Rightarrow> app_state option" where
  "subs_sweep os ht ev st =
     subs_builds os ht ev (subs_tbl st)
       (map (\<lambda>r. (r, coverage st (r_fullname r) ''qcam_url'')) (routes st)) st"

definition delete_subs_blob :: "subs_row \<Rightarrow> app_state \<Rightarrow> app_state" where
  "delete_subs_blob r st =
     (case split_once_str ''|'' (sb_fullname r) of
        Some (dongle, ts) \<Rightarrow> blob_delete (subs_key dongle ts) st
      | None \<Rightarrow> st)"

definition rebuild_all :: "app_state \<Rightarrow> app_state \<times> nat" where
  "rebuild_all st =
     (let rows = filter (\<lambda>r. sb_disabled r = 0) (subs_tbl st);
          st1 = fold delete_subs_blob rows st
      in (st1\<lparr>subs_tbl := tbl_delete (\<lambda>r. sb_disabled r = 0) (subs_tbl st1)\<rparr>, length rows))"

definition subs_start :: "app_state \<Rightarrow> app_state" where
  "subs_start st =
     st\<lparr>subs_tbl := tbl_delete (\<lambda>r. sb_bytes r = 0 \<and> sb_disabled r = 0) (subs_tbl st)\<rparr>"

definition subs_turn ::
    "media_os \<Rightarrow> http_os \<Rightarrow> (app_state \<Rightarrow> app_state) \<Rightarrow> app_state \<Rightarrow> (app_state \<times> int) option" where
  "subs_turn os ht ev st =
     map_option (\<lambda>st1. (st1, max (movie_interval st1) 60))
       (if subs_enabled st then subs_sweep os ht ev st else Some st)"

section \<open>Lemmas\<close>

lemma find_record_subs:
  "\<exists>r. find_subs (record_subs f n c b st) f = Some r \<and> sb_seg_count r = n \<and> sb_cues r = c \<and> sb_bytes r = b \<and>
    (sb_disabled r = (case find_subs st f of Some r \<Rightarrow> sb_disabled r | None \<Rightarrow> 0))"
  unfolding record_subs_def find_subs_def by (simp add: tbl_find_upsert split: option.split)

lemma record_subs_frame [simp]:
  "blob_get (record_subs f n c b st) = blob_get st" "blob_exists (record_subs f n c b st) = blob_exists st"
  "segments (record_subs f n c b st) = segments st"
  by (simp_all add: record_subs_def blob_exists_def fun_eq_iff)

lemma subs_store_InrD:
  assumes "subs_store f dongle ts n cues st = (st', Inr c)"
  shows "c = length cues \<and> blob_get st' (subs_key dongle ts) = Some (render_vtt cues) \<and>
    (\<exists>r. find_subs st' f = Some r \<and> sb_seg_count r = n \<and> sb_cues r = int c \<and>
       sb_bytes r = int (length (render_vtt cues)))"
proof (cases rule: blob_put_cases[of st "subs_key dongle ts" "render_vtt cues"])
  case (1 e)
  then show ?thesis using assms by (cases "blob_put st (subs_key dongle ts) (render_vtt cues)") (simp add: subs_store_def Let_def)
next
  case 2
  then have "st' = record_subs f n (int (length cues)) (int (length (render_vtt cues))) (blob_write (subs_key dongle ts) (render_vtt cues) st)"
    "c = length cues"
    using assms by (auto simp: subs_store_def Let_def)
  then show ?thesis using find_record_subs by (fastforce simp: blobs.get_put_same)
qed

lemma subs_transcribe_InrD:
  assumes "subs_transcribe os ht ev dongle ts n dir st = Some (st', Inr c)"
  shows "\<exists>cues st1. subs_store (fullname_of dongle ts) dongle ts n cues st1 = (st', Inr c)"
  using assms by (auto simp: subs_transcribe_def Let_def split: if_splits option.splits prod.splits flow.splits)

lemma subs_build_InrD:
  assumes "subs_build os ht ev dongle ts st = Some (st', Inr c)"
  shows "\<exists>dir st2. subs_transcribe os ht ev dongle ts (int (length (audio_segments st (fullname_of dongle ts)))) dir st2 =
    Some (st', Inr c)"
  using assms by (auto simp: subs_build_def Let_def split_beta split: if_splits option.splits)

text \<open>A build ends in every case.\<close>

lemma subs_transcribe_returns:
  assumes "\<And>p s. sane_duration (probe_duration os p s)"
  shows "subs_transcribe os ht ev dongle ts n dir st \<noteq> None"
proof -
  obtain s cues f where "chunk_loop (subs_chunk os ht ev (fullname_of dongle ts) (whisper_url st) n dir)
      (case probe_duration os (path_join dir ''audio.wav'') st of Some d \<Rightarrow> d | None \<Rightarrow> f_zero) f_zero (st, []) =
      Some ((s, cues), f)"
    using chunk_loop_ends sane_duration_max[OF assms] by (metis surj_pair)
  then show ?thesis by (simp add: subs_transcribe_def Let_def split: flow.split)
qed

lemma subs_build_returns:
  assumes "\<And>p s. sane_duration (probe_duration os p s)"
  shows "\<exists>x. subs_build os ht ev dongle ts st = Some x"
proof -
  have "\<exists>x. build_wav os ht ps lead work s = Some x" for ps lead work s
    using build_wav_not_None[OF assms] by blast
  then obtain w where w: "\<And>ps lead work s. build_wav os ht ps lead work s = Some (w ps lead work s)" by metis
  have "\<exists>x. subs_transcribe os ht ev dongle ts n dir s = Some x" for n dir s
    using subs_transcribe_returns[OF assms] by blast
  then show ?thesis by (simp add: subs_build_def Let_def w split_beta)
qed

lemma subs_builds_returns:
  assumes "\<And>p s. sane_duration (probe_duration os p s)"
  shows "\<exists>st'. subs_builds os ht ev rows work st = Some st'"
proof (induction work arbitrary: st)
  case (Cons x work)
  obtain r cov where x: "x = (r, cov)" by (cases x)
  have "\<exists>y. subs_build os ht ev d ts s = Some y" for d ts s by (rule subs_build_returns[OF assms])
  then obtain b where "\<And>d ts s. subs_build os ht ev d ts s = Some (b d ts s)" by metis
  then show ?case using Cons.IH by (simp add: x split_beta split: option.split)
qed simp

text \<open>The toggle: a sweep that starts with it off does nothing.\<close>

lemma subs_sweep_disabled: "\<not> subs_enabled st \<Longrightarrow> subs_sweep os ht ev st = Some st"
proof -
  assume off: "\<not> subs_enabled st"
  have "subs_builds os ht ev rows work st = Some st" for rows work
  proof (cases work)
    case (Cons x xs)
    then show ?thesis using off by (cases x) simp
  qed simp
  then show ?thesis by (simp add: subs_sweep_def)
qed

section \<open>Properties\<close>

text \<open>
  C23: a transcription that reports success has stored what it reports. The blob of the drive is the
  WebVTT document of as many cues as the answer says, the row carries the document's size (never
  zero, the mark of a failed attempt, even for a silent drive) and the number of audio segments it
  was made from, and therefore the next sweep leaves the drive alone until that number changes.
\<close>

theorem subs_build_stores:
  assumes run: "subs_build os ht ev dongle ts st = Some (st', Inr n)"
    and r: "r_fullname r = fullname_of dongle ts" "r_device_dongle_id r = dongle" "CHR ''|'' \<notin> set dongle"
    and cov: "cov = coverage st (fullname_of dongle ts) ''qcam_url''" "snd cov = fst cov"
  shows "(\<exists>cues row. length cues = n \<and> blob_get st' (subs_key dongle ts) = Some (render_vtt cues) \<and>
      find_subs st' (fullname_of dongle ts) = Some row \<and> sb_cues row = int n \<and> 0 < sb_bytes row \<and>
      sb_bytes row = int (length (render_vtt cues))) \<and>
    \<not> subs_wanted (subs_tbl st') cov st' r"
proof -
  obtain dir st2 where "subs_transcribe os ht ev dongle ts (int (length (audio_segments st (fullname_of dongle ts)))) dir st2 =
      Some (st', Inr n)"
    using subs_build_InrD[OF run] by blast
  then obtain cues st1 where s: "subs_store (fullname_of dongle ts) dongle ts
      (int (length (audio_segments st (fullname_of dongle ts)))) cues st1 = (st', Inr n)"
    using subs_transcribe_InrD by blast
  then obtain row where row: "find_subs st' (fullname_of dongle ts) = Some row" "sb_cues row = int n"
      "sb_seg_count row = int (length (audio_segments st (fullname_of dongle ts)))"
      "sb_bytes row = int (length (render_vtt cues))"
      "n = length cues" "blob_get st' (subs_key dongle ts) = Some (render_vtt cues)"
    using subs_store_InrD[OF s] by blast
  have pos: "0 < length (render_vtt cues)" by (simp add: render_vtt_def)
  have "length (audio_segments st (fullname_of dongle ts)) = snd cov"
    by (simp add: audio_segments_def cov(1) coverage_def url_of_def route_segments_length)
  then have "subs_skip (subs_tbl st') st' (fullname_of dongle ts) dongle ts (fst cov)"
    using row cov(2) by (simp add: subs_skip_def find_subs_def blob_exists_def)
  moreover have "split_once_str ''|'' (fullname_of dongle ts) = Some (dongle, ts)"
    using r(3) split_once_char_append[of "CHR ''|''" dongle ts] by (simp add: fullname_of_def)
  ultimately have "\<not> subs_wanted (subs_tbl st') cov st' r" using r by (simp add: subs_wanted_def)
  then show ?thesis using row pos by (intro conjI exI[of _ cues] exI[of _ row]) simp_all
qed

definition demo_subs_state :: app_state where
  "demo_subs_state = set_subs_enabled True (settings_set sb_url_key ''http://w'' demo_movie_state)"

lemma demo_subs_facts:
  "subs_enabled demo_subs_state" "whisper_url demo_subs_state \<noteq> []" "\<not> denoise_enabled demo_subs_state"
  "disk_ok demo_subs_state = (\<lambda>_. True)" "segments demo_subs_state = segments demo_movie_state"
  "path_for demo_subs_state = path_for demo_movie_state" "files_on_disk demo_subs_state = files_on_disk demo_movie_state"
  "cfg demo_subs_state = demo_config"
proof -
  have k: "sb_url_key \<noteq> sb_enabled_key" "dn_enabled_key \<noteq> sb_enabled_key" "dn_enabled_key \<noteq> sb_url_key"
    by (simp_all add: sb_url_key_def sb_enabled_key_def dn_enabled_key_def)
  show "subs_enabled demo_subs_state"
    by (simp add: demo_subs_state_def subs_enabled_def set_subs_enabled_def setting_flag_set)
  have "settings_get demo_subs_state sb_url_key = Some ''http://w''"
    using k by (simp add: demo_subs_state_def set_subs_enabled_def set_setting_flag_def settings.get_put_same settings.get_put_other)
  moreover have "trim ''http://w'' = ''http://w''" "trim_end_matches (CHR ''/'') ''http://w'' = ''http://w''"
    by code_simp+
  ultimately show "whisper_url demo_subs_state \<noteq> []" by (simp add: whisper_url_def url_setting_def)
  show "\<not> denoise_enabled demo_subs_state"
    using k by (simp add: denoise_enabled_def demo_subs_state_def set_subs_enabled_def set_setting_flag_def
        setting_flag_def settings.get_put_other settings_set_frame)
      (simp add: settings_get_def demo_config_def)
qed (simp_all add: demo_subs_state_def set_subs_enabled_def set_setting_flag_def settings_set_def)

lemma demo_subs_build: "\<exists>st'. subs_build demo_media demo_http id ''d'' ''t'' demo_subs_state = Some (st', Inr 0)"
proof -
  let ?st = demo_subs_state
  note F = demo_subs_facts
  have "blob_get demo_movie_state (blob_key ''d'' ''t'' 0 ''qcamera.ts'') = Some ''ts''"
    unfolding demo_movie_state_def by (simp add: blobs.get_put_same)
  then have ne: "nonempty ?st (path_for ?st (blob_key ''d'' ''t'' 0 ''qcamera.ts''))"
    by (simp add: nonempty_def file_len_def blob_get_def F)
  have segs: "audio_segments ?st ''d|t'' = [0]"
    by (simp add: audio_segments_def route_segments_def F new_segment_def)
  have wav: "build_wav demo_media demo_http p l w ?st = Some (?st, None)" for p l w
    using F(3) by (simp add: build_wav_def)
  have run: "run_ffmpeg demo_media args s = (s\<lparr>files_on_disk := fs_put (last args) ''h264'' (files_on_disk s)\<rparr>, True)" for args s
    by (simp add: run_ffmpeg_def demo_media_def)
  have len: "file_len (s\<lparr>files_on_disk := fs_put p ''h264'' (files_on_disk s)\<rparr>) p = 4" for s p
    by (simp add: file_len_def fs_get_put)
  have pd: "probe_duration demo_media p s = None" for p s by (simp add: probe_duration_def demo_media_def)
  have enabled: "subs_enabled (s\<lparr>files_on_disk := x\<rparr>) = subs_enabled s" "whisper_url (s\<lparr>files_on_disk := x\<rparr>) = whisper_url s"
    for s x by (simp_all add: subs_enabled_def setting_flag_def settings_get_def whisper_url_def url_setting_def)

  define dir where "dir = subs_dir ?st ''d|t''"
  define st1 where "st1 = ?st\<lparr>files_on_disk := fs_put (path_join dir ''audio.wav'') ''h264'' (files_on_disk ?st)\<rparr>"
  define st2 where "st2 = cleanup (path_join dir ''denoise'') st1"
  have audio: "subs_audio demo_media ps l dir None ?st = (st2, True)" for ps l
    by (simp add: subs_audio_def extract_wav_def run nonempty_def len st1_def st2_def Let_def)
  have st2: "subs_enabled st2" "whisper_url st2 \<noteq> []" "disk_ok st2 = (\<lambda>_. True)"
    using F by (simp_all add: st2_def cleanup_def st1_def enabled)
  have store: "\<exists>st'. subs_store f d t n [] s = (st', Inr 0)" if "disk_ok s = (\<lambda>_. True)" for f d t n s
    using that by (simp add: subs_store_def blob_put_def Let_def)
  have body: "\<exists>s'. subs_chunk demo_media demo_http id f u n dir off (st2, []) = ((s', []), Break) \<and> disk_ok s' = (\<lambda>_. True)"
    for f u n off
    using st2 by (simp add: subs_chunk_def slice_wav_def run len Let_def)
  have loop: "\<exists>s' fl. chunk_loop (subs_chunk demo_media demo_http id f u n dir) f_zero f_zero (st2, []) = Some ((s', []), fl) \<and>
      (fl = Break \<or> fl = Next) \<and> disk_ok s' = (\<lambda>_. True)" for f u n
    using body[of f u n f_zero] st2(3) by (subst chunk_loop.simps) (auto split: prod.splits)
  have "\<exists>st'. subs_transcribe demo_media demo_http id ''d'' ''t'' n dir st2 = Some (st', Inr 0)" for n
  proof -
    obtain s' fl where l: "chunk_loop (subs_chunk demo_media demo_http id (fullname_of ''d'' ''t'') (whisper_url st2) n dir)
        f_zero f_zero (st2, []) = Some ((s', []), fl)" "fl = Break \<or> fl = Next" "disk_ok s' = (\<lambda>_. True)"
      using loop by blast
    then obtain st' where "subs_store (fullname_of ''d'' ''t'') ''d'' ''t'' n [] (cleanup dir s') = (st', Inr 0)"
      using store[of "cleanup dir s'" "fullname_of ''d'' ''t''" "''d''" "''t''" n] by (auto simp: cleanup_def)
    then show ?thesis using l st2(2) by (auto simp: subs_transcribe_def pd demo_http_def Let_def)
  qed
  then show ?thesis
    using F(4) by (simp add: subs_build_def fullname_of_def segs blob_paths_def ne wav audio dir_def[symmetric] Let_def)
qed

theorem subs_build_stores_witness:
  "\<exists>st'. subs_build demo_media demo_http id ''d'' ''t'' demo_subs_state = Some (st', Inr 0) \<and>
     blob_get st' (subs_key ''d'' ''t'') = Some (render_vtt [])"
proof -
  obtain st' where b: "subs_build demo_media demo_http id ''d'' ''t'' demo_subs_state = Some (st', Inr 0)"
    using demo_subs_build by blast
  have "coverage demo_subs_state (fullname_of ''d'' ''t'') ''qcam_url'' = (1, 1)"
    by (simp add: coverage_def demo_subs_facts fullname_of_def url_of_def new_segment_def)
  then have cov: "(1, 1) = coverage demo_subs_state (fullname_of ''d'' ''t'') ''qcam_url''" by simp
  have r: "r_fullname (new_route ''d|t'' ''d'' 0) = fullname_of ''d'' ''t''"
      "r_device_dongle_id (new_route ''d|t'' ''d'' 0) = ''d''" "CHR ''|'' \<notin> set ''d''"
    by (simp_all add: new_route_def fullname_of_def)
  have "snd (1::nat, 1::nat) = fst (1::nat, 1::nat)" by simp
  from conjunct1[OF subs_build_stores[OF b r cov this]]
  obtain cues where "length cues = 0" "blob_get st' (subs_key ''d'' ''t'') = Some (render_vtt cues)" by blast
  then have "blob_get st' (subs_key ''d'' ''t'') = Some (render_vtt [])" by simp
  then show ?thesis using b by blast
qed

text \<open>
  A transcription sweep always comes to its end, and one that starts with the feature switched
  off does nothing.
\<close>

theorem subs_sweep_returns:
  assumes "\<And>p s. sane_duration (probe_duration os p s)"
  shows "\<exists>st'. subs_sweep os ht ev st = Some st' \<and> (subs_enabled st \<or> st' = st)"
proof (cases "subs_enabled st")
  case True
  have "\<exists>st'. subs_sweep os ht ev st = Some st'"
    unfolding subs_sweep_def by (rule subs_builds_returns) (rule assms)
  then show ?thesis using True by blast
next
  case False
  then show ?thesis using subs_sweep_disabled by blast
qed

theorem subs_sweep_returns_witness:
  "\<exists>st'. subs_sweep demo_media demo_http id demo_subs_state = Some st'"
proof -
  have "sane_duration (probe_duration demo_media p s)" for p s
    by (simp add: probe_duration_def demo_media_def sane_duration_def)
  then show ?thesis using subs_sweep_returns[of demo_media demo_http id demo_subs_state] by blast
qed

end
