(* ===== verification/Serve.thy ===== *)
theory Serve
  imports Movie Subs "HOL-Library.Word"
begin

text \<open>
  \<^verbatim>\<open>src/serve.rs\<close>: the media handlers. A file is answered whole, or the one byte range the
  request asks for; every handler passes the route gate \<open>check_route_access\<close> first. Lengths and
  offsets are \<open>u64\<close>: \<open>len - 1\<close> wraps for an empty file, as in a release build.
\<close>

type_synonym u64 = "64 word"

section \<open>Ranges\<close>

definition content_type :: "string \<Rightarrow> string" where
  "content_type file =
     (let lower = to_ascii_lowercase file
      in if ends_with ''.ts'' lower then ''video/mp2t''
         else if ends_with ''.m3u8'' lower then ''application/vnd.apple.mpegurl''
         else if ends_with ''.mp4'' lower \<or> ends_with ''.m4s'' lower then ''video/mp4''
         else if ends_with ''.hevc'' lower then ''video/h265''
         else if ends_with ''.json'' lower then ''application/json''
         else if ends_with ''.jpg'' lower \<or> ends_with ''.jpeg'' lower then ''image/jpeg''
         else if ends_with ''.bz2'' lower then ''application/x-bzip2''
         else if ends_with ''.zst'' lower then ''application/zstd''
         else ''application/octet-stream'')"

text \<open>\<open>HeaderValue::to_str\<close>: visible ASCII and tabs only.\<close>

definition header_to_str :: "string \<Rightarrow> string option" where
  "header_to_str v = (if list_all (\<lambda>c. (32 \<le> code c \<and> code c < 127) \<or> code c = 9) v then Some v else None)"

definition parse_word :: "string \<Rightarrow> u64 option" where
  "parse_word s = map_option word_of_int (parse_u64 s)"

text \<open>The two ends as the header writes them, before they are checked against the length.\<close>

definition range_ends :: "string \<Rightarrow> string \<Rightarrow> u64 \<Rightarrow> (u64 \<times> u64) option" where
  "range_ends s e len =
     (if s = [] \<and> e = [] then None
      else if s = [] then map_option (\<lambda>n. (len - min n len, len - 1)) (parse_word e)
      else if e = [] then map_option (\<lambda>a. (a, len - 1)) (parse_word s)
      else case parse_word s of
             None \<Rightarrow> None
           | Some a \<Rightarrow> map_option (\<lambda>b. (a, min b (len - 1))) (parse_word e))"

definition parse_range :: "string option \<Rightarrow> u64 \<Rightarrow> (u64 \<times> u64) option" where
  "parse_range hdr len =
     (case Option.bind hdr header_to_str of
        None \<Rightarrow> None
      | Some raw \<Rightarrow>
        (case strip_prefix ''bytes='' raw of
           None \<Rightarrow> None
         | Some spec \<Rightarrow>
             if CHR '','' \<in> set spec then None
             else case split_once_str ''-'' spec of
                    None \<Rightarrow> None
                  | Some (s, e) \<Rightarrow>
                    (case range_ends (trim s) (trim e) len of
                       None \<Rightarrow> None
                     | Some (start, stop) \<Rightarrow>
                         if start > stop \<or> start \<ge> len then None else Some (start, stop))))"

section \<open>Responses\<close>

record response =
  rs_status :: nat
  rs_content_type :: string
  rs_accept_ranges :: string
  rs_content_range :: "string option"
  rs_content_length :: string
  rs_body :: string

definition show_u64 :: "u64 \<Rightarrow> string" where
  "show_u64 w = show_nat (unat w)"

text \<open>\<open>seek\<close> to the start, then at most \<open>chunk\<close> bytes of the rest.\<close>

definition serve_file :: "app_state \<Rightarrow> string \<Rightarrow> string \<Rightarrow> string option \<Rightarrow> response res" where
  "serve_file st path ct hdr =
     (case fs_get (files_on_disk st) path of
        None \<Rightarrow> Inl (NotFound ''file not found'')
      | Some c \<Rightarrow>
          let len = word_of_nat (length c) :: u64
          in case parse_range hdr len of
               Some (start, stop) \<Rightarrow>
                 let chunk = stop - start + 1
                 in Inr \<lparr>rs_status = 206, rs_content_type = ct, rs_accept_ranges = ''bytes'',
                         rs_content_range =
                           Some (''bytes '' @ show_u64 start @ ''-'' @ show_u64 stop @ ''/'' @ show_u64 len),
                         rs_content_length = show_u64 chunk,
                         rs_body = take (unat chunk) (drop (unat start) c)\<rparr>
             | None \<Rightarrow>
                 Inr \<lparr>rs_status = 200, rs_content_type = ct, rs_accept_ranges = ''bytes'',
                      rs_content_range = None, rs_content_length = show_u64 len, rs_body = c\<rparr>)"

section \<open>Handlers\<close>

text \<open>\<open>serve_blob\<close>, behind both \<open>connectdata\<close> routes.\<close>

definition serve_blob ::
    "app_state \<Rightarrow> string \<Rightarrow> string \<Rightarrow> int \<Rightarrow> string \<Rightarrow> auth option \<Rightarrow> string option \<Rightarrow> response res" where
  "serve_blob st dongle timestamp segment file auth hdr =
     (case check_route_access st (fullname_of dongle timestamp) dongle auth of
        Inl e \<Rightarrow> Inl e
      | Inr _ \<Rightarrow>
          serve_file st (path_for st (blob_key dongle timestamp segment file)) (content_type file) hdr)"

definition serve_transcode ::
    "media_os \<Rightarrow> string \<Rightarrow> string \<Rightarrow> int \<Rightarrow> string \<Rightarrow> auth option \<Rightarrow> string option \<Rightarrow> app_state \<Rightarrow>
     app_state \<times> response res" where
  "serve_transcode os dongle timestamp segment file auth hdr st =
     (case check_route_access st (fullname_of dongle timestamp) dongle auth of
        Inl e \<Rightarrow> (st, Inl e)
      | Inr _ \<Rightarrow>
          let cam = (case strip_suffix ''.ts'' file of Some c \<Rightarrow> c | None \<Rightarrow> file)
          in case ensure_transcode os dongle timestamp segment cam st of
               (st1, Inl e) \<Rightarrow> (st1, Inl e)
             | (st1, Inr path) \<Rightarrow> (st1, serve_file st1 path ''video/mp2t'' hdr))"

definition serve_audio ::
    "media_os \<Rightarrow> string \<Rightarrow> string \<Rightarrow> int \<Rightarrow> auth option \<Rightarrow> string option \<Rightarrow> app_state \<Rightarrow>
     app_state \<times> response res" where
  "serve_audio os dongle timestamp segment auth hdr st =
     (case check_route_access st (fullname_of dongle timestamp) dongle auth of
        Inl e \<Rightarrow> (st, Inl e)
      | Inr _ \<Rightarrow>
        (case ensure_audio os dongle timestamp segment st of
           (st1, Inl e) \<Rightarrow> (st1, Inl e)
         | (st1, Inr path) \<Rightarrow> (st1, serve_file st1 path ''video/mp2t'' hdr)))"

definition serve_movie ::
    "app_state \<Rightarrow> string \<Rightarrow> string \<Rightarrow> auth option \<Rightarrow> string option \<Rightarrow> response res" where
  "serve_movie st fullname cam auth hdr =
     (case split_fullname fullname of
        Inl e \<Rightarrow> Inl e
      | Inr (dongle, timestamp) \<Rightarrow>
        (case check_route_access st fullname dongle auth of
           Inl e \<Rightarrow> Inl e
         | Inr _ \<Rightarrow>
             let stem = (case strip_suffix ''.mp4'' cam of Some s \<Rightarrow> s | None \<Rightarrow> cam)
             in if stem \<notin> set movie_cams then Inl (BadRequest ''unknown camera'')
                else serve_file st (path_for st (movie_key dongle timestamp stem)) ''video/mp4'' hdr))"

definition serve_subs :: "app_state \<Rightarrow> string \<Rightarrow> auth option \<Rightarrow> string option \<Rightarrow> response res" where
  "serve_subs st fullname auth hdr =
     (case split_fullname fullname of
        Inl e \<Rightarrow> Inl e
      | Inr (dongle, timestamp) \<Rightarrow>
        (case check_route_access st fullname dongle auth of
           Inl e \<Rightarrow> Inl e
         | Inr _ \<Rightarrow>
             serve_file st (path_for st (subs_key dongle timestamp)) ''text/vtt; charset=utf-8'' hdr))"


section \<open>Lemmas\<close>

lemma parse_range_SomeD:
  assumes "parse_range hdr len = Some (a, b)"
  shows "a \<le> b" "b < len"
proof -
  obtain s e where r: "range_ends s e len = Some (a, b)" "\<not> a > b" "\<not> a \<ge> len"
    using assms by (auto simp: parse_range_def split: option.splits if_splits)
  show "a \<le> b" using r by simp
  have "len \<noteq> 0" using r(3) by auto
  then have top: "len - 1 < len" using unat_gt_0[of len] by (simp add: word_less_nat_alt unat_minus_one)
  from r(1) show "b < len"
    using top by (auto simp: range_ends_def min_def split: if_splits option.splits)
qed

lemma serve_file_Some:
  assumes c: "fs_get (files_on_disk st) path = Some c" and len: "length c < 2 ^ 64"
    and r: "parse_range hdr (word_of_nat (length c)) = Some (a, b)"
  shows "serve_file st path ct hdr = Inr
      \<lparr>rs_status = 206, rs_content_type = ct, rs_accept_ranges = ''bytes'',
       rs_content_range = Some (''bytes '' @ show_nat (unat a) @ ''-'' @ show_nat (unat b) @ ''/'' @ show_nat (length c)),
       rs_content_length = show_nat (unat b - unat a + 1),
       rs_body = take (unat b - unat a + 1) (drop (unat a) c)\<rparr>"
    "unat a \<le> unat b" "unat b < length c"
proof -
  have n: "unat (word_of_nat (length c) :: u64) = length c" using len by (simp add: unat_of_nat)
  show ab: "unat a \<le> unat b" using parse_range_SomeD(1)[OF r] by (simp add: word_le_nat_alt)
  show bc: "unat b < length c" using parse_range_SomeD(2)[OF r] n by (simp add: word_less_nat_alt)
  have sub: "unat (b - a) = unat b - unat a" using parse_range_SomeD(1)[OF r] by (rule unat_sub)
  have "unat (b - a + 1) = unat (b - a) + unat (1 :: u64)"
    using sub ab bc len by (intro unat_add_lem[THEN iffD1]) simp
  then have "unat (b - a + 1) = unat b - unat a + 1" using sub by simp
  then show "serve_file st path ct hdr = Inr
      \<lparr>rs_status = 206, rs_content_type = ct, rs_accept_ranges = ''bytes'',
       rs_content_range = Some (''bytes '' @ show_nat (unat a) @ ''-'' @ show_nat (unat b) @ ''/'' @ show_nat (length c)),
       rs_content_length = show_nat (unat b - unat a + 1),
       rs_body = take (unat b - unat a + 1) (drop (unat a) c)\<rparr>"
    using c r n by (simp add: serve_file_def show_u64_def Let_def)
qed

lemma serve_file_None:
  assumes "fs_get (files_on_disk st) path = Some c" "length c < 2 ^ 64"
    "parse_range hdr (word_of_nat (length c)) = None"
  shows "serve_file st path ct hdr = Inr
      \<lparr>rs_status = 200, rs_content_type = ct, rs_accept_ranges = ''bytes'', rs_content_range = None,
       rs_content_length = show_nat (length c), rs_body = c\<rparr>"
  using assms by (simp add: serve_file_def show_u64_def unat_of_nat Let_def)

text \<open>The header a player sends for the bytes \<open>a\<close> to \<open>b\<close>.\<close>

definition byte_range :: "nat \<Rightarrow> nat \<Rightarrow> string" where
  "byte_range a b = ''bytes='' @ show_nat a @ ''-'' @ show_nat b"

lemma show_nat_chars: "c \<in> set (show_nat n) \<Longrightarrow> time_char c \<and> 32 \<le> code c \<and> code c < 127 \<and> c \<noteq> CHR ''-'' \<and> c \<noteq> CHR '',''"
  using show_nat_digits[of c n] by (auto simp: time_char_def is_ascii_digit_def code_def)

lemma trim_show_nat [simp]: "trim (show_nat n) = show_nat n"
  using show_nat_chars by (intro trim_time(1)) blast

lemma parse_word_show: "n < 2 ^ 64 \<Longrightarrow> parse_word (show_nat n) = Some (word_of_nat n)"
  using parse_u64_show_int[of "int n"] by (simp add: parse_word_def show_int_def u64_max_def)

lemma parse_byte_range:
  assumes "a < 2 ^ 64" "b < 2 ^ 64"
  shows "parse_range (Some (byte_range a b)) len =
    (let s = word_of_nat a; e = min (word_of_nat b) (len - 1)
     in if s > e \<or> s \<ge> len then None else Some (s, e))"
proof -
  have "header_to_str (byte_range a b) = Some (byte_range a b)"
    using show_nat_chars by (auto simp: header_to_str_def byte_range_def list_all_iff code_def)
  moreover have "strip_prefix ''bytes='' (byte_range a b) = Some (show_nat a @ CHR ''-'' # show_nat b)"
    using strip_prefix_append[of "''bytes=''" "show_nat a @ CHR ''-'' # show_nat b"] by (simp add: byte_range_def)
  moreover have "CHR '','' \<notin> set (show_nat a @ CHR ''-'' # show_nat b)" using show_nat_chars by auto
  moreover have "split_once_str ''-'' (show_nat a @ CHR ''-'' # show_nat b) = Some (show_nat a, show_nat b)"
    using show_nat_chars by (intro split_once_char_append) blast
  ultimately show ?thesis
    using assms by (simp add: parse_range_def range_ends_def parse_word_show Let_def)
qed


lemma serve_byte_range:
  assumes c: "fs_get (files_on_disk st) path = Some c" "length c < 2 ^ 64"
    and a: "a \<le> b" "a < length c" "b < 2 ^ 64"
  shows "\<exists>r. serve_file st path ct (Some (byte_range a b)) = Inr r \<and> rs_status r = 206 \<and>
    rs_body r = take (b - a + 1) (drop a c)"
proof -
  define len :: u64 where "len = word_of_nat (length c)"
  have n: "unat len = length c" using c by (simp add: len_def unat_of_nat)
  have ua: "unat (word_of_nat a :: u64) = a" and ub: "unat (word_of_nat b :: u64) = b"
    using a c by (simp_all add: unat_of_nat)
  have "len \<noteq> 0" using n a by auto
  then have l1: "unat (len - 1) = length c - 1" using n by (simp add: unat_minus_one)
  define e where "e = min (word_of_nat b) (len - 1)"
  have ue: "unat e = min b (length c - 1)"
    using l1 ub by (auto simp: e_def min_def word_le_nat_alt)
  have "parse_range (Some (byte_range a b)) len = Some (word_of_nat a, e)"
    using parse_byte_range[of a b len] a c ua ue n
    by (simp add: e_def[symmetric] word_le_nat_alt word_less_nat_alt Let_def)
  from serve_file_Some(1)[OF c this[unfolded len_def], of ct]
  have "\<exists>r. serve_file st path ct (Some (byte_range a b)) = Inr r \<and> rs_status r = 206 \<and>
      rs_body r = take (min b (length c - 1) - a + 1) (drop a c)"
    using ua ue by simp
  moreover have "take (min b (length c - 1) - a + 1) (drop a c) = take (b - a + 1) (drop a c)"
    using a by (auto simp: min_def)
  ultimately show ?thesis by simp
qed

lemma concat_chunks:
  "0 < n \<Longrightarrow> concat (map (\<lambda>i. take n (drop (i * n) c)) [0..<m]) = take (m * n) c"
  using take_add[of _ n c] by (induction m) (simp_all add: add.commute[of n])

text \<open>The bytes a response carries.\<close>

definition served_body :: "response res \<Rightarrow> string" where
  "served_body x = (case x of Inr r \<Rightarrow> rs_body r | Inl _ \<Rightarrow> [])"

text \<open>Who may watch a drive, said without reference to the order of the checks.\<close>

definition may_view :: "app_state \<Rightarrow> string \<Rightarrow> string \<Rightarrow> auth option \<Rightarrow> bool" where
  "may_view st dongle timestamp auth \<longleftrightarrow>
     route_public st (fullname_of dongle timestamp) \<or>
     (\<exists>a d. auth = Some a \<and> load_device st dongle = Some d \<and>
        (case a_device a of
           Some t \<Rightarrow> d_dongle_id t = dongle
         | None \<Rightarrow> \<exists>u. a_user a = Some u \<and> owns_or_shared st u d))"

lemma can_view_device_iff:
  "can_view_device st a d \<longleftrightarrow>
    (case a_device a of
       Some t \<Rightarrow> d_dongle_id t = d_dongle_id d
     | None \<Rightarrow> \<exists>u. a_user a = Some u \<and> owns_or_shared st u d)"
  by (auto simp: can_view_device_def owns_or_shared_def is_shared_iff split: option.split)

lemma gate_iff:
  "check_route_access st (fullname_of dongle timestamp) dongle auth = Inr () \<longleftrightarrow> may_view st dongle timestamp auth"
proof (cases "route_public st (fullname_of dongle timestamp)")
  case False
  show ?thesis
  proof (cases auth)
    case (Some a)
    have "can_view_route st a dongle \<longleftrightarrow> may_view st dongle timestamp auth"
      using False Some load_device_SomeD
      by (auto simp: can_view_route_def can_view_dongle_def can_view_device_iff may_view_def split: option.splits)
    then show ?thesis using False Some by (simp add: check_route_access_def)
  qed (simp add: check_route_access_def may_view_def)
qed (simp add: check_route_access_def may_view_def)

lemma gate_closed:
  "\<not> may_view st dongle timestamp auth \<Longrightarrow>
   check_route_access st (fullname_of dongle timestamp) dongle auth =
     Inl (if auth = None then Unauthorized ''login required'' else Forbidden ''not authorized for this route'')"
  using gate_iff[of st dongle timestamp auth]
  by (auto simp: check_route_access_def split: option.splits if_splits)

section \<open>Properties\<close>

text \<open>
  C28: what a range request is answered with. Whatever the \<open>Range\<close> header says, an existing file is
  answered with 200 and the whole file, or with 206 and one non-empty slice of it that lies inside
  the file; \<open>Content-Range\<close> and \<open>Content-Length\<close> describe exactly the bytes sent. No header makes
  the wrapping \<open>u64\<close> arithmetic show (an empty file is always answered whole).
\<close>

theorem serve_file_slice:
  assumes "fs_get (files_on_disk st) path = Some c" "length c < 2 ^ 64"
  shows "\<exists>r. serve_file st path ct hdr = Inr r \<and> rs_content_type r = ct \<and>
    rs_content_length r = show_nat (length (rs_body r)) \<and>
    (rs_status r = 200 \<and> rs_body r = c \<and> rs_content_range r = None \<or>
     rs_status r = 206 \<and>
     (\<exists>a b. a \<le> b \<and> b < length c \<and> rs_body r = take (b - a + 1) (drop a c) \<and>
        rs_content_range r =
          Some (''bytes '' @ show_nat a @ ''-'' @ show_nat b @ ''/'' @ show_nat (length c))))"
proof (cases "parse_range hdr (word_of_nat (length c))")
  case None
  then show ?thesis using serve_file_None[OF assms None, of ct] by simp
next
  case (Some ab)
  obtain a b where ab: "ab = (a, b)" by fastforce
  note F = serve_file_Some[OF assms Some[unfolded ab]]
  define n where "n = unat b - unat a + 1"
  have n: "length (take n (drop (unat a) c)) = n" using F(2,3) by (simp add: n_def)
  have "\<exists>x y. x \<le> y \<and> y < length c \<and> take n (drop (unat a) c) = take (y - x + 1) (drop x c) \<and>
      ''bytes '' @ show_nat (unat a) @ ''-'' @ show_nat (unat b) @ ''/'' @ show_nat (length c) =
      ''bytes '' @ show_nat x @ ''-'' @ show_nat y @ ''/'' @ show_nat (length c)"
    using F(2,3) unfolding n_def by blast
  then show ?thesis using F(1)[of ct, folded n_def] n by simp
qed

theorem serve_file_slice_witness:
  "\<exists>r. serve_file (remove_file ''q'' (empty_state\<lparr>files_on_disk := [(''p'', ''abcdef'')]\<rparr>)) ''p'' ''text/vtt''
        (Some ''bytes=-2'') = Inr r \<and> rs_content_length r = show_nat (length (rs_body r))"
  using serve_file_slice[of "remove_file ''q'' (empty_state\<lparr>files_on_disk := [(''p'', ''abcdef'')]\<rparr>)" "''p''" "''abcdef''"
      "''text/vtt''" "Some ''bytes=-2''"]
  by (auto simp: remove_file_def fs_del_def fs_get_def)

text \<open>
  C29: a player that asks for a file in consecutive chunks of \<open>n\<close> bytes gets the file: put together,
  the bodies of the ranges \<open>0..n-1\<close>, \<open>n..2n-1\<close>, \<open>...\<close> are its contents, however short the last one.
\<close>

theorem chunked_download:
  assumes c: "fs_get (files_on_disk st) path = Some c" "length c + n < 2 ^ 64" and n: "0 < n"
  shows "concat (map (\<lambda>i. served_body (serve_file st path ct (Some (byte_range (i * n) (i * n + n - 1)))))
    [0..<(length c + n - 1) div n]) = c"
proof -
  let ?b = "\<lambda>i. served_body (serve_file st path ct (Some (byte_range (i * n) (i * n + n - 1))))" 
  have body: "served_body (serve_file st path ct (Some (byte_range (i * n) (i * n + n - 1)))) = take n (drop (i * n) c)"
    if "i < (length c + n - 1) div n" for i
  proof -
    have "Suc i * n \<le> (length c + n - 1) div n * n" using that by (intro mult_le_mono1) simp
    also have "\<dots> \<le> length c + n - 1" by (rule div_times_less_eq_dividend)
    finally have i: "i * n < length c" using n by simp
    have "\<exists>r. serve_file st path ct (Some (byte_range (i * n) (i * n + n - 1))) = Inr r \<and> rs_status r = 206 \<and>
        rs_body r = take (i * n + n - 1 - i * n + 1) (drop (i * n) c)"
      using c n i by (intro serve_byte_range) auto
    then show ?thesis using n by (auto simp: served_body_def)
  qed
  have "length c \<le> (length c + n - 1) div n * n"
    using n div_mult_mod_eq[of "length c + n - 1" n] mod_less_divisor[OF n, of "length c + n - 1"] by linarith
  then have "take ((length c + n - 1) div n * n) c = c" by simp
  moreover have "map ?b [0..<(length c + n - 1) div n] = map (\<lambda>i. take n (drop (i * n) c)) [0..<(length c + n - 1) div n]"
    using body by (intro map_cong) auto
  ultimately show ?thesis by (simp only: concat_chunks[OF n])
qed

theorem chunked_download_witness:
  "concat (map (\<lambda>i. served_body (serve_file (empty_state\<lparr>files_on_disk := [(''p'', ''abcde'')]\<rparr>) ''p'' ''''
     (Some (byte_range (i * 2) (i * 2 + 2 - 1))))) [0..<(length ''abcde'' + 2 - 1) div 2]) = ''abcde''"
  by (rule chunked_download) (simp_all add: fs_get_def)

text \<open>
  C5: the media gate. Every handler (segment files, transcodes, audio, movies, subtitles) answers a
  caller without the right to view a private drive with 401 or 403 and changes nothing: no bytes
  leave, and no transcode is started on their behalf. The right is: the drive is public, or the
  caller is the device itself, its owner or someone it is shared with; and a caller who has it
  reaches the file.
\<close>

theorem media_gate:
  assumes "CHR ''|'' \<notin> set dongle"
  shows "(\<not> may_view st dongle ts auth \<longrightarrow>
      (\<exists>e. fst (into_response e) \<in> {401, 403} \<and>
        serve_blob st dongle ts seg file auth hdr = Inl e \<and>
        serve_transcode os dongle ts seg file auth hdr st = (st, Inl e) \<and>
        serve_audio os dongle ts seg auth hdr st = (st, Inl e) \<and>
        serve_movie st (fullname_of dongle ts) cam auth hdr = Inl e \<and>
        serve_subs st (fullname_of dongle ts) auth hdr = Inl e)) \<and>
    (may_view st dongle ts auth \<longrightarrow>
      serve_blob st dongle ts seg file auth hdr =
        serve_file st (path_for st (blob_key dongle ts seg file)) (content_type file) hdr \<and>
      serve_subs st (fullname_of dongle ts) auth hdr =
        serve_file st (path_for st (subs_key dongle ts)) ''text/vtt; charset=utf-8'' hdr)"
  using gate_closed[of st dongle ts auth] gate_iff[of st dongle ts auth] split_fullname_of[OF assms, of ts]
  by (auto simp: serve_blob_def serve_transcode_def serve_audio_def serve_movie_def serve_subs_def)

theorem media_gate_witness:
  "\<exists>e. fst (into_response e) \<in> {401, 403} \<and> serve_movie empty_state (fullname_of ''d'' ''t'') ''qcamera.mp4'' None None = Inl e"
  using media_gate[of "''d''" empty_state "''t''" None 0 "''f''" None demo_media "''qcamera.mp4''"]
  by (auto simp: may_view_def route_public_def find_route_def empty_state_def)

end
