(* ===== verification/Retention.thy ===== *)
theory Retention
  imports Movie Subs
begin

text \<open>
  \<^verbatim>\<open>src/retention.rs\<close>: the policy, the deletion of a route with everything derived from it,
  and the retention pass. The pass deletes by age, then by number per device, then reclaims orphaned
  movies, then deletes the oldest routes until the storage is under the cap. Products of the policy
  with milliseconds are \<open>i64\<close> and wrap, as in a release build. \<open>ORDER BY\<close> leaves ties open;
  the model takes them in table order.
\<close>

section \<open>Policy\<close>

record policy =
  rp_days :: int
  rp_max_drives :: int
  rp_max_gb :: f64

definition load_policy :: "app_state \<Rightarrow> policy" where
  "load_policy st =
     \<lparr>rp_days =
        (case Option.bind (settings_get st ''retain_days'') parse_i64 of
           Some d \<Rightarrow> d | None \<Rightarrow> c_retain_days (cfg st)),
      rp_max_drives =
        (case Option.bind (settings_get st ''retain_max_drives'') parse_i64 of
           Some d \<Rightarrow> d | None \<Rightarrow> c_retain_max_drives (cfg st)),
      rp_max_gb =
        (case Option.bind (settings_get st ''retain_gb'') parse_f64 of
           Some d \<Rightarrow> d | None \<Rightarrow> c_retain_gb (cfg st))\<rparr>"

definition save_policy :: "policy \<Rightarrow> app_state \<Rightarrow> app_state" where
  "save_policy p st =
     settings_set ''retain_gb'' (show_f64 (rp_max_gb p))
       (settings_set ''retain_max_drives'' (show_int (rp_max_drives p))
         (settings_set ''retain_days'' (show_int (rp_days p)) st))"

definition storage_bytes :: "app_state \<Rightarrow> int" where
  "storage_bytes st =
     dir_size (files_on_disk st) (blobs_dir (cfg st)) + dir_size (files_on_disk st) (transcode_dir (cfg st))"

section \<open>Deleting a route\<close>

definition artifact_files :: "string list" where
  "artifact_files =
     [''qcamera.ts'', ''fcamera.hevc'', ''dcamera.hevc'', ''ecamera.hevc'',
      ''qlog.bz2'', ''qlog.zst'', ''rlog.bz2'', ''rlog.zst'',
      ''coords.json'', ''events.json'', ''telemetry.json'', ''model.json'', ''sprite.jpg'']"

definition delete_segment_files :: "string \<Rightarrow> string \<Rightarrow> int \<Rightarrow> app_state \<Rightarrow> app_state" where
  "delete_segment_files dongle ts seg st =
     fold (\<lambda>cam s. remove_file
              (path_join (transcode_dir (cfg s)) (dongle @ ''_'' @ ts @ ''--'' @ show_int seg @ ''--'' @ cam @ ''.ts'')) s)
       [''fcamera'', ''dcamera'', ''ecamera'']
       (fold (\<lambda>f. blob_delete (blob_key dongle ts seg f)) artifact_files st)"

text \<open>A name without a bar is left alone, and that is not an error.\<close>

definition delete_route :: "string \<Rightarrow> app_state \<Rightarrow> app_state" where
  "delete_route fullname st =
     (case split_once_str ''|'' fullname of
        None \<Rightarrow> st
      | Some (dongle, ts) \<Rightarrow>
          let segs = map s_number (filter (\<lambda>s. s_route s = fullname) (segments st));
              st1 = fold (delete_segment_files dongle ts) segs st;
              st2 = fold (movie_delete dongle ts) movie_cams st1;
              st3 = subs_delete dongle ts st2;
              st4 = st3\<lparr>segments := tbl_delete (\<lambda>s. s_route s = fullname) (segments st3)\<rparr>
          in st4\<lparr>routes := tbl_delete (\<lambda>r. r_fullname r = fullname) (routes st4)\<rparr>)"

section \<open>The pass\<close>

definition day_millis :: int where "day_millis = 86400000"

definition age_cutoff :: "app_state \<Rightarrow> int \<Rightarrow> int" where
  "age_cutoff st days = i64_wrap (now_millis st - i64_wrap (days * day_millis))"

definition too_old :: "int \<Rightarrow> route \<Rightarrow> bool" where
  "too_old cutoff r =
     (r_start_time r > 0 \<and> r_start_time r < cutoff \<or> r_start_time r = 0 \<and> r_created_at r < cutoff)"

definition expired_routes :: "policy \<Rightarrow> app_state \<Rightarrow> route list" where
  "expired_routes p st =
     (if rp_days p > 0 then filter (too_old (age_cutoff st (rp_days p))) (routes st) else [])"

text \<open>\<open>ORDER BY start_time_utc_millis DESC, created_at DESC LIMIT -1 OFFSET max_drives\<close>.\<close>

definition newest_first :: "route list \<Rightarrow> route list" where
  "newest_first rs = sort_key (\<lambda>r. (- r_start_time r, - r_created_at r)) rs"

definition surplus_routes :: "policy \<Rightarrow> app_state \<Rightarrow> route list" where
  "surplus_routes p st =
     (if rp_max_drives p > 0
      then concat (map (\<lambda>d. drop (nat (rp_max_drives p))
                         (newest_first (filter (\<lambda>r. r_device_dongle_id r = d_dongle_id d) (routes st))))
             (devices st))
      else [])"

text \<open>The \<open>BTreeSet\<close>: names in byte order, each once.\<close>

definition doomed_names :: "policy \<Rightarrow> app_state \<Rightarrow> string list" where
  "doomed_names p st = sort (remdups (map r_fullname (expired_routes p st @ surplus_routes p st)))"

definition orphan_movies :: "app_state \<Rightarrow> movie_row list" where
  "orphan_movies st = filter (\<lambda>m. find_route st (m_fullname m) = None) (movies_tbl st)"

definition delete_orphan :: "movie_row \<Rightarrow> app_state \<Rightarrow> app_state" where
  "delete_orphan m st =
     (case split_once_str ''|'' (m_fullname m) of
        None \<Rightarrow> st
      | Some (dongle, ts) \<Rightarrow> movie_delete dongle ts (m_cam m) st)"

definition oldest_route :: "app_state \<Rightarrow> route option" where
  "oldest_route st =
     (case sort_key (\<lambda>r. (r_start_time r, r_created_at r)) (routes st) of [] \<Rightarrow> None | r # _ \<Rightarrow> Some r)"

text \<open>The storage cap: a loop that ends when the storage fits or no route is left.\<close>

partial_function (option) cap_loop :: "int \<Rightarrow> app_state \<Rightarrow> nat \<Rightarrow> (app_state \<times> nat) option" where
  "cap_loop cap st deleted =
     (if storage_bytes st > cap
      then case oldest_route st of
             None \<Rightarrow> Some (st, deleted)
           | Some r \<Rightarrow> cap_loop cap (delete_route (r_fullname r) st) (deleted + 1)
      else Some (st, deleted))"

definition storage_cap :: "policy \<Rightarrow> int" where
  "storage_cap p = f_to_u64 (f_mul (rp_max_gb p) (Fin 1000000000))"

definition age_and_count_pass :: "policy \<Rightarrow> app_state \<Rightarrow> app_state" where
  "age_and_count_pass p st =
     (let st1 = fold delete_route (doomed_names p st) st
      in fold delete_orphan (orphan_movies st1) st1)"

definition run_once :: "app_state \<Rightarrow> (app_state \<times> nat) option" where
  "run_once st =
     (let p = load_policy st;
          st1 = age_and_count_pass p st;
          deleted = length (doomed_names p st)
      in if f_gt (rp_max_gb p) f_zero then cap_loop (storage_cap p) st1 deleted else Some (st1, deleted))"

section \<open>Lemmas\<close>

text \<open>
  \<open>erases D M N\<close>: exactly the files with a path in \<open>D\<close> and the movie and subtitle rows in
  \<open>M\<close> and \<open>N\<close> go; nothing else changes. Every deletion below is one, and they compose.
\<close>

definition erases ::
    "string set \<Rightarrow> movie_row set \<Rightarrow> subs_row set \<Rightarrow> app_state \<Rightarrow> app_state \<Rightarrow> bool" where
  "erases D M N st st' \<longleftrightarrow> st' =
     st\<lparr>files_on_disk := filter (\<lambda>e. fst e \<notin> D) (files_on_disk st),
        movies_tbl := filter (\<lambda>m. m \<notin> M) (movies_tbl st),
        subs_tbl := filter (\<lambda>b. b \<notin> N) (subs_tbl st)\<rparr>"

named_theorems erase_intros \<open>deletions of files and rows\<close>

lemma erases_refl [erase_intros]: "erases {} {} {} st st"
  by (simp add: erases_def)

lemma erases_trans:
  "erases D M N a b \<Longrightarrow> erases D' M' N' b c \<Longrightarrow> erases (D \<union> D') (M \<union> M') (N \<union> N') a c"
  by (simp add: erases_def conj_comms)

lemma erases_frame:
  assumes "erases D M N st st'"
  shows "cfg st' = cfg st" "sha256_hex st' = sha256_hex st" "routes st' = routes st" "segments st' = segments st"
    "devices st' = devices st"
  using assms by (simp_all add: erases_def)

text \<open>Paths and rows do not depend on what a deletion changes, so they can be named beforehand.\<close>

lemma erases_fold:
  assumes "\<And>x s. x \<in> set xs \<Longrightarrow> cfg s = cfg st \<Longrightarrow> sha256_hex s = sha256_hex st \<Longrightarrow> erases (D x) (M x) (N x) s (g x s)"
  shows "erases (\<Union>(D ` set xs)) (\<Union>(M ` set xs)) (\<Union>(N ` set xs)) st (fold g xs st)"
proof -
  have "erases (\<Union>(D ` set xs)) (\<Union>(M ` set xs)) (\<Union>(N ` set xs)) s (fold g xs s)"
    if "\<And>x s. x \<in> set xs \<Longrightarrow> cfg s = cfg st \<Longrightarrow> sha256_hex s = sha256_hex st \<Longrightarrow> erases (D x) (M x) (N x) s (g x s)"
      "cfg s = cfg st" "sha256_hex s = sha256_hex st" for s
    using that
  proof (induction xs arbitrary: s)
    case (Cons x xs)
    have 1: "erases (D x) (M x) (N x) s (g x s)" using Cons.prems by simp
    have "erases (\<Union>(D ` set xs)) (\<Union>(M ` set xs)) (\<Union>(N ` set xs)) (g x s) (fold g xs (g x s))"
      using Cons.prems erases_frame(1,2)[OF 1] by (intro Cons.IH) auto
    from erases_trans[OF 1 this] show ?case by simp
  qed (simp add: erases_refl)
  then show ?thesis using assms by blast
qed

lemma path_for_eq: "cfg s = cfg st \<Longrightarrow> sha256_hex s = sha256_hex st \<Longrightarrow> path_for s k = path_for st k"
  by (simp add: path_for_def shard_dir_def)

lemma erases_remove_file [erase_intros]: "erases {p} {} {} st (remove_file p st)"
  by (simp add: erases_def remove_file_def fs_del_def)

lemma erases_blob_delete: "erases {path_for st k} {} {} st (blob_delete k st)"
  unfolding blob_delete_def by (rule erases_remove_file)

text \<open>The files of one segment, of a drive, and the rows of a drive.\<close>

definition full_cams :: "string list" where "full_cams = [''fcamera'', ''dcamera'', ''ecamera'']"

definition segment_paths :: "app_state \<Rightarrow> string \<Rightarrow> string \<Rightarrow> int \<Rightarrow> string set" where
  "segment_paths st d t i =
     (\<lambda>f. path_for st (blob_key d t i f)) ` set artifact_files \<union> cache_path st d t i ` set full_cams"

definition drive_paths :: "app_state \<Rightarrow> string \<Rightarrow> string \<Rightarrow> string set" where
  "drive_paths st d t =
     (\<Union>s \<in> {s \<in> set (segments st). s_route s = fullname_of d t}. segment_paths st d t (s_number s)) \<union>
     (\<lambda>c. path_for st (movie_key d t c)) ` set movie_cams \<union> {path_for st (subs_key d t)}"

definition drive_movies :: "string \<Rightarrow> string \<Rightarrow> movie_row set" where
  "drive_movies d t = {m. m_fullname m = fullname_of d t \<and> m_cam m \<in> set movie_cams}"

lemma erases_segment_files: "erases (segment_paths st d t i) {} {} st (delete_segment_files d t i st)"
proof -
  let ?b = "\<lambda>f. blob_delete (blob_key d t i f)"
  let ?r = "\<lambda>cam s. remove_file (path_join (transcode_dir (cfg s)) (d @ ''_'' @ t @ ''--'' @ show_int i @ ''--'' @ cam @ ''.ts'')) s"
  have "erases (\<Union>f \<in> set artifact_files. {path_for st (blob_key d t i f)}) (\<Union>f \<in> set artifact_files. {})
      (\<Union>f \<in> set artifact_files. {}) st (fold ?b artifact_files st)"
    using erases_blob_delete path_for_eq by (intro erases_fold) metis
  then have 1: "erases ((\<lambda>f. path_for st (blob_key d t i f)) ` set artifact_files) {} {} st (fold ?b artifact_files st)"
    by (simp add: UNION_singleton_eq_range)
  define s1 where "s1 = fold ?b artifact_files st"
  have "erases (\<Union>c \<in> set full_cams. {cache_path st d t i c}) (\<Union>c \<in> set full_cams. {}) (\<Union>c \<in> set full_cams. {})
      s1 (fold ?r full_cams s1)"
    using erases_remove_file erases_frame(1)[OF 1[folded s1_def]]
    by (intro erases_fold) (simp add: cache_path_def)
  then have 2: "erases (cache_path st d t i ` set full_cams) {} {} s1 (fold ?r full_cams s1)"
    by (simp add: UNION_singleton_eq_range)
  have "delete_segment_files d t i st = fold ?r full_cams s1"
    by (simp add: delete_segment_files_def full_cams_def s1_def)
  then show ?thesis using erases_trans[OF 1[folded s1_def] 2] by (simp add: segment_paths_def)
qed

lemma erases_movie_delete:
  "erases {path_for st (movie_key d t c)} {m. m_fullname m = fullname_of d t \<and> m_cam m = c} {} st (movie_delete d t c st)"
  by (simp add: movie_delete_def erases_def blob_delete_def remove_file_def fs_del_def tbl_delete_def Let_def)

lemma erases_subs_delete:
  "erases {path_for st (subs_key d t)} {} {b. sb_fullname b = fullname_of d t} st (subs_delete d t st)"
  by (simp add: subs_delete_def erases_def blob_delete_def remove_file_def fs_del_def tbl_delete_def Let_def)


text \<open>The deletion of a route, as one update.\<close>

lemma delete_route_eq:
  assumes "split_once_str ''|'' n = Some (d, t)"
  shows "delete_route n st =
    st\<lparr>files_on_disk := filter (\<lambda>e. fst e \<notin> drive_paths st d t) (files_on_disk st),
       movies_tbl := filter (\<lambda>m. m \<notin> drive_movies d t) (movies_tbl st),
       subs_tbl := filter (\<lambda>b. sb_fullname b \<noteq> n) (subs_tbl st),
       segments := filter (\<lambda>s. s_route s \<noteq> n) (segments st),
       routes := filter (\<lambda>r. r_fullname r \<noteq> n) (routes st)\<rparr>"
proof -
  have n: "n = fullname_of d t" using split_once_str_SomeD[OF assms] by (simp add: fullname_of_def)
  define segs where "segs = map s_number (filter (\<lambda>s. s_route s = n) (segments st))"
  define st1 where "st1 = fold (delete_segment_files d t) segs st"
  define st2 where "st2 = fold (movie_delete d t) movie_cams st1"
  define st3 where "st3 = subs_delete d t st2"
  have seg: "erases (segment_paths st d t i) {} {} s (delete_segment_files d t i s)"
    if "cfg s = cfg st" "sha256_hex s = sha256_hex st" for i s
    using erases_segment_files[of s d t i] that path_for_eq[OF that]
    by (simp add: segment_paths_def cache_path_def)
  have 1: "erases (\<Union>(segment_paths st d t ` set segs)) (\<Union>i \<in> set segs. {}) (\<Union>i \<in> set segs. {}) st st1"
    unfolding st1_def using seg by (intro erases_fold)
  note f1 = erases_frame[OF 1]
  have mov: "erases {path_for st (movie_key d t c)} {m. m_fullname m = n \<and> m_cam m = c} {} s (movie_delete d t c s)"
    if "cfg s = cfg st1" "sha256_hex s = sha256_hex st1" for c s
    using erases_movie_delete[of s d t c] that f1 path_for_eq[of s st] n by simp
  have 2: "erases (\<Union>c \<in> set movie_cams. {path_for st (movie_key d t c)})
      (\<Union>c \<in> set movie_cams. {m. m_fullname m = n \<and> m_cam m = c}) (\<Union>c \<in> set movie_cams. {}) st1 st2"
    unfolding st2_def using mov by (intro erases_fold)
  note f2 = erases_frame[OF 2]
  have 3: "erases {path_for st (subs_key d t)} {} {b. sb_fullname b = n} st2 st3"
    using erases_subs_delete[of st2 d t] f1 f2 path_for_eq[of st2 st] n by (simp add: st3_def)
  have D: "\<Union>(segment_paths st d t ` set segs) \<union> ((\<Union>c \<in> set movie_cams. {path_for st (movie_key d t c)}) \<union>
      {path_for st (subs_key d t)}) = drive_paths st d t"
    unfolding drive_paths_def segs_def n by auto
  have M: "(\<Union>c \<in> set movie_cams. {m. m_fullname m = n \<and> m_cam m = c}) = drive_movies d t"
    unfolding drive_movies_def n by auto
  have "erases (drive_paths st d t) (drive_movies d t) {b. sb_fullname b = n} st st3"
    using erases_trans[OF 1 erases_trans[OF 2 3]] unfolding D M by simp
  moreover have "delete_route n st = st3\<lparr>segments := tbl_delete (\<lambda>s. s_route s = n) (segments st3),
      routes := tbl_delete (\<lambda>r. r_fullname r = n) (routes st3)\<rparr>"
    using assms by (simp add: delete_route_def Let_def segs_def st1_def st2_def st3_def)
  ultimately show ?thesis by (simp add: erases_def tbl_delete_def)
qed

lemma delete_route_tables:
  shows "routes (delete_route n st) = (if split_once_str ''|'' n = None then routes st
      else filter (\<lambda>r. r_fullname r \<noteq> n) (routes st))"
    "devices (delete_route n st) = devices st" "cfg (delete_route n st) = cfg st"
    "users (delete_route n st) = users st" "settings_tbl (delete_route n st) = settings_tbl st"
    "now_millis (delete_route n st) = now_millis st" "sha256_hex (delete_route n st) = sha256_hex st"
proof -
  have "\<exists>fs ms bs ss. delete_route n st =
      st\<lparr>files_on_disk := fs, movies_tbl := ms, subs_tbl := bs, segments := ss,
         routes := (if split_once_str ''|'' n = None then routes st else filter (\<lambda>r. r_fullname r \<noteq> n) (routes st))\<rparr>"
  proof (cases "split_once_str ''|'' n")
    case None
    then show ?thesis
      by (intro exI[of _ "files_on_disk st"] exI[of _ "movies_tbl st"] exI[of _ "subs_tbl st"] exI[of _ "segments st"])
        (simp add: delete_route_def)
  next
    case (Some x)
    obtain d t where x: "x = (d, t)" by fastforce
    show ?thesis using delete_route_eq[OF Some[unfolded x], of st] Some by auto
  qed
  then obtain fs ms bs ss where e: "delete_route n st =
      st\<lparr>files_on_disk := fs, movies_tbl := ms, subs_tbl := bs, segments := ss,
         routes := (if split_once_str ''|'' n = None then routes st else filter (\<lambda>r. r_fullname r \<noteq> n) (routes st))\<rparr>"
    by blast
  show "routes (delete_route n st) = (if split_once_str ''|'' n = None then routes st
      else filter (\<lambda>r. r_fullname r \<noteq> n) (routes st))"
    "devices (delete_route n st) = devices st" "cfg (delete_route n st) = cfg st"
    "users (delete_route n st) = users st" "settings_tbl (delete_route n st) = settings_tbl st"
    "now_millis (delete_route n st) = now_millis st" "sha256_hex (delete_route n st) = sha256_hex st"
    unfolding e by simp_all
qed

text \<open>Every route the program inserts is named \<open>dongle|timestamp\<close>.\<close>

definition routes_named :: "app_state \<Rightarrow> bool" where
  "routes_named st = (\<forall>r \<in> set (routes st). CHR ''|'' \<in> set (r_fullname r))"

lemma split_bar: "split_once_str ''|'' n = None \<longleftrightarrow> CHR ''|'' \<notin> set n"
  by (induction n) (auto split: option.split)

lemma routes_named_delete: "routes_named st \<Longrightarrow> routes_named (delete_route n st)"
  by (simp add: routes_named_def delete_route_tables)

lemma fold_delete_routes:
  "routes (fold delete_route ns st) = filter (\<lambda>r. r_fullname r \<notin> set ns \<or> CHR ''|'' \<notin> set (r_fullname r)) (routes st)"
  by (induction ns arbitrary: st) (auto simp: delete_route_tables split_bar conj_commute intro!: filter_cong)

lemma oldest_route_SomeD:
  assumes "oldest_route st = Some r"
  shows "r \<in> set (routes st)"
    "s \<in> set (routes st) \<Longrightarrow> (r_start_time r, r_created_at r) \<le> (r_start_time s, r_created_at s)"
proof -
  let ?k = "\<lambda>r. (r_start_time r, r_created_at r)"
  obtain rs where s: "sort_key ?k (routes st) = r # rs"
    using assms by (auto simp: oldest_route_def split: list.splits)
  have set: "set (routes st) = set (r # rs)" using set_sort[of ?k "routes st"] s by simp
  then show "r \<in> set (routes st)" by simp
  have "sorted (map ?k (r # rs))" using sorted_sort_key[of ?k "routes st"] s by simp
  then show "s \<in> set (routes st) \<Longrightarrow> ?k r \<le> ?k s" using set by (auto simp del: less_eq_prod_simp)
qed

lemma oldest_route_None: "oldest_route st = None \<longleftrightarrow> routes st = []"
proof -
  let ?k = "\<lambda>r. (r_start_time r, r_created_at r)"
  have "sort_key ?k (routes st) = [] \<longleftrightarrow> routes st = []" by (metis set_empty set_sort)
  then show ?thesis by (auto simp: oldest_route_def split: list.split)
qed


abbreviation age_key :: "route \<Rightarrow> int \<times> int" where
  "age_key r \<equiv> (r_start_time r, r_created_at r)"

lemma tbl_remove_one:
  "tbl_ok key t \<Longrightarrow> r \<in> set t \<Longrightarrow> length t = length (filter (\<lambda>s. key s \<noteq> key r) t) + 1"
proof (induction t)
  case (Cons a t)
  have id: "filter (\<lambda>s. key s \<noteq> key a) t = t" using Cons.prems(1)
    by (intro filter_True ballI) (metis imageI tbl_ok_def list.simps(9) distinct.simps(2) set_map)
  show ?case
  proof (cases "a = r")
    case False
    then have "r \<in> set t" "key a \<noteq> key r" using Cons.prems by (auto simp: tbl_ok_def)
    then show ?thesis using Cons by (simp add: tbl_ok_def)
  qed (use id in simp)
qed simp

lemma tbl_remove_keys:
  assumes "tbl_ok key t" "set ks \<subseteq> key ` set t" "distinct ks"
  shows "length ks + length (filter (\<lambda>r. key r \<notin> set ks) t) = length t"
proof -
  have d: "distinct t" and inj: "inj_on key (set t)" using assms(1) by (auto simp: tbl_ok_def distinct_map)
  have "key ` set (filter (\<lambda>r. key r \<in> set ks) t) = set ks" using assms(2) by auto
  then have "card (set ks) = card (set (filter (\<lambda>r. key r \<in> set ks) t))"
    using card_image[OF inj_on_subset[OF inj, of "set (filter (\<lambda>r. key r \<in> set ks) t)"]] by auto
  then have "length ks = length (filter (\<lambda>r. key r \<in> set ks) t)"
    using assms(3) distinct_card[OF distinct_filter[OF d]] distinct_card by metis
  then show ?thesis using sum_length_filter_compl[of "\<lambda>r. key r \<in> set ks" t] by simp
qed

lemma tbl_ok_delete_route [table_simps]:
  "tbl_ok r_fullname (routes st) \<Longrightarrow> tbl_ok r_fullname (routes (delete_route n st))"
  by (auto simp: delete_route_tables tbl_ok_def distinct_map_filter)

text \<open>The cap loop ends, and what it deletes is never younger than what it keeps.\<close>

lemma cap_loop_ends:
  assumes "routes_named st" "tbl_ok r_fullname (routes st)"
  shows "\<exists>st' k. cap_loop cap st n = Some (st', k) \<and> (storage_bytes st' \<le> cap \<or> routes st' = []) \<and>
    set (routes st') \<subseteq> set (routes st) \<and>
    (\<forall>r \<in> set (routes st) - set (routes st'). \<forall>s \<in> set (routes st'). age_key r \<le> age_key s) \<and>
    k + length (routes st') = n + length (routes st)"
  using assms
proof (induction "length (routes st)" arbitrary: st n rule: less_induct)
  case less
  show ?case
  proof (cases "storage_bytes st > cap")
    case False
    then have "cap_loop cap st n = Some (st, n)" by (simp add: cap_loop.simps)
    then show ?thesis using False by auto
  next
    case big: True
    show ?thesis
    proof (cases "oldest_route st")
      case None
      then have "cap_loop cap st n = Some (st, n)" by (simp add: cap_loop.simps)
      then show ?thesis using None by (auto simp: oldest_route_None)
    next
      case (Some r)
      note r = oldest_route_SomeD[OF Some]
      let ?st = "delete_route (r_fullname r) st"
      have bar: "CHR ''|'' \<in> set (r_fullname r)" using r(1) less.prems by (simp add: routes_named_def)
      have rs: "routes ?st = filter (\<lambda>s. r_fullname s \<noteq> r_fullname r) (routes st)"
        using bar by (simp add: delete_route_tables split_bar)
      have one: "length (routes st) = length (routes ?st) + 1"
        unfolding rs by (rule tbl_remove_one[OF less.prems(2) r(1)])
      have step: "cap_loop cap st n = cap_loop cap ?st (n + 1)"
        using big Some by (subst cap_loop.simps) simp
      have "length (routes ?st) < length (routes st)" using one by simp
      from less.hyps[OF this routes_named_delete[OF less.prems(1)] tbl_ok_delete_route[OF less.prems(2)], of "n + 1"]
      obtain st' k where IH: "cap_loop cap ?st (n + 1) = Some (st', k)" "storage_bytes st' \<le> cap \<or> routes st' = []"
          "set (routes st') \<subseteq> set (routes ?st)"
          "\<forall>a \<in> set (routes ?st) - set (routes st'). \<forall>s \<in> set (routes st'). age_key a \<le> age_key s"
          "k + length (routes st') = n + 1 + length (routes ?st)" by blast
      have sub: "set (routes ?st) \<subseteq> set (routes st)" using rs by auto
      have "age_key a \<le> age_key s" if a: "a \<in> set (routes st) - set (routes st')" and s: "s \<in> set (routes st')" for a s
      proof (cases "a \<in> set (routes ?st)")
        case False
        then have "a = r" using a rs less.prems(2) r(1) by (auto simp: tbl_ok_def dest: inj_onD simp: distinct_map)
        then show ?thesis using r(2) s IH(3) sub by blast
      qed (use IH(4) a s in blast)
      then show ?thesis using IH one step sub by (intro exI[of _ st'] exI[of _ k]) auto
    qed
  qed
qed

lemma erases_delete_orphan: "\<exists>D M. erases D M {} st (delete_orphan m st)"
proof (cases "split_once_str ''|'' (m_fullname m)")
  case None
  then show ?thesis using erases_refl by (auto simp: delete_orphan_def)
next
  case (Some x)
  then show ?thesis
    by (cases x) (use erases_movie_delete in \<open>simp add: delete_orphan_def, blast\<close>)
qed

lemma fold_frame: "(\<And>x s. f (g x s) = f s) \<Longrightarrow> f (fold g xs s) = f s"
  by (induction xs arbitrary: s) auto

lemma delete_orphans_frame:
  "routes (fold delete_orphan ms st) = routes st" "segments (fold delete_orphan ms st) = segments st"
  "cfg (fold delete_orphan ms st) = cfg st" "devices (fold delete_orphan ms st) = devices st"
  using erases_delete_orphan erases_frame by (intro fold_frame; metis)+

lemma doomed_set:
  "set (doomed_names p st) = r_fullname ` (set (expired_routes p st) \<union> set (surplus_routes p st))"
  by (simp add: doomed_names_def image_Un)

lemma age_and_count_routes:
  assumes "routes_named st"
  shows "routes (age_and_count_pass p st) = filter (\<lambda>r. r_fullname r \<notin> set (doomed_names p st)) (routes st)"
  using assms by (auto simp: age_and_count_pass_def Let_def delete_orphans_frame fold_delete_routes routes_named_def
      intro!: filter_cong)


lemma newest_first_simps [simp]:
  "set (newest_first rs) = set rs" "distinct (newest_first rs) = distinct rs" "length (newest_first rs) = length rs"
  by (simp_all add: newest_first_def)

lemma surplus_is_older:
  assumes "distinct rs" "r \<in> set (drop n (newest_first rs))"
  shows "n \<le> length (filter (\<lambda>s. s \<noteq> r \<and> age_key r \<le> age_key s) rs)"
proof -
  let ?L = "newest_first rs" and ?nk = "\<lambda>r. (- r_start_time r, - r_created_at r)"
  have d: "distinct ?L" using assms(1) by simp
  have "sorted_wrt (\<lambda>a b. ?nk a \<le> ?nk b) (take n ?L @ drop n ?L)"
    using sorted_sort_key[of ?nk rs] by (simp add: newest_first_def sorted_map)
  then have "\<forall>s \<in> set (take n ?L). ?nk s \<le> ?nk r" using assms(2) by (simp only: sorted_wrt_append) blast
  then have newer: "\<forall>s \<in> set (take n ?L). age_key r \<le> age_key s" by (auto simp: less_eq_prod_def)
  have "r \<notin> set (take n ?L)" using d assms(2) set_take_disj_set_drop_if_distinct[OF d, of n n] by blast
  then have "set (take n ?L) \<subseteq> set (filter (\<lambda>s. s \<noteq> r \<and> age_key r \<le> age_key s) rs)"
    using newer in_set_takeD[of _ n ?L] by auto
  then have "card (set (take n ?L)) \<le> length (filter (\<lambda>s. s \<noteq> r \<and> age_key r \<le> age_key s) rs)"
    by (meson List.finite_set card_length card_mono le_trans)
  moreover have "n \<le> length ?L"
  proof (rule ccontr)
    assume "\<not> n \<le> length ?L"
    then show False using assms(2) by simp
  qed
  ultimately show ?thesis using d by (simp add: distinct_card)
qed

lemma length_filter_le_filter:
  "(\<And>x. x \<in> set xs \<Longrightarrow> P x \<Longrightarrow> Q x) \<Longrightarrow> length (filter P xs) \<le> length (filter Q xs)"
  by (induction xs) (auto simp: le_SucI)

lemma kept_of_device:
  assumes "distinct rs"
  shows "length (filter (\<lambda>r. r \<notin> set (drop n (newest_first rs))) rs) \<le> n"
proof -
  let ?L = "newest_first rs"
  have "set (filter (\<lambda>r. r \<notin> set (drop n ?L)) rs) \<subseteq> set (take n ?L)"
  proof
    fix x assume x: "x \<in> set (filter (\<lambda>r. r \<notin> set (drop n ?L)) rs)"
    then have "x \<in> set (take n ?L @ drop n ?L)" by simp
    then show "x \<in> set (take n ?L)" using x unfolding set_append by simp
  qed
  then have "card (set (filter (\<lambda>r. r \<notin> set (drop n ?L)) rs)) \<le> card (set (take n ?L))" by (rule card_mono[rotated]) simp
  also have "\<dots> \<le> length (take n ?L)" by (rule card_length)
  also have "\<dots> \<le> n" by simp
  finally have "card (set (filter (\<lambda>r. r \<notin> set (drop n ?L)) rs)) \<le> n" .
  then show ?thesis using distinct_card[OF distinct_filter[OF assms]] by simp
qed

lemma pass_tables:
  assumes "routes_named st" "tbl_ok r_fullname (routes st)"
  shows "routes_named (age_and_count_pass p st)" "tbl_ok r_fullname (routes (age_and_count_pass p st))"
  using assms age_and_count_routes[OF assms(1), of p]
  by (simp_all add: routes_named_def tbl_ok_def distinct_map_filter)

section \<open>Properties\<close>

lemma surplus_set:
  "0 < rp_max_drives p \<Longrightarrow> set (surplus_routes p st) =
    (\<Union>d \<in> set (devices st). set (drop (nat (rp_max_drives p))
       (newest_first (filter (\<lambda>r. r_device_dongle_id r = d_dongle_id d) (routes st)))))"
  by (simp add: surplus_routes_def)

text \<open>A drive is deleted exactly when it is expired or surplus.\<close>

lemma doomed_iff:
  assumes tok: "tbl_ok r_fullname (routes st)" and p: "0 < rp_max_drives p" and r: "r \<in> set (routes st)"
  shows "r_fullname r \<in> set (doomed_names p st) \<longleftrightarrow> r \<in> set (expired_routes p st) \<or> r \<in> set (surplus_routes p st)"
proof -
  have "set (surplus_routes p st) \<subseteq> set (routes st)"
    unfolding surplus_set[OF p] using in_set_dropD[of _ "nat (rp_max_drives p)"] by fastforce
  moreover have "set (expired_routes p st) \<subseteq> set (routes st)" by (auto simp: expired_routes_def)
  moreover have "inj_on r_fullname (set (routes st))" using tok by (simp add: tbl_ok_def distinct_map)
  ultimately show ?thesis using r by (auto simp: doomed_set dest: inj_onD)
qed

lemma kept_within_limit:
  assumes ok: "db_ok st" and p: "0 < rp_max_drives p"
  defines "kept \<equiv> filter (\<lambda>r. r_fullname r \<notin> set (doomed_names p st)) (routes st)"
  shows "int (length (filter (\<lambda>r. r_device_dongle_id r = g) kept)) \<le> rp_max_drives p"
proof (cases "g \<in> d_dongle_id ` set (devices st)")
  case True
  let ?of = "filter (\<lambda>r. r_device_dongle_id r = g) (routes st)"
  let ?surplus = "set (drop (nat (rp_max_drives p)) (newest_first ?of))"
  have tok: "tbl_ok r_fullname (routes st)" using ok keys_okD by (auto simp: db_ok_def)
  then have dist: "distinct (routes st)" by (auto simp: tbl_ok_def distinct_map)
  have sub: "?surplus \<subseteq> set (surplus_routes p st)" using True unfolding surplus_set[OF p] by auto
  have "length (filter (\<lambda>r. r_device_dongle_id r = g) kept) =
      length (filter (\<lambda>r. r_fullname r \<notin> set (doomed_names p st)) ?of)"
    unfolding kept_def by (simp add: conj_commute)
  also have "\<dots> \<le> length (filter (\<lambda>r. r \<notin> ?surplus) ?of)"
    using sub doomed_iff[OF tok p] by (intro length_filter_le_filter) auto
  also have "\<dots> \<le> nat (rp_max_drives p)" by (rule kept_of_device) (simp add: dist)
  finally show ?thesis using p by simp
next
  case False
  then have "\<forall>r \<in> set kept. r_device_dongle_id r \<noteq> g" using ok by (auto simp: kept_def db_ok_def refs_ok_def)
  then have "filter (\<lambda>r. r_device_dongle_id r = g) kept = []" by (simp add: filter_empty_conv)
  then show ?thesis using p by simp
qed

lemma surplus_reason:
  assumes "tbl_ok r_fullname (routes st)" "0 < rp_max_drives p" "r \<in> set (surplus_routes p st)"
  shows "rp_max_drives p \<le> int (length (filter (\<lambda>s. s \<noteq> r \<and> r_device_dongle_id s = r_device_dongle_id r \<and>
    age_key r \<le> age_key s) (routes st)))"
proof -
  let ?of = "\<lambda>g. filter (\<lambda>r. r_device_dongle_id r = g) (routes st)"
  obtain d :: device where d: "r \<in> set (drop (nat (rp_max_drives p)) (newest_first (?of (d_dongle_id d))))"
    using assms(3) unfolding surplus_set[OF assms(2)] by (elim UN_E) auto
  then have "r_device_dongle_id r = d_dongle_id d" using in_set_dropD[OF d] by simp
  then have "nat (rp_max_drives p) \<le> length (filter (\<lambda>s. s \<noteq> r \<and> age_key r \<le> age_key s) (?of (r_device_dongle_id r)))"
    using surplus_is_older[OF _ d] assms(1) by (simp add: tbl_ok_def distinct_map)
  then show ?thesis by (simp add: nat_le_iff conj_ac)
qed

text \<open>
  C24: what the age and count rules delete. After them no device has more than \<open>max_drives\<close> drives
  and no drive past the age limit is left; a drive that was deleted without being past it had at
  least \<open>max_drives\<close> drives of the same device that are at least as recent, so the rules never
  delete a recent drive to keep an older one, and never delete more than they must.
\<close>

theorem retention_keeps_newest:
  assumes ok: "db_ok st" "routes_named st" and p: "0 < rp_max_drives p"
    and kept: "kept = routes (age_and_count_pass p st)"
  shows "(\<forall>g. int (length (filter (\<lambda>r. r_device_dongle_id r = g) kept)) \<le> rp_max_drives p) \<and>
    set kept \<subseteq> set (routes st) \<and>
    (0 < rp_days p \<longrightarrow> (\<forall>r \<in> set kept. \<not> too_old (age_cutoff st (rp_days p)) r)) \<and>
    (\<forall>r \<in> set (routes st) - set kept. 0 < rp_days p \<and> too_old (age_cutoff st (rp_days p)) r \<or>
       rp_max_drives p \<le> int (length (filter (\<lambda>s. s \<noteq> r \<and> r_device_dongle_id s = r_device_dongle_id r \<and>
          age_key r \<le> age_key s) (routes st))))"
proof -
  have tok: "tbl_ok r_fullname (routes st)" using ok(1) keys_okD by (auto simp: db_ok_def)
  have K: "kept = filter (\<lambda>r. r_fullname r \<notin> set (doomed_names p st)) (routes st)"
    using age_and_count_routes[OF ok(2)] kept by simp
  have "0 < rp_days p \<and> too_old (age_cutoff st (rp_days p)) r \<or>
      rp_max_drives p \<le> int (length (filter (\<lambda>s. s \<noteq> r \<and> r_device_dongle_id s = r_device_dongle_id r \<and>
          age_key r \<le> age_key s) (routes st)))" if r: "r \<in> set (routes st) - set kept" for r
  proof -
    from r doomed_iff[OF tok p] consider "r \<in> set (expired_routes p st)" | "r \<in> set (surplus_routes p st)"
      unfolding K by auto
    then show ?thesis
      using surplus_reason[OF tok p] by cases (auto simp: expired_routes_def split: if_splits)
  qed
  then show ?thesis
    using kept_within_limit[OF ok(1) p] doomed_iff[OF tok p] unfolding K by (auto simp: expired_routes_def)
qed


text \<open>A state with drives of one device, one of them long past.\<close>

definition demo_drives :: app_state where
  "demo_drives = empty_state
     \<lparr>devices := [demo_device ''d''],
      routes := [new_route ''d|a'' ''d'' 1, new_route ''d|b'' ''d'' 1699999999999, new_route ''d|c'' ''d'' 1699999999998]\<rparr>"

lemma demo_drives_ok: "db_ok demo_drives" "routes_named demo_drives"
  by (auto simp: db_ok_def keys_ok_def refs_ok_def demo_drives_def empty_state_def tbl_ok_def new_route_def
      demo_device_def routes_named_def)

theorem retention_keeps_newest_witness:
  "int (length (filter (\<lambda>r. r_device_dongle_id r = ''d'')
     (routes (age_and_count_pass \<lparr>rp_days = 30, rp_max_drives = 1, rp_max_gb = f_zero\<rparr> demo_drives)))) \<le> 1"
  using retention_keeps_newest[OF demo_drives_ok, of "\<lparr>rp_days = 30, rp_max_drives = 1, rp_max_gb = f_zero\<rparr>"] by simp

text \<open>
  C15: the whole pass. It always ends; the number it reports is the number of drives that are gone;
  with a storage cap, it ends under the cap or with no drive left; and the cap never deletes a drive
  while it keeps one that is older.
\<close>

theorem retention_pass_settles:
  assumes "routes_named st" "tbl_ok r_fullname (routes st)"
  shows "\<exists>st' n. run_once st = Some (st', n) \<and> n + length (routes st') = length (routes st) \<and>
    set (routes st') \<subseteq> set (routes st) \<and>
    (let p = load_policy st; st1 = age_and_count_pass p st
     in f_gt (rp_max_gb p) f_zero \<longrightarrow>
       (storage_bytes st' \<le> storage_cap p \<or> routes st' = []) \<and>
       (\<forall>r \<in> set (routes st1) - set (routes st'). \<forall>s \<in> set (routes st'). age_key r \<le> age_key s))"
proof -
  define p where "p = load_policy st"
  define st1 where "st1 = age_and_count_pass p st"
  have r1: "routes st1 = filter (\<lambda>r. r_fullname r \<notin> set (doomed_names p st)) (routes st)"
    unfolding st1_def by (rule age_and_count_routes[OF assms(1)])
  note named = pass_tables(1)[OF assms, of p, folded st1_def]
  note tok = pass_tables(2)[OF assms, of p, folded st1_def]
  have "set (doomed_names p st) \<subseteq> r_fullname ` set (routes st)"
    unfolding doomed_set expired_routes_def surplus_routes_def newest_first_def
    by (auto dest!: in_set_dropD)
  moreover have "distinct (doomed_names p st)" by (simp add: doomed_names_def)
  ultimately have n1: "length (doomed_names p st) + length (routes st1) = length (routes st)"
    unfolding r1 by (rule tbl_remove_keys[OF assms(2)])
  show ?thesis
  proof (cases "f_gt (rp_max_gb p) f_zero")
    case False
    then have "run_once st = Some (st1, length (doomed_names p st))"
      by (simp add: run_once_def p_def[symmetric] st1_def[symmetric] Let_def)
    then show ?thesis using n1 False r1 by (auto simp: p_def[symmetric] Let_def)
  next
    case True
    obtain st' n where c: "cap_loop (storage_cap p) st1 (length (doomed_names p st)) = Some (st', n)"
        "storage_bytes st' \<le> storage_cap p \<or> routes st' = []" "set (routes st') \<subseteq> set (routes st1)"
        "\<forall>r \<in> set (routes st1) - set (routes st'). \<forall>s \<in> set (routes st'). age_key r \<le> age_key s"
        "n + length (routes st') = length (doomed_names p st) + length (routes st1)"
      using cap_loop_ends[OF named tok] by blast
    have "run_once st = Some (st', n)"
      using c(1) True by (simp add: run_once_def p_def[symmetric] st1_def[symmetric] Let_def)
    moreover have "set (routes st') \<subseteq> set (routes st)" using c(3) r1 by auto
    ultimately show ?thesis using c n1 True
      by (intro exI[of _ st'] exI[of _ n]) (simp add: p_def[symmetric] st1_def[symmetric] Let_def)
  qed
qed

theorem retention_pass_settles_witness:
  "\<exists>st' n. run_once demo_drives = Some (st', n) \<and> n + length (routes st') = 3"
  using retention_pass_settles[OF demo_drives_ok(2)] demo_drives_ok(1) keys_okD
  by (fastforce simp: db_ok_def demo_drives_def)





lemma fs_get_filter: "fs_get (filter (\<lambda>e. fst e \<notin> D) fs) p = (if p \<in> D then None else fs_get fs p)"
  unfolding fs_get_def by (induction fs) auto











text \<open>Whatever the deletion of one route preserves, the cap loop preserves.\<close>

lemma cap_loop_invariant:
  assumes step: "\<And>n s. I s \<Longrightarrow> I (delete_route n s)" and run: "cap_loop cap st n = Some (st', k)" and start: "I st"
  shows "I st'"
proof -
  have "I st \<longrightarrow> I (fst (st', k))"
  proof (rule cap_loop.raw_induct[OF _ run, where P = "\<lambda>cap st n r. I st \<longrightarrow> I (fst r)"])
    fix loop :: "int \<Rightarrow> app_state \<Rightarrow> nat \<Rightarrow> (app_state \<times> nat) option" and cap st n r
    assume IH: "\<And>cap st n r. loop cap st n = Some r \<Longrightarrow> I st \<longrightarrow> I (fst r)"
      and body: "(if storage_bytes st > cap
        then case oldest_route st of None \<Rightarrow> Some (st, n)
             | Some r \<Rightarrow> loop cap (delete_route (r_fullname r) st) (n + 1)
        else Some (st, n)) = Some r"
    show "I st \<longrightarrow> I (fst r)"
      using body IH step by (auto split: if_splits option.splits)
  qed
  then show ?thesis using start by simp
qed

lemma db_ok_delete_route: "db_ok st \<Longrightarrow> db_ok (delete_route n st)"
proof (cases "split_once_str ''|'' n")
  case (Some x)
  assume ok: "db_ok st"
  obtain d t where x: "x = (d, t)" by fastforce
  show ?thesis
    using ok unfolding delete_route_eq[OF Some[unfolded x]] db_ok_def keys_ok_def refs_ok_def
    by (auto simp: tbl_ok_def distinct_map_filter image_iff)
qed (simp add: delete_route_def)

lemma db_ok_delete_orphan: "db_ok st \<Longrightarrow> db_ok (delete_orphan m st)"
  by (auto simp: delete_orphan_def movie_delete_def blob_delete_def remove_file_def db_ok_def keys_ok_def refs_ok_def
      Let_def split: option.split)

lemma fold_invariant: "(\<And>x s. I s \<Longrightarrow> I (g x s)) \<Longrightarrow> I s \<Longrightarrow> I (fold g xs s)"
  by (induction xs arbitrary: s) auto

text \<open>
  A retention pass leaves a sound database: keys stay unique, and no segment is left without its
  route, however many routes the three rules delete.
\<close>

lemma retention_keeps_database_sound:
  assumes "db_ok st" "run_once st = Some (st', n)"
  shows "db_ok st'"
proof -
  let ?p = "load_policy st"
  have 1: "db_ok (age_and_count_pass ?p st)"
    unfolding age_and_count_pass_def Let_def
    by (intro fold_invariant[where I = db_ok] db_ok_delete_orphan db_ok_delete_route assms(1))
  show ?thesis
    using assms(2) 1 cap_loop_invariant[where I = db_ok, OF db_ok_delete_route]
    by (auto simp: run_once_def Let_def split: if_splits)
qed

lemma retention_keeps_database_sound_witness:
  "\<exists>st' n. run_once demo_drives = Some (st', n) \<and> db_ok st'"
proof -
  have "tbl_ok r_fullname (routes demo_drives)" using demo_drives_ok(1) keys_okD by (simp add: db_ok_def)
  note t = pass_tables[OF demo_drives_ok(2) this, of "load_policy demo_drives"]
  obtain st' n where "run_once demo_drives = Some (st', n)"
    using cap_loop_ends[OF t] unfolding run_once_def Let_def by (metis (full_types))
  then show ?thesis using retention_keeps_database_sound[OF demo_drives_ok(1)] by blast
qed

text \<open>
  The policy an administrator saves is the policy the next pass loads: every limit survives
  being written to the settings table as text and read back, the storage cap for every \<open>f64\<close>.
\<close>

theorem policy_roundtrip:
  assumes "is_i64 (rp_days p)" "is_i64 (rp_max_drives p)" "f_repr (rp_max_gb p)"
  shows "load_policy (save_policy p st) = p"
  using parse_i64_show_int[OF assms(1)] parse_i64_show_int[OF assms(2)] parse_show_f64[OF assms(3)]
  by (simp add: load_policy_def save_policy_def settings.get_put)

theorem policy_roundtrip_witness:
  "load_policy (save_policy \<lparr>rp_days = 7, rp_max_drives = 0, rp_max_gb = Fin 0\<rparr> empty_state) =
     \<lparr>rp_days = 7, rp_max_drives = 0, rp_max_gb = Fin 0\<rparr>"
  by (rule policy_roundtrip) (simp_all add: is_i64_def i64_min_def i64_max_def)

text \<open>
  C40: the extracted audio tracks are never deleted. \<open>delete_route\<close> clears the transcode cache of the
  three full cameras only, while the cap counts every file of the cache; so once the cached audio of
  any drive, even of one deleted long ago, is larger than the cap, the next pass deletes every drive
  on the server and the audio is still there.
\<close>

lemma audio_not_in_drive_paths: "audio_path st d i n \<notin> drive_paths st d' t'"
proof -
  have a: "audio_path st d i n = cache_path st d i n ''audio''" by (simp add: audio_path_def cache_path_def)
  have s: "suffix ''audio.ts'' (audio_path st d i n)"
  proof -
    have "audio_path st d i n = (transcode_dir (cfg st) @ ''/'' @ d @ ''_'' @ i @ ''--'' @ show_int n @ ''--'') @ ''audio.ts''"
      by (simp add: audio_path_def path_join_def)
    then show ?thesis unfolding suffix_def by blast
  qed
  have "\<not> suffix ''audio.ts'' (cache_path st d' t' m c)" if "c \<in> set full_cams" for m c
  proof -
    have "cache_path st d' t' m c = (transcode_dir (cfg st) @ ''/'' @ d' @ ''_'' @ t' @ ''--'' @ show_int m @ ''--'') @ c @ ''.ts''"
      by (simp add: cache_path_def path_join_def)
    then show ?thesis using that by (auto simp: full_cams_def suffix_to_prefix)
  qed
  then have "audio_path st d i n \<noteq> cache_path st d' t' m c" if "c \<in> set full_cams" for m c using s that by metis
  moreover have "path_for st k \<noteq> audio_path st d i n" for k unfolding a by (rule path_for_ne_cache)
  ultimately show ?thesis
    unfolding drive_paths_def segment_paths_def by (auto simp: image_iff dest: sym)
qed

lemma dir_size_ge: "fs_get fs p = Some c \<Longrightarrow> prefix (base @ ''/'') p \<Longrightarrow> int (length c) \<le> dir_size fs base"
proof (induction fs)
  case (Cons e fs)
  then show ?case using dir_size_nonneg[of fs base]
    by (cases e) (auto simp: fs_get_def dir_size_def split: if_splits)
qed (simp add: fs_get_def)

theorem stale_audio_deletes_every_drive:
  assumes audio: "fs_get (files_on_disk st) (audio_path st d i n) = Some c" "cap < int (length c)"
    and ok: "routes_named st" "tbl_ok r_fullname (routes st)"
  shows "\<exists>st' k. cap_loop cap st 0 = Some (st', k) \<and> routes st' = [] \<and> k = length (routes st) \<and>
    fs_get (files_on_disk st') (audio_path st d i n) = Some c"
proof -
  let ?I = "\<lambda>s. cfg s = cfg st \<and> fs_get (files_on_disk s) (audio_path st d i n) = Some c"
  have step: "?I (delete_route m s)" if "?I s" for m s
  proof (cases "split_once_str ''|'' m")
    case (Some x)
    obtain d' t' where x: "x = (d', t')" by fastforce
    have "audio_path s d i n \<notin> drive_paths s d' t'" by (rule audio_not_in_drive_paths)
    moreover have "audio_path s d i n = audio_path st d i n" using that by (simp add: audio_path_def)
    ultimately show ?thesis using that by (simp add: delete_route_eq[OF Some[unfolded x]] fs_get_filter)
  qed (use that in \<open>simp add: delete_route_def\<close>)
  obtain st' k where r: "cap_loop cap st 0 = Some (st', k)" "storage_bytes st' \<le> cap \<or> routes st' = []"
      "k + length (routes st') = 0 + length (routes st)"
    using cap_loop_ends[OF ok] by blast
  have I: "?I st'" using cap_loop_invariant[where I = ?I, OF step r(1)] audio(1) by simp
  have "prefix (transcode_dir (cfg st') @ ''/'') (audio_path st d i n)"
    using I by (simp add: audio_path_def path_join_def)
  then have "int (length c) \<le> storage_bytes st'"
    using dir_size_ge I dir_size_nonneg[of "files_on_disk st'" "blobs_dir (cfg st')"]
    unfolding storage_bytes_def by fastforce
  then have "routes st' = []" using r(2) audio(2) by auto
  then show ?thesis using r I by auto
qed

theorem stale_audio_deletes_every_drive_witness:
  "\<exists>st' k. cap_loop 3 (demo_drives\<lparr>files_on_disk := [(audio_path demo_drives ''gone'' ''t'' 0, ''audio'')]\<rparr>) 0 = Some (st', k) \<and>
     routes st' = [] \<and> k = 3"
proof -
  let ?st = "demo_drives\<lparr>files_on_disk := [(audio_path demo_drives ''gone'' ''t'' 0, ''audio'')]\<rparr>"
  have a: "audio_path ?st ''gone'' ''t'' 0 = audio_path demo_drives ''gone'' ''t'' 0" by (simp add: audio_path_def)
  have ok: "routes_named ?st" "tbl_ok r_fullname (routes ?st)"
    using demo_drives_ok keys_okD by (simp_all add: routes_named_def db_ok_def)
  have f: "fs_get (files_on_disk ?st) (audio_path ?st ''gone'' ''t'' 0) = Some ''audio''" unfolding a by (simp add: fs_get_def)
  have "length (routes ?st) = 3" by (simp add: demo_drives_def)
  then show ?thesis using stale_audio_deletes_every_drive[OF f _ ok, of 3] by auto
qed


text \<open>
  The age limit is not safe for large values. The product of \<open>days\<close> with the milliseconds of a
  day wraps around: from about 150 thousand million days on, a limit that means \<open>never\<close> puts the
  cutoff into the future, and the pass deletes every drive.
\<close>

theorem huge_age_limit_deletes_everything:
  assumes days: "2 ^ 63 + 2 ^ 62 \<le> rp_days p * day_millis" "rp_days p * day_millis < 2 ^ 64"
    and now: "0 \<le> now_millis st" "now_millis st < 2 ^ 61"
    and past: "\<And>r. r \<in> set (routes st) \<Longrightarrow> 0 \<le> r_start_time r \<and> r_start_time r \<le> now_millis st \<and> r_created_at r \<le> now_millis st"
    and named: "routes_named st"
  shows "routes (age_and_count_pass p st) = []"
proof -
  let ?x = "rp_days p * day_millis"
  have "(?x + 2 ^ 63) mod 2 ^ 64 = ?x - 2 ^ 63"
  proof -
    have "(?x + 2 ^ 63) mod 2 ^ 64 = (?x - 2 ^ 63 + 2 ^ 64) mod 2 ^ 64" by (simp add: add.commute)
    also have "\<dots> = (?x - 2 ^ 63) mod 2 ^ 64" by (rule mod_add_self2)
    also have "\<dots> = ?x - 2 ^ 63" using days by (intro mod_pos_pos_trivial) simp_all
    finally show ?thesis .
  qed
  then have w: "i64_wrap ?x = ?x - 2 ^ 64" by (simp add: i64_wrap_def)
  have "is_i64 (now_millis st - (?x - 2 ^ 64))"
    using days now by (simp add: is_i64_def i64_min_def i64_max_def)
  then have "age_cutoff st (rp_days p) = now_millis st - (?x - 2 ^ 64)"
    by (simp add: age_cutoff_def w i64_wrap_id)
  then have cut: "now_millis st < age_cutoff st (rp_days p)" using days by simp
  have "0 < rp_days p" using days(1) by (simp add: day_millis_def)
  then have "set (expired_routes p st) = set (routes st)"
    using cut past by (fastforce simp: expired_routes_def too_old_def)
  then show ?thesis using age_and_count_routes[OF named, of p] by (simp add: doomed_set)
qed

theorem huge_age_limit_deletes_everything_witness:
  "routes (age_and_count_pass \<lparr>rp_days = 200000000000, rp_max_drives = 0, rp_max_gb = f_zero\<rparr> demo_drives) = []"
  by (rule huge_age_limit_deletes_everything)
    (auto simp: day_millis_def demo_drives_def new_route_def empty_state_def routes_named_def)

end
