(* ===== verification/DeviceLink.thy ===== *)
theory DeviceLink
  imports DevSync
begin

text \<open>
  A conversation with a device over ssh: the commands one request sends, in order, and a device that
  answers each of them depending on everything it was sent before. \<open>ssh_run\<close> itself is the one of
  DeviceSsh; here its \<open>os_ssh\<close> is the device's answer to the history so far, so a device may
  change between two commands (a car that is started, a file that appears), and the record of the
  commands can be reasoned about. Also the shell line that writes one openpilot parameter, shared by
  \<^verbatim>\<open>src/device_params.rs\<close>, \<^verbatim>\<open>src/device_update.rs\<close> and
  \<^verbatim>\<open>src/model_select.rs\<close>.
\<close>

type_synonym sent = "(string \<times> string) list"

record ssh_link =
  lk_os :: ssh_os
  lk_dev :: "sent \<Rightarrow> string list \<Rightarrow> exec_result"

type_synonym linked = "app_state \<times> sent"

definition link_os :: "ssh_link \<Rightarrow> sent \<Rightarrow> ssh_os" where
  "link_os lk sofar = (lk_os lk)\<lparr>os_ssh := lk_dev lk sofar\<rparr>"

definition link_run :: "ssh_link \<Rightarrow> string \<Rightarrow> string \<Rightarrow> linked \<Rightarrow> linked \<times> string res" where
  "link_run lk addr cmd s =
     (let os = link_os lk (snd s);
          (st1, r) = ssh_run os addr cmd (fst s);
          reached = (addr \<noteq> [] \<and> is_ok (snd (ensure_keypair os (fst s))))
      in ((st1, if reached then snd s @ [(addr, cmd)] else snd s), r))"

definition dquote :: string where "dquote = [CHR 0x22]"

text \<open>The way openpilot's \<open>Params.put\<close> writes: a temporary file, moved under a lock.\<close>

definition param_write_cmd :: "string \<Rightarrow> string \<Rightarrow> string" where
  "param_write_cmd key value =
     ''T=$(mktemp /data/params/.tmp_value_XXXXXX) && printf '' @ quote @ ''%s'' @ quote @ '' '' @ quote @ value @ quote @
     '' > '' @ dquote @ ''$T'' @ dquote @ '' && flock /data/params/.lock mv '' @ dquote @ ''$T'' @ dquote @
     '' /data/params/d/'' @ key @ '' && chmod 600 /data/params/d/'' @ key"

text \<open>\<open>str::split\<close> by a string that is not empty.\<close>

function split_str :: "string \<Rightarrow> string \<Rightarrow> string list" where
  "split_str p s =
     (if p = [] then [s]
      else case split_once_str p s of None \<Rightarrow> [s] | Some (a, b) \<Rightarrow> a # split_str p b)"
  by pat_completeness auto
termination
  by (relation "measure (\<lambda>(p, s). length s)") (auto dest: split_once_str_SomeD)

declare split_str.simps [simp del]

section \<open>Lemmas\<close>

text \<open>\<open>talks P\<close>: a step that changes no table, and that sends only commands in \<open>P\<close> to \<open>addr\<close>.\<close>

definition talks :: "string \<Rightarrow> string set \<Rightarrow> linked \<Rightarrow> linked \<Rightarrow> bool" where
  "talks addr P s s' \<longleftrightarrow> only_files (fst s) (fst s') \<and>
     (\<exists>cs. snd s' = snd s @ map (Pair addr) cs \<and> set cs \<subseteq> P)"

lemma talks_refl [simp]: "talks addr P s s"
  unfolding talks_def by (intro conjI exI[of _ "[]"]) simp_all

lemma talks_trans: "talks addr P a b \<Longrightarrow> talks addr P b c \<Longrightarrow> talks addr P a c"
proof -
  assume ab: "talks addr P a b" and bc: "talks addr P b c"
  from ab obtain cs where cs: "snd b = snd a @ map (Pair addr) cs" "set cs \<subseteq> P" unfolding talks_def by blast
  from bc obtain ds where ds: "snd c = snd b @ map (Pair addr) ds" "set ds \<subseteq> P" unfolding talks_def by blast
  have "only_files (fst a) (fst c)" using ab bc unfolding talks_def by (blast intro: only_files_trans)
  then show ?thesis using cs ds unfolding talks_def by (intro conjI exI[of _ "cs @ ds"]) simp_all
qed

lemma talks_mono: "talks addr P a b \<Longrightarrow> P \<subseteq> Q \<Longrightarrow> talks addr Q a b"
  unfolding talks_def by blast

lemma link_run_talks: "cmd \<in> P \<Longrightarrow> talks addr P s (fst (link_run lk addr cmd s))"
proof -
  assume c: "cmd \<in> P"
  have "only_files (fst s) (fst (ssh_run (link_os lk (snd s)) addr cmd (fst s)))" by (rule ssh_run_files)
  then show ?thesis using c unfolding talks_def link_run_def Let_def split_beta
    by (cases "addr \<noteq> [] \<and> is_ok (snd (ensure_keypair (link_os lk (snd s)) (fst s)))")
      (auto intro: exI[of _ "[cmd]"] exI[of _ "[]"])
qed

text \<open>What the answer is, and that a command that was answered was sent.\<close>

lemma link_run_Inr:
  assumes "link_run lk addr cmd s = (s', Inr out)"
  shows "snd s' = snd s @ [(addr, cmd)]" "addr \<noteq> []"
    "\<exists>argv a b. lk_dev lk (snd s) argv = Exited True a b \<and> last argv = cmd \<and> out = os_lossy (lk_os lk) a"
proof -
  let ?os = "link_os lk (snd s)"
  obtain st1 where r: "ssh_run ?os addr cmd (fst s) = (st1, Inr out)"
    and s': "s' = (st1, if addr \<noteq> [] \<and> is_ok (snd (ensure_keypair ?os (fst s))) then snd s @ [(addr, cmd)] else snd s)"
    using assms by (auto simp: link_run_def Let_def split: prod.splits)
  show a: "addr \<noteq> []" using r by (auto simp: ssh_run_def split: if_splits)
  obtain k where k: "ensure_keypair ?os (fst s) = (st1, Inr k)"
    using r a by (auto simp: ssh_run_def split: prod.splits sum.splits)
  then show "snd s' = snd s @ [(addr, cmd)]" using s' a by simp
  have "(case os_ssh ?os (ssh_argv st1 addr cmd) of TimedOut \<Rightarrow> Inl (Other ''ssh timed out'')
      | SpawnFailed e \<Rightarrow> Inl (Other (''ssh spawn: '' @ e))
      | Exited True out _ \<Rightarrow> Inr (os_lossy ?os out)
      | Exited False _ err \<Rightarrow> Inl (Other (''ssh to '' @ addr @ '' failed: '' @ trim (os_lossy ?os err)))) = Inr out"
    using r a k by (simp add: ssh_run_def)
  then obtain x y where "os_ssh ?os (ssh_argv st1 addr cmd) = Exited True x y" "out = os_lossy ?os x"
    by (auto split: exec_result.splits bool.splits)
  then show "\<exists>argv a b. lk_dev lk (snd s) argv = Exited True a b \<and> last argv = cmd \<and> out = os_lossy (lk_os lk) a"
    by (intro exI[of _ "ssh_argv st1 addr cmd"] exI[of _ x] exI[of _ y]) (simp add: link_os_def ssh_argv_def)
qed

end
