(* ===== verification/ParamSpecs.thy ===== *)
theory ParamSpecs
  imports DeviceLink
begin

text \<open>
  The allowlist of device settings of \<^verbatim>\<open>src/device_params.rs\<close> and the guard of every write,
  \<open>is_writable\<close>. The table is the whole allowlist of the source, texts included (UTF-8 bytes where
  they are not ASCII).
\<close>

section \<open>The allowlist\<close>

datatype param_kind = PBool | PInt | PEnum | PInfo

fun kind_str :: "param_kind \<Rightarrow> string" where
  "kind_str PBool = ''bool''"
| "kind_str PInt = ''int''"
| "kind_str PEnum = ''enum''"
| "kind_str PInfo = ''info''"

record spec =
  sp_key :: string
  sp_label :: string
  sp_group :: string
  sp_kind :: param_kind
  sp_help :: string
  sp_options :: "(string \<times> string) list"
  sp_min :: int
  sp_max :: int
  sp_step :: int
  sp_unit :: string
  sp_dep_key :: string
  sp_dep_values :: "string list"

definition bool_spec :: "string \<Rightarrow> string \<Rightarrow> string \<Rightarrow> string \<Rightarrow> spec" where
  "bool_spec key grp label help =
     \<lparr>sp_key = key, sp_label = label, sp_group = grp, sp_kind = PBool, sp_help = help, sp_options = [],
      sp_min = 0, sp_max = 0, sp_step = 0, sp_unit = [], sp_dep_key = [], sp_dep_values = []\<rparr>"

definition enum_spec ::
    "string \<Rightarrow> string \<Rightarrow> string \<Rightarrow> string \<Rightarrow> (string \<times> string) list \<Rightarrow> spec" where
  "enum_spec key grp label help options =
     \<lparr>sp_key = key, sp_label = label, sp_group = grp, sp_kind = PEnum, sp_help = help, sp_options = options,
      sp_min = 0, sp_max = 0, sp_step = 0, sp_unit = [], sp_dep_key = [], sp_dep_values = []\<rparr>"

definition int_spec ::
    "string \<Rightarrow> string \<Rightarrow> string \<Rightarrow> string \<Rightarrow> int \<Rightarrow> int \<Rightarrow> int \<Rightarrow> string \<Rightarrow> spec" where
  "int_spec key grp label help lo hi step unit =
     \<lparr>sp_key = key, sp_label = label, sp_group = grp, sp_kind = PInt, sp_help = help, sp_options = [],
      sp_min = lo, sp_max = hi, sp_step = step, sp_unit = unit, sp_dep_key = [], sp_dep_values = []\<rparr>"

definition info_spec :: "string \<Rightarrow> string \<Rightarrow> string \<Rightarrow> spec" where
  "info_spec key grp label =
     \<lparr>sp_key = key, sp_label = label, sp_group = grp, sp_kind = PInfo, sp_help = [], sp_options = [],
      sp_min = 0, sp_max = 0, sp_step = 0, sp_unit = [], sp_dep_key = [], sp_dep_values = []\<rparr>"

definition dep_spec :: "spec \<Rightarrow> string \<Rightarrow> string list \<Rightarrow> spec" where
  "dep_spec s key values = s\<lparr>sp_dep_key := key, sp_dep_values := values\<rparr>"

definition driving_specs :: "spec list" where
  "driving_specs = [
     bool_spec ''OpenpilotEnabledToggle'' ''Driving'' ''openpilot enabled''
       ''The master switch for openpilot. When off, all openpilot driving assistance is disabled and the car drives stock.'',
     bool_spec ''ExperimentalMode'' ''Driving'' ''Experimental mode''
       (''Lets the driving model control gas and brake end-to-end '' @ [CHR 0xE2, CHR 0x80, CHR 0x94] @ '' it can slow for turns and stop for lights and stop signs '' @ [CHR 0xE2, CHR 0x80, CHR 0x94] @ '' instead of the simpler adaptive-cruise longitudinal. More capable, but less predictable. Requires openpilot longitudinal.''),
     bool_spec ''AlphaLongitudinalEnabled'' ''Driving'' ''openpilot longitudinal''
       ''Let openpilot control acceleration and braking. When off, the car's stock adaptive cruise handles speed and openpilot only steers. This must be on before Experimental mode does anything.'',
     bool_spec ''DynamicExperimentalControl'' ''Driving'' ''Dynamic experimental control''
       ''Automatically switches between Experimental and standard longitudinal based on the driving situation, so you don't have to pick one manually.'',
     bool_spec ''DisengageOnAccelerator'' ''Driving'' ''Disengage on gas''
       ''When on, pressing the accelerator pedal disengages openpilot and hands control back to you. When off, openpilot stays engaged and resumes when you lift off the pedal.'',
     enum_spec ''LongitudinalPersonality'' ''Driving'' ''Following distance''
       ''How much gap openpilot keeps behind the car ahead. Relaxed leaves more room; Aggressive follows closer.''
       [(''0'', ''Relaxed''), (''1'', ''Standard''), (''2'', ''Aggressive'')],
     enum_spec ''HyundaiLongitudinalTuning'' ''Driving'' ''Hyundai longitudinal tuning''
       ''Alternative gas/brake tuning for Hyundai/Kia/Genesis. Dynamic and Predictive change how smoothly and proactively openpilot accelerates and brakes; Off uses the default tune.''
       [(''0'', ''Off''), (''1'', ''Dynamic''), (''2'', ''Predictive'')]]"

definition cruise_specs :: "spec list" where
  "cruise_specs = [
     bool_spec ''IntelligentCruiseButtonManagement'' ''Cruise'' ''Intelligent cruise buttons (alpha)''
       ''Experimental. Lets openpilot press the cruise set-speed buttons for you (for example to apply map or vision speeds) instead of you doing it manually.'',
     bool_spec ''SmartCruiseControlVision'' ''Cruise'' ''Vision curve slowing''
       ''Uses the road-facing camera to spot upcoming curves and slow down for them automatically.'',
     bool_spec ''SmartCruiseControlMap'' ''Cruise'' ''Map curve/speed slowing''
       ''Uses offline map data (road curvature and posted limits) to slow for curves and limits ahead, even before the camera can see them.'',
     bool_spec ''CustomAccIncrementsEnabled'' ''Cruise'' ''Custom ACC speed steps''
       ''Use your own set-speed step sizes for the cruise buttons instead of the car's defaults.'',
     dep_spec (int_spec ''CustomAccShortPressIncrement'' ''Cruise'' ''ACC short-press step''
       ''How much the set speed changes for a single short press of a cruise +/- button.''
       1 10 1 [])
       ''CustomAccIncrementsEnabled'' [''1'']]"

definition speed_limits_specs :: "spec list" where
  "speed_limits_specs = [
     enum_spec ''SpeedLimitMode'' ''Speed limits'' ''Speed limit control''
       ''What openpilot does with posted speed limits. Off ignores them; Info just shows the limit; Warning alerts you when you exceed it; Assist actively sets your cruise speed to the limit.''
       [(''0'', ''Off''), (''1'', ''Info''), (''2'', ''Warning''), (''3'', ''Assist'')],
     enum_spec ''SpeedLimitPolicy'' ''Speed limits'' ''Speed limit source''
       (''Where the posted limit comes from: the car's own sign recognition, offline maps (OpenStreetMap), or a mix '' @ [CHR 0xE2, CHR 0x80, CHR 0x94] @ '' and which to prefer when both are available.'')
       [(''0'', ''Car only''), (''1'', ''Map only''), (''2'', ''Car first''), (''3'', ''Map first''), (''4'', ''Combined'')],
     enum_spec ''SpeedLimitOffsetType'' ''Speed limits'' ''Speed limit offset type''
       ''Add a margin to the posted limit so you travel slightly above (or below) it. None applies no margin; Fixed adds a set amount; Percent scales the margin with the limit.''
       [(''0'', ''None''), (''1'', ''Fixed''), (''2'', ''Percent'')],
     dep_spec (int_spec ''SpeedLimitValueOffset'' ''Speed limits'' ''Speed limit offset''
       (''The amount added to the posted limit '' @ [CHR 0xE2, CHR 0x80, CHR 0x94] @ '' in speed units for Fixed, or in percent for Percent.'')
       (-30) 30 1 [])
       ''SpeedLimitOffsetType'' [''1'', ''2'']]"

definition steering_mads_specs :: "spec list" where
  "steering_mads_specs = [
     bool_spec ''Mads'' ''Steering (MADS)'' ''Enable MADS''
       (''Modular Assistive Driving System. Lets lane-keeping steering engage and stay on independently of cruise/longitudinal '' @ [CHR 0xE2, CHR 0x80, CHR 0x94] @ '' so you can have steering without adaptive cruise, and keep steering through braking.''),
     dep_spec (bool_spec ''MadsMainCruiseAllowed'' ''Steering (MADS)'' ''Engage with main cruise''
       ''Allow MADS steering to turn on when you press the car's MAIN cruise button, not just the dedicated LKAS/steering button.'')
       ''Mads'' [''1''],
     dep_spec (bool_spec ''MadsUnifiedEngagementMode'' ''Steering (MADS)'' ''Unified engagement''
       ''Engage steering and longitudinal together with a single action, instead of controlling them separately.'')
       ''Mads'' [''1''],
     dep_spec (enum_spec ''MadsSteeringMode'' ''Steering (MADS)'' ''On brake pedal''
       ''What MADS steering does when you press the brake: keep steering, pause until you release the brake, or fully disengage.''
       [(''0'', ''Remain active''), (''1'', ''Pause''), (''2'', ''Disengage'')])
       ''Mads'' [''1''],
     dep_spec (bool_spec ''NeuralNetworkLateralControl'' ''Steering (MADS)'' ''Neural-net lateral control''
       ''Use sunnypilot's neural-network steering model (NNLC) for smoother, car-specific steering, when a model exists for your vehicle. Mutually exclusive with Enforce torque control.'')
       ''EnforceTorqueControl'' [''0''],
     dep_spec (bool_spec ''EnforceTorqueControl'' ''Steering (MADS)'' ''Enforce torque control''
       ''Force the classic torque-based steering controller instead of the neural-network one. Mutually exclusive with Neural-net lateral control.'')
       ''NeuralNetworkLateralControl'' [''0''],
     bool_spec ''BlinkerPauseLateralControl'' ''Steering (MADS)'' ''Pause steering on blinker''
       ''While your turn signal is on, hand steering back to you so you can change lanes manually, then resume afterward.'',
     dep_spec (int_spec ''BlinkerMinLateralControlSpeed'' ''Steering (MADS)'' ''Min speed to pause on blinker''
       ''Only pause steering for the blinker below this speed. Above it, steering stays engaged through the signal.''
       0 255 5 [])
       ''BlinkerPauseLateralControl'' [''1''],
     dep_spec (int_spec ''BlinkerLateralReengageDelay'' ''Steering (MADS)'' ''Post-blinker delay''
       ''After the turn signal turns off, wait this many seconds before openpilot resumes steering.''
       0 10 1 ''s'')
       ''BlinkerPauseLateralControl'' [''1''],
     enum_spec ''AutoLaneChangeTimer'' ''Steering (MADS)'' ''Auto lane change''
       ''Complete a lane change after the blinker is on without nudging the wheel. Nudge needs a wheel nudge; Nudgeless changes immediately; the timed options wait that long first. Use with caution and only where traffic permits.''
       [(''-1'', ''Off''), (''0'', ''Nudge''), (''1'', ''Nudgeless''), (''2'', ''0.5 s''), (''3'', ''1 s''), (''4'', ''2 s''), (''5'', ''3 s'')],
     dep_spec (bool_spec ''AutoLaneChangeBsmDelay'' ''Steering (MADS)'' ''Blind-spot lane-change delay''
       ''If blind-spot monitoring sees a vehicle, delay the auto lane change until that lane is clear.'')
       ''AutoLaneChangeTimer'' [''1'', ''2'', ''3'', ''4'', ''5'']]"

definition display_alerts_specs :: "spec list" where
  "display_alerts_specs = [
     bool_spec ''IsLdwEnabled'' ''Display & alerts'' ''Lane-departure warnings''
       ''When openpilot is NOT engaged, warn you if the car drifts out of its lane.'',
     bool_spec ''BlindSpot'' ''Display & alerts'' ''Blind-spot warnings''
       ''Show a warning on screen when the car's blind-spot monitor detects a vehicle beside you.'',
     bool_spec ''GreenLightAlert'' ''Display & alerts'' ''Green-light alert''
       ''Chime when a traffic light you're stopped at turns green.'',
     bool_spec ''LeadDepartAlert'' ''Display & alerts'' ''Lead-departure alert''
       ''Chime when the car ahead of you starts pulling away while you're stopped.'',
     bool_spec ''RoadNameToggle'' ''Display & alerts'' ''Show road name''
       ''Show the name of the current road on the driving screen (from map data).'',
     bool_spec ''ShowTurnSignals'' ''Display & alerts'' ''Turn-signal icons''
       ''Show blinker indicator arrows on the driving screen.'',
     bool_spec ''TorqueBar'' ''Display & alerts'' ''Steering arc''
       ''Show an arc indicating how much steering torque openpilot is applying.'',
     bool_spec ''RocketFuel'' ''Display & alerts'' ''Acceleration bar''
       ''Show a real-time acceleration/deceleration bar on the screen.'',
     bool_spec ''StandstillTimer'' ''Display & alerts'' ''Standstill timer''
       ''While stopped, show how long you've been stationary.'',
     bool_spec ''TrueVEgoUI'' ''Display & alerts'' ''Always show true speed''
       ''Show your actual measured speed on the speedometer instead of the dash's slightly-optimistic reading.'',
     bool_spec ''HideVEgoUI'' ''Display & alerts'' ''Hide speedometer''
       ''Hide the speed readout from the driving screen entirely.'',
     bool_spec ''RainbowMode'' ''Display & alerts'' ''Rainbow path''
       ''Draw the predicted driving path in rainbow colors. Purely cosmetic.'',
     enum_spec ''ChevronInfo'' ''Display & alerts'' ''Metrics below chevron''
       ''Choose what's shown beneath the lead-car marker (the chevron): distance to it, its relative speed, the time gap, or all of them.''
       [(''0'', ''Off''), (''1'', ''Distance''), (''2'', ''Speed''), (''3'', ''Time''), (''4'', ''All'')],
     enum_spec ''DevUIInfo'' ''Display & alerts'' ''Developer UI''
       ''Show extra developer telemetry on the driving screen, and where to place it.''
       [(''0'', ''Off''), (''1'', ''Bottom''), (''2'', ''Right''), (''3'', ''Right & bottom'')],
     enum_spec ''OnroadScreenOffBrightness'' ''Display & alerts'' ''Onroad brightness''
       ''Screen brightness while driving. Auto follows the light sensor; Screen off turns the display off; or pick a fixed level.''
       [(''0'', ''Auto''), (''1'', ''Auto (dark)''), (''2'', ''Screen off''), (''7'', ''25%''), (''12'', ''50%''), (''17'', ''75%''), (''22'', ''100%'')],
     dep_spec (enum_spec ''OnroadScreenOffTimer'' ''Display & alerts'' ''Onroad brightness delay''
       ''How long to wait before dimming or turning off the screen while driving. Only applies when brightness above isn't Auto.''
       [(''3'', ''3 s''), (''5'', ''5 s''), (''7'', ''7 s''), (''10'', ''10 s''), (''15'', ''15 s''), (''30'', ''30 s''), (''60'', ''1 min''), (''120'', ''2 min''), (''180'', ''3 min''), (''240'', ''4 min''), (''300'', ''5 min''), (''360'', ''6 min''), (''420'', ''7 min''), (''480'', ''8 min''), (''540'', ''9 min''), (''600'', ''10 min'')])
       ''OnroadScreenOffBrightness'' [''2'', ''7'', ''12'', ''17'', ''22''],
     int_spec ''InteractivityTimeout'' ''Display & alerts'' ''Settings UI timeout''
       ''How long the on-device settings screen stays open without interaction before closing. 0 leaves it at the default.''
       0 120 10 ''s'']"

definition recording_specs :: "spec list" where
  "recording_specs = [
     bool_spec ''RecordFront'' ''Recording'' ''Record driver camera''
       ''Record video from the driver-facing (interior) camera along with your drives.'',
     bool_spec ''RecordAudio'' ''Recording'' ''Record microphone''
       ''Record cabin microphone audio with your drives.'',
     bool_spec ''RecordAudioFeedback'' ''Recording'' ''Record audio feedback''
       ''When you submit feedback on the device, also save a short audio clip from around that moment.'']"

definition device_power_specs :: "spec list" where
  "device_power_specs = [
     enum_spec ''DeviceBootMode'' ''Device power'' ''Wake-up behavior''
       ''What the device does when it wakes up: the default behavior, or go straight into offroad (parked) mode.''
       [(''0'', ''Default''), (''1'', ''Offroad'')],
     bool_spec ''OffroadMode'' ''Device power'' ''Always offroad''
       (''Keep the device in offroad (parked) mode and stop it going onroad. Handy for maintenance '' @ [CHR 0xE2, CHR 0x80, CHR 0x94] @ '' turn it off to drive.''),
     enum_spec ''MaxTimeOffroad'' ''Device power'' ''Max time offroad''
       ''How long the device stays powered after you park before shutting down to protect the 12V battery. Always on never powers down.''
       [(''0'', ''Always on''), (''5'', ''5 min''), (''10'', ''10 min''), (''15'', ''15 min''), (''30'', ''30 min''), (''60'', ''1 hour''), (''120'', ''2 hours''), (''180'', ''3 hours''), (''300'', ''5 hours''), (''600'', ''10 hours''), (''1440'', ''24 hours''), (''1800'', ''30 hours'')],
     bool_spec ''QuietMode'' ''Device power'' ''Quiet mode''
       ''Suppress most non-critical chimes and spoken alerts.'']"

definition connectivity_updates_specs :: "spec list" where
  "connectivity_updates_specs = [
     \<lparr>sp_key = ''SshEnabled'', sp_label = ''SSH service'', sp_group = ''Connectivity & updates'', sp_kind = PInfo, sp_help = (''Whether the device's SSH service is running (1 = on). homeconnect uses SSH for sync, device settings, and model selection, so it's shown here but not toggled '' @ [CHR 0xE2, CHR 0x80, CHR 0x94] @ '' turning SSH off can't be undone remotely. Change it on the device screen (Settings '' @ [CHR 0xE2, CHR 0x86, CHR 0x92] @ '' Developer '' @ [CHR 0xE2, CHR 0x86, CHR 0x92] @ '' SSH).''), sp_options = [], sp_min = 0, sp_max = 0, sp_step = 0, sp_unit = [], sp_dep_key = [], sp_dep_values = []\<rparr>,
     bool_spec ''AdbEnabled'' ''Connectivity & updates'' ''ADB enabled''
       (''Allow Android Debug Bridge (ADB) connections '' @ [CHR 0xE2, CHR 0x80, CHR 0x94] @ '' a developer tool for shell and file access to the device over USB or network.''),
     bool_spec ''GsmMetered'' ''Connectivity & updates'' ''Cellular metered''
       ''Treat the cellular (SIM) connection as metered so the device limits background data and large uploads over it.'',
     bool_spec ''OnroadUploads'' ''Connectivity & updates'' ''Upload while driving''
       ''Allow the device to upload data while you're driving, not only when parked on Wi-Fi.'',
     bool_spec ''SunnylinkEnabled'' ''Connectivity & updates'' ''sunnylink enabled''
       (''Connect the device to sunnylink '' @ [CHR 0xE2, CHR 0x80, CHR 0x94] @ '' sunnypilot's companion service for backups, model sync, and sponsor features.''),
     dep_spec (bool_spec ''DisableUpdates'' ''Connectivity & updates'' ''Pause software updates''
       (''Stop the device from fetching and installing software updates. Advanced '' @ [CHR 0xE2, CHR 0x80, CHR 0x94] @ '' your software will go stale.''))
       ''ShowAdvancedControls'' [''1'']]"

definition developer_specs :: "spec list" where
  "developer_specs = [
     bool_spec ''ShowAdvancedControls'' ''Developer'' ''Show advanced controls''
       ''Reveal advanced and developer settings on the device's own screen. A few settings here only take effect when this is on.'',
     dep_spec (bool_spec ''QuickBootToggle'' ''Developer'' ''Quickboot mode''
       ''Boot faster by skipping some startup steps. Advanced; only relevant while updates are paused.'')
       ''DisableUpdates'' [''1'']]"

definition device_read_only_specs :: "spec list" where
  "device_read_only_specs = [
     info_spec ''Version'' ''Device'' ''Version'',
     info_spec ''GitBranch'' ''Device'' ''Branch'',
     info_spec ''DongleId'' ''Device'' ''Dongle ID'',
     info_spec ''HardwareSerial'' ''Device'' ''Serial'',
     info_spec ''GithubUsername'' ''Device'' ''GitHub user (SSH keys)'']"

definition param_specs :: "spec list" where
  "param_specs = driving_specs @ cruise_specs @ speed_limits_specs @ steering_mads_specs @ display_alerts_specs @ recording_specs @ device_power_specs @ connectivity_updates_specs @ developer_specs @ device_read_only_specs"

definition find_spec :: "string \<Rightarrow> spec option" where
  "find_spec key = find (\<lambda>s. sp_key s = key) param_specs"

definition value_ok :: "spec \<Rightarrow> string \<Rightarrow> bool" where
  "value_ok s v =
     (case sp_kind s of
        PBool \<Rightarrow> v = ''0'' \<or> v = ''1''
      | PInt \<Rightarrow> (case parse_i64 v of Some i \<Rightarrow> sp_min s \<le> i \<and> i \<le> sp_max s | None \<Rightarrow> False)
      | PEnum \<Rightarrow> list_ex (\<lambda>(w, _). w = v) (sp_options s)
      | PInfo \<Rightarrow> False)"

definition is_writable :: "string \<Rightarrow> string \<Rightarrow> bool" where
  "is_writable key v = (case find_spec key of Some s \<Rightarrow> value_ok s v | None \<Rightarrow> False)"


section \<open>Lemmas\<close>

definition value_char :: "char \<Rightarrow> bool" where
  "value_char c = (is_ascii_digit c \<or> c = CHR ''-'' \<or> c = CHR ''+'')"

definition spec_safe :: "spec \<Rightarrow> bool" where
  "spec_safe s = (sp_key s \<noteq> [] \<and> list_all is_ascii_alphanumeric (sp_key s) \<and>
     list_all (\<lambda>x. list_all value_char (fst x)) (sp_options s))"

lemma spec_safe_cons [simp]:
  "spec_safe (bool_spec k g l h) = (k \<noteq> [] \<and> list_all is_ascii_alphanumeric k)"
  "spec_safe (int_spec k g l h a b c u) = (k \<noteq> [] \<and> list_all is_ascii_alphanumeric k)"
  "spec_safe (info_spec k g l) = (k \<noteq> [] \<and> list_all is_ascii_alphanumeric k)"
  "spec_safe (enum_spec k g l h os) = (k \<noteq> [] \<and> list_all is_ascii_alphanumeric k \<and> list_all (\<lambda>x. list_all value_char (fst x)) os)"
  "spec_safe (dep_spec s k' vs) = spec_safe s"
  by (simp_all add: spec_safe_def bool_spec_def int_spec_def info_spec_def enum_spec_def dep_spec_def)

lemma param_specs_safe: "list_all spec_safe param_specs"
proof -
  note char_simps = is_ascii_alphanumeric_def is_ascii_digit_def is_ascii_upper_def is_ascii_lower_def value_char_def code_def
  have "list_all spec_safe driving_specs" by (simp add: driving_specs_def char_simps)
  moreover have "list_all spec_safe cruise_specs" by (simp add: cruise_specs_def char_simps)
  moreover have "list_all spec_safe speed_limits_specs" by (simp add: speed_limits_specs_def char_simps)
  moreover have "list_all spec_safe steering_mads_specs" by (simp add: steering_mads_specs_def char_simps)
  moreover have "list_all spec_safe display_alerts_specs" by (simp add: display_alerts_specs_def char_simps)
  moreover have "list_all spec_safe recording_specs" by (simp add: recording_specs_def char_simps)
  moreover have "list_all spec_safe device_power_specs" by (simp add: device_power_specs_def char_simps)
  moreover have "list_all spec_safe connectivity_updates_specs"
    by (simp add: connectivity_updates_specs_def char_simps) (simp add: spec_safe_def char_simps)
  moreover have "list_all spec_safe developer_specs" by (simp add: developer_specs_def char_simps)
  moreover have "list_all spec_safe device_read_only_specs" by (simp add: device_read_only_specs_def char_simps)
  ultimately show ?thesis unfolding param_specs_def by (simp only: list_all_append simp_thms)
qed

lemma find_spec_safe: "find_spec key = Some s \<Longrightarrow> sp_key s = key \<and> spec_safe s"
  using param_specs_safe by (auto simp: find_spec_def find_Some_iff list_all_length)

text \<open>A writable pair is made of characters that mean nothing to a shell.\<close>

lemma parse_i64_value_chars: "parse_i64 s = Some i \<Longrightarrow> list_all value_char s"
  using parse_i64_chars[of s i] by (auto simp: list_all_iff value_char_def)

lemma is_writable_chars:
  assumes "is_writable key v"
  shows "list_all is_ascii_alphanumeric key" "key \<noteq> []" "list_all value_char v"
proof -
  obtain s where s: "find_spec key = Some s" "value_ok s v" using assms by (auto simp: is_writable_def split: option.splits)
  note safe = find_spec_safe[OF s(1)]
  show "list_all is_ascii_alphanumeric key" "key \<noteq> []" using safe by (auto simp: spec_safe_def)
  show "list_all value_char v"
  proof (cases "sp_kind s")
    case PBool
    then show ?thesis using s(2) by (auto simp: value_ok_def value_char_def is_ascii_digit_def code_def)
  next
    case PInt
    then show ?thesis using s(2) parse_i64_value_chars by (auto simp: value_ok_def split: option.splits)
  next
    case PEnum
    then show ?thesis using s(2) safe by (auto simp: value_ok_def spec_safe_def list_ex_iff list_all_iff)
  qed (use s(2) in \<open>simp add: value_ok_def\<close>)
qed

end
