(* ===== verification/DeviceParams.thy ===== *)
theory DeviceParams
  imports ParamSpecs Access
begin

text \<open>
  The cache of device settings (\<^verbatim>\<open>src/device_params.rs\<close>) and its endpoints (the settings part
  of \<^verbatim>\<open>src/api/device_params.rs\<close>): an edit is stored with a pending flag, flushed to the
  device over ssh when it is online, and the device's values are read back without clobbering
  pending edits. \<open>ev\<close> is what other requests do to the state between a write on the device and
  the clearing of its flag.
\<close>

section \<open>On the device\<close>

text \<open>One shell line that prints every allowlisted parameter; the keys are joined by spaces.\<close>

definition read_all_cmd :: string where
  "read_all_cmd =
     ''for k in '' @ join_with '' '' (map sp_key param_specs) @ ''; do printf '' @ quote @ ''%s'' @ [CHR 0x5C] @ ''t'' @ quote @
     '' '' @ dquote @ ''$k'' @ dquote @ ''; cat /data/params/d/'' @ dquote @ ''$k'' @ dquote @
     '' 2>/dev/null; echo; done''"

definition read_all :: "ssh_link \<Rightarrow> string \<Rightarrow> linked \<Rightarrow> linked \<times> (string \<times> string) list res" where
  "read_all lk addr s =
     (case link_run lk addr read_all_cmd s of
        (s1, Inl e) \<Rightarrow> (s1, Inl e)
      | (s1, Inr out) \<Rightarrow> (s1, Inr (List.map_filter (split_once_str [CHR 0x09]) (lines_of out))))"

definition param_write :: "ssh_link \<Rightarrow> string \<Rightarrow> string \<Rightarrow> string \<Rightarrow> linked \<Rightarrow> linked \<times> unit res" where
  "param_write lk addr key v s =
     (if \<not> is_writable key v then (s, Inl (BadRequest ''not an editable setting, or invalid value''))
      else case link_run lk addr (param_write_cmd key v) s of
             (s1, Inl e) \<Rightarrow> (s1, Inl e)
           | (s1, Inr _) \<Rightarrow> (s1, Inr ()))"

section \<open>The cache\<close>

definition cached :: "app_state \<Rightarrow> string \<Rightarrow> param_row list" where
  "cached st dongle = filter (\<lambda>r. p_dongle_id r = dongle) (device_params_tbl st)"

definition cache_all :: "app_state \<Rightarrow> string \<Rightarrow> (string \<times> string \<times> bool) list" where
  "cache_all st dongle = map (\<lambda>r. (p_key r, p_value r, p_pending r \<noteq> 0)) (cached st dongle)"

definition cache_count :: "app_state \<Rightarrow> string \<Rightarrow> nat" where
  "cache_count st dongle = length (cached st dongle)"

definition cache_empty :: "app_state \<Rightarrow> string \<Rightarrow> bool" where
  "cache_empty st dongle = (cache_count st dongle = 0)"

definition cache_set :: "string \<Rightarrow> string \<Rightarrow> string \<Rightarrow> app_state \<Rightarrow> app_state" where
  "cache_set dongle key v st =
     st\<lparr>device_params_tbl :=
          tbl_upsert param_pk
            \<lparr>p_dongle_id = dongle, p_key = key, p_value = v, p_pending = 1, p_updated_at = now_millis st\<rparr>
            (\<lambda>r. r\<lparr>p_value := v, p_pending := 1, p_updated_at := now_millis st\<rparr>) (device_params_tbl st)\<rparr>"

definition clear_pending :: "string \<Rightarrow> string \<Rightarrow> app_state \<Rightarrow> app_state" where
  "clear_pending dongle key st =
     st\<lparr>device_params_tbl :=
          tbl_update (\<lambda>r. p_dongle_id r = dongle \<and> p_key r = key) (\<lambda>r. r\<lparr>p_pending := 0\<rparr>) (device_params_tbl st)\<rparr>"

definition pending_rows :: "app_state \<Rightarrow> string \<Rightarrow> (string \<times> string) list" where
  "pending_rows st dongle =
     map (\<lambda>r. (p_key r, p_value r)) (filter (\<lambda>r. p_pending r = 1) (cached st dongle))"

text \<open>One pending edit: an invalid one only loses its flag, a failed write keeps it.\<close>

definition flush_row ::
    "ssh_link \<Rightarrow> (app_state \<Rightarrow> app_state) \<Rightarrow> string \<Rightarrow> string \<Rightarrow> string \<times> string \<Rightarrow> linked \<times> nat \<Rightarrow> linked \<times> nat" where
  "flush_row lk ev dongle addr kv c =
     (let (k, v) = kv; (s, n) = c
      in if \<not> is_writable k v then ((clear_pending dongle k (fst s), snd s), n)
         else case param_write lk addr k v s of
                (s1, Inr _) \<Rightarrow> ((clear_pending dongle k (ev (fst s1)), snd s1), n + 1)
              | (s1, Inl _) \<Rightarrow> ((ev (fst s1), snd s1), n))"

definition flush :: "ssh_link \<Rightarrow> (app_state \<Rightarrow> app_state) \<Rightarrow> string \<Rightarrow> string \<Rightarrow> linked \<Rightarrow> linked \<times> nat" where
  "flush lk ev dongle addr s = fold (flush_row lk ev dongle addr) (pending_rows (fst s) dongle) (s, 0)"

definition store_actual :: "string \<Rightarrow> string \<times> string \<Rightarrow> app_state \<Rightarrow> app_state" where
  "store_actual dongle kv st =
     st\<lparr>device_params_tbl :=
          tbl_upsert param_pk
            \<lparr>p_dongle_id = dongle, p_key = fst kv, p_value = snd kv, p_pending = 0, p_updated_at = now_millis st\<rparr>
            (\<lambda>r. if p_pending r = 0 then r\<lparr>p_value := snd kv, p_updated_at := now_millis st\<rparr> else r)
            (device_params_tbl st)\<rparr>"

definition refresh :: "ssh_link \<Rightarrow> string \<Rightarrow> string \<Rightarrow> linked \<Rightarrow> linked \<times> unit res" where
  "refresh lk dongle addr s =
     (case read_all lk addr s of
        (s1, Inl e) \<Rightarrow> (s1, Inl e)
      | (s1, Inr kvs) \<Rightarrow> ((fold (store_actual dongle) kvs (fst s1), snd s1), Inr ()))"

definition reconcile :: "ssh_link \<Rightarrow> (app_state \<Rightarrow> app_state) \<Rightarrow> string \<Rightarrow> string \<Rightarrow> linked \<Rightarrow> linked" where
  "reconcile lk ev dongle addr s =
     (if addr = [] then s else fst (refresh lk dongle addr (fst (flush lk ev dongle addr s))))"

definition params_on_connect :: "ssh_link \<Rightarrow> (app_state \<Rightarrow> app_state) \<Rightarrow> string \<Rightarrow> linked \<Rightarrow> linked" where
  "params_on_connect lk ev dongle s =
     (case load_device (fst s) dongle of
        Some d \<Rightarrow> reconcile lk ev dongle (d_last_addr d) s
      | None \<Rightarrow> s)"

section \<open>Endpoints\<close>

record params_view =
  pv_online :: bool
  pv_specs :: "spec list"
  pv_values :: "(string \<times> string) list"
  pv_pending :: "string list"

definition reachable :: "device \<Rightarrow> bool" where
  "reachable d = (d_online d = 1 \<and> d_last_addr d \<noteq> [])"

definition get_params :: "ssh_link \<Rightarrow> user \<Rightarrow> string \<Rightarrow> linked \<Rightarrow> linked \<times> params_view res" where
  "get_params lk user dongle s =
     (case can_manage_device (fst s) user dongle of
        Inl e \<Rightarrow> (s, Inl e)
      | Inr device \<Rightarrow>
          let s1 = (if reachable device \<and> cache_empty (fst s) dongle
                    then fst (refresh lk dongle (d_last_addr device) s) else s);
              rows = cache_all (fst s1) dongle
          in (s1, Inr \<lparr>pv_online = reachable device, pv_specs = param_specs,
                       pv_values = map (\<lambda>(k, v, _). (k, v)) rows,
                       pv_pending = map fst (filter (\<lambda>(_, _, p). p) rows)\<rparr>))"

text \<open>The answer, and the background flush it starts when the device is reachable.\<close>

definition set_param ::
    "user \<Rightarrow> string \<Rightarrow> string \<Rightarrow> string \<Rightarrow> app_state \<Rightarrow> app_state \<times> (bool \<times> (string \<times> string) option) res" where
  "set_param user dongle key v st =
     (case can_manage_device st user dongle of
        Inl e \<Rightarrow> (st, Inl e)
      | Inr device \<Rightarrow>
          if \<not> is_writable key v then (st, Inl (BadRequest ''not an editable setting, or invalid value''))
          else (cache_set dongle key v st,
                Inr (reachable device, if reachable device then Some (dongle, d_last_addr device) else None)))"


section \<open>Lemmas\<close>

definition sends :: "string \<Rightarrow> string set \<Rightarrow> linked \<Rightarrow> linked \<Rightarrow> bool" where
  "sends addr P s s' \<longleftrightarrow> (\<exists>cs. snd s' = snd s @ map (Pair addr) cs \<and> set cs \<subseteq> P)"

lemma sends_talks: "talks addr P s s' \<Longrightarrow> sends addr P s s'"
  unfolding talks_def sends_def by blast

lemma sends_refl [simp]: "sends addr P s (st, snd s)"
  unfolding sends_def by (intro exI[of _ "[]"]) simp

lemma sends_fst [simp]: "sends addr P s (st, snd s') = sends addr P s s'"
  by (simp add: sends_def)

lemma sends_trans: "sends addr P a b \<Longrightarrow> sends addr P b c \<Longrightarrow> sends addr P a c"
proof -
  assume ab: "sends addr P a b" and bc: "sends addr P b c"
  from ab obtain cs where cs: "snd b = snd a @ map (Pair addr) cs" "set cs \<subseteq> P" unfolding sends_def by blast
  from bc obtain ds where ds: "snd c = snd b @ map (Pair addr) ds" "set ds \<subseteq> P" unfolding sends_def by blast
  show ?thesis using cs ds unfolding sends_def by (intro exI[of _ "cs @ ds"]) simp_all
qed

text \<open>The commands a reconciliation may send: the listing, and writes of allowed values.\<close>

definition param_commands :: "string set" where
  "param_commands = insert read_all_cmd {param_write_cmd k v | k v. is_writable k v}"

lemma param_write_facts:
  "talks addr param_commands s (fst (param_write lk addr k v s))"
  "param_write lk addr k v s = (s', Inr ()) \<Longrightarrow> is_writable k v \<and> snd s' = snd s @ [(addr, param_write_cmd k v)]"
proof -
  have "talks addr param_commands s (fst (link_run lk addr (param_write_cmd k v) s))" if "is_writable k v"
    using that by (intro link_run_talks) (auto simp: param_commands_def)
  then show "talks addr param_commands s (fst (param_write lk addr k v s))"
    by (auto simp: param_write_def split: prod.split sum.split)
  show "param_write lk addr k v s = (s', Inr ()) \<Longrightarrow> is_writable k v \<and> snd s' = snd s @ [(addr, param_write_cmd k v)]"
    by (auto simp: param_write_def dest!: link_run_Inr(1) split: prod.splits sum.splits if_splits)
qed

lemma flush_row_sends: "sends addr param_commands (fst c) (fst (flush_row lk ev dongle addr kv c))"
proof -
  obtain k v where kv: "kv = (k, v)" by fastforce
  obtain s n where c: "c = (s, n)" by fastforce
  have "sends addr param_commands s (fst (param_write lk addr k v s))"
    using param_write_facts(1) by (rule sends_talks)
  then show ?thesis by (auto simp: flush_row_def kv c sends_def split: prod.splits sum.splits)
qed

lemma flush_sends: "sends addr param_commands s (fst (flush lk ev dongle addr s))"
proof -
  have "sends addr param_commands (fst c) (fst (fold (flush_row lk ev dongle addr) rows c))" for rows c
  proof (induction rows arbitrary: c)
    case (Cons kv rows)
    from sends_trans[OF flush_row_sends Cons.IH[of "flush_row lk ev dongle addr kv c"]] show ?case by simp
  qed (simp add: sends_def)
  from this[of "(s, 0)"] show ?thesis by (simp add: flush_def)
qed

lemma refresh_sends: "sends addr param_commands s (fst (refresh lk dongle addr s))"
proof -
  have "sends addr param_commands s (fst (link_run lk addr read_all_cmd s))"
    by (intro sends_talks link_run_talks) (simp add: param_commands_def)
  then show ?thesis by (auto simp: refresh_def read_all_def sends_def split: prod.split sum.split prod.splits)
qed

text \<open>One cell of the cache.\<close>

definition cell :: "app_state \<Rightarrow> string \<Rightarrow> string \<Rightarrow> param_row option" where
  "cell st dongle key = tbl_find param_pk (dongle, key) (device_params_tbl st)"

lemma cell_cache_set:
  "cell (cache_set g k v st) g' k' =
    (if (g', k') = (g, k)
     then Some (case cell st g k of
            None \<Rightarrow> \<lparr>p_dongle_id = g, p_key = k, p_value = v, p_pending = 1, p_updated_at = now_millis st\<rparr>
          | Some r \<Rightarrow> r\<lparr>p_value := v, p_pending := 1, p_updated_at := now_millis st\<rparr>)
     else cell st g' k')"
  by (auto simp: cell_def cache_set_def tbl_find_upsert param_pk_def split: option.split)

lemma cell_clear:
  "cell (clear_pending g k st) g' k' =
    (if (g', k') = (g, k) then map_option (\<lambda>r. r\<lparr>p_pending := 0\<rparr>) (cell st g' k') else cell st g' k')"
proof -
  have "cell (clear_pending g k st) g' k' =
      map_option (\<lambda>r. if p_dongle_id r = g \<and> p_key r = k then r\<lparr>p_pending := 0\<rparr> else r) (cell st g' k')"
    by (simp add: cell_def clear_pending_def tbl_find_update param_pk_def)
  then show ?thesis
    by (cases "cell st g' k'") (auto simp: cell_def param_pk_def dest: tbl_find_SomeD)
qed

lemma cell_store:
  "cell (store_actual g kv st) g' k' =
    (if (g', k') = (g, fst kv)
     then Some (case cell st g' k' of
            None \<Rightarrow> \<lparr>p_dongle_id = g, p_key = fst kv, p_value = snd kv, p_pending = 0, p_updated_at = now_millis st\<rparr>
          | Some r \<Rightarrow> if p_pending r = 0 then r\<lparr>p_value := snd kv, p_updated_at := now_millis st\<rparr> else r)
     else cell st g' k')"
  by (auto simp: cell_def store_actual_def tbl_find_upsert param_pk_def split: option.split)


lemma cell_files: "only_files st st' \<Longrightarrow> cell st' g k = cell st g k"
  using only_files_frame by (simp add: cell_def)

text \<open>The device was sent \<open>cmd\<close> and reported success.\<close>

definition accepted :: "ssh_link \<Rightarrow> string \<Rightarrow> string \<Rightarrow> sent \<Rightarrow> bool" where
  "accepted lk addr cmd sent \<longleftrightarrow>
     (\<exists>sofar later argv out err. sent = sofar @ (addr, cmd) # later \<and> last argv = cmd \<and>
        lk_dev lk sofar argv = Exited True out err)"

lemma accepted_later: "accepted lk addr cmd sent \<Longrightarrow> prefix sent sent' \<Longrightarrow> accepted lk addr cmd sent'"
  unfolding accepted_def prefix_def by (metis append_Cons append_assoc)

lemma param_write_accepted:
  assumes "param_write lk addr k v s = (s', Inr r)"
  shows "accepted lk addr (param_write_cmd k v) (snd s')"
proof -
  obtain s1 out where l: "link_run lk addr (param_write_cmd k v) s = (s1, Inr out)" "s' = s1"
    using assms by (auto simp: param_write_def split: if_splits prod.splits sum.splits)
  show ?thesis using link_run_Inr(1,3)[OF l(1)] l(2) unfolding accepted_def by auto
qed

lemma flush_row_cell:
  assumes "flush_row lk id g addr (k, v) (s, n) = (s', n')"
  shows "prefix (snd s) (snd s')"
    "cell (fst s') g' k' = cell (fst s) g' k' \<or>
     g' = g \<and> k' = k \<and> cell (fst s') g' k' = map_option (\<lambda>r. r\<lparr>p_pending := 0\<rparr>) (cell (fst s) g' k') \<and>
       (is_writable k v \<longrightarrow> accepted lk addr (param_write_cmd k v) (snd s'))"
proof -
  have "sends addr param_commands s s'" using flush_row_sends[of addr "(s, n)" lk id g "(k, v)"] assms by simp
  then show "prefix (snd s) (snd s')" by (auto simp: sends_def prefix_def)
  have w: "only_files (fst s) (fst (fst (param_write lk addr k v s)))"
    using param_write_facts(1)[of addr s lk k v] by (simp add: talks_def)
  show "cell (fst s') g' k' = cell (fst s) g' k' \<or>
     g' = g \<and> k' = k \<and> cell (fst s') g' k' = map_option (\<lambda>r. r\<lparr>p_pending := 0\<rparr>) (cell (fst s) g' k') \<and>
       (is_writable k v \<longrightarrow> accepted lk addr (param_write_cmd k v) (snd s'))"
    using assms cell_files[OF w, of g' k'] param_write_accepted[where lk = lk and addr = addr and k = k and v = v and s = s]
    by (auto simp: flush_row_def cell_clear split: prod.splits sum.splits if_splits)
qed

lemma flush_fold_cell:
  assumes "fold (flush_row lk id g addr) rows (s, n) = (s', n')"
  shows "prefix (snd s) (snd s') \<and>
    (cell (fst s') g' k' = cell (fst s) g' k' \<or>
     (\<exists>v. g' = g \<and> (k', v) \<in> set rows \<and>
        cell (fst s') g' k' = map_option (\<lambda>r. r\<lparr>p_pending := 0\<rparr>) (cell (fst s) g' k') \<and>
        (is_writable k' v \<longrightarrow> accepted lk addr (param_write_cmd k' v) (snd s'))))"
  using assms
proof (induction rows arbitrary: s n)
  case (Cons kv rows)
  obtain k v where kv: "kv = (k, v)" by fastforce
  obtain s1 n1 where 1: "flush_row lk id g addr (k, v) (s, n) = (s1, n1)" by fastforce
  note row = flush_row_cell(1)[OF 1] flush_row_cell(2)[OF 1, of g' k']
  have "fold (flush_row lk id g addr) rows (s1, n1) = (s', n')"
    using Cons.prems unfolding kv by (simp only: fold_simps 1)
  note IH = Cons.IH[OF this]
  have idem: "map_option (\<lambda>r. r\<lparr>p_pending := 0\<rparr>) (map_option (\<lambda>r. r\<lparr>p_pending := 0\<rparr>) c) =
      map_option (\<lambda>r. r\<lparr>p_pending := 0\<rparr>) c" for c :: "param_row option" by (cases c) simp_all
  have later: "accepted lk addr c (snd s1) \<Longrightarrow> accepted lk addr c (snd s')" for c
    using IH accepted_later by blast
  have "prefix (snd s) (snd s')" using IH row(1) prefix_order.trans by blast
  then show ?case using IH row later unfolding kv by (auto simp: idem)
qed simp

lemma pending_rows_cell:
  assumes "tbl_ok param_pk (device_params_tbl st)" "(k, v) \<in> set (pending_rows st g)"
  shows "\<exists>r. cell st g k = Some r \<and> p_pending r = 1 \<and> p_value r = v"
proof -
  obtain r where r: "r \<in> set (device_params_tbl st)" "p_dongle_id r = g" "p_pending r = 1" "p_key r = k" "p_value r = v"
    using assms(2) by (auto simp: pending_rows_def cached_def)
  then have "cell st g k = Some r" using tbl_find_in_set[OF assms(1) r(1)] by (simp add: cell_def param_pk_def)
  then show ?thesis using r by blast
qed

section \<open>Properties\<close>

text \<open>
  C12: no shell injection through device settings. Whatever the cache holds and whatever the device
  answers, every command a reconciliation sends is the fixed listing, or the write line of a key of
  the allowlist with a value valid for its kind: a key of ASCII letters and digits, a value of digits
  and signs. So no quote, space or metacharacter of a setting ever reaches the device's shell.
\<close>

theorem param_commands_safe:
  "\<exists>cs. snd (reconcile lk ev dongle addr s) = snd s @ map (Pair addr) cs \<and>
    (\<forall>c \<in> set cs. c = read_all_cmd \<or>
       (\<exists>k v. c = param_write_cmd k v \<and> is_writable k v \<and> k \<noteq> [] \<and> list_all is_ascii_alphanumeric k \<and>
          list_all value_char v \<and> CHR 0x27 \<notin> set v))"
proof -
  have "sends addr param_commands s (reconcile lk ev dongle addr s)"
    using sends_trans[OF flush_sends[of addr s lk ev dongle] refresh_sends]
    by (cases s) (auto simp: reconcile_def sends_def)
  moreover have "CHR 0x27 \<notin> set v" if "list_all value_char v" for v
    using that by (auto simp: list_all_iff value_char_def is_ascii_digit_def code_def)
  then have "c = read_all_cmd \<or> (\<exists>k v. c = param_write_cmd k v \<and> is_writable k v \<and> k \<noteq> [] \<and>
      list_all is_ascii_alphanumeric k \<and> list_all value_char v \<and> CHR 0x27 \<notin> set v)" if "c \<in> param_commands" for c
    using that is_writable_chars unfolding param_commands_def by blast
  ultimately show ?thesis unfolding sends_def by (meson subsetD)
qed

text \<open>
  C21: a flush without interference loses nothing. Every cell of the cache is as before, except that a
  pending edit of the device may have lost its flag; and then the edit was either not valid any more,
  or its write was sent to the device, which reported success. Values never change, other devices' cells never
  change.
\<close>

theorem flush_settles:
  assumes ok: "tbl_ok param_pk (device_params_tbl st)" and run: "flush lk id dongle addr (st, sofar) = ((st', sent), n)"
  shows "cell st' g k = cell st g k \<or>
    (\<exists>r. g = dongle \<and> cell st g k = Some r \<and> p_pending r = 1 \<and> cell st' g k = Some (r\<lparr>p_pending := 0\<rparr>) \<and>
       (is_writable k (p_value r) \<longrightarrow> accepted lk addr (param_write_cmd k (p_value r)) sent))"
proof -
  have c: "cell st' g k = cell st g k \<or> (\<exists>v. g = dongle \<and> (k, v) \<in> set (pending_rows st dongle) \<and>
      cell st' g k = map_option (\<lambda>r. r\<lparr>p_pending := 0\<rparr>) (cell st g k) \<and>
      (is_writable k v \<longrightarrow> accepted lk addr (param_write_cmd k v) sent))"
    using flush_fold_cell[OF run[unfolded flush_def], of g k] by simp
  then show ?thesis
  proof (elim disjE exE conjE)
    fix v
    assume v: "g = dongle" "(k, v) \<in> set (pending_rows st dongle)"
      "cell st' g k = map_option (\<lambda>r. r\<lparr>p_pending := 0\<rparr>) (cell st g k)"
      "is_writable k v \<longrightarrow> accepted lk addr (param_write_cmd k v) sent"
    obtain r where "cell st dongle k = Some r" "p_pending r = 1" "p_value r = v"
      using pending_rows_cell[OF ok v(2)] by blast
    then show ?thesis using v by auto
  qed simp
qed

text \<open>
  C37: an edit made while a flush is running is lost. If the user sets a new value after the old one was
  written to the device and before its flag is cleared, the flag of the new value is cleared with it:
  the new value was never sent and is not pending, and the next refresh, which reads the old value
  back, overwrites it.
\<close>

theorem edit_during_flush_is_lost:
  assumes "is_writable k v" "param_write lk addr k v s = (s1, Inr ())"
  shows "\<exists>s' r r'. flush_row lk (cache_set dongle k v2) dongle addr (k, v) (s, n) = (s', n + 1) \<and>
    snd s' = snd s @ [(addr, param_write_cmd k v)] \<and>
    cell (fst s') dongle k = Some r \<and> p_value r = v2 \<and> p_pending r = 0 \<and>
    cell (store_actual dongle (k, v) (fst s')) dongle k = Some r' \<and> p_value r' = v"
proof -
  let ?s' = "(clear_pending dongle k (cache_set dongle k v2 (fst s1)), snd s1)"
  have f: "flush_row lk (cache_set dongle k v2) dongle addr (k, v) (s, n) = (?s', n + 1)"
    using assms by (simp add: flush_row_def)
  have log: "snd s1 = snd s @ [(addr, param_write_cmd k v)]" using param_write_facts(2)[OF assms(2)] by simp
  obtain r where r: "cell (fst ?s') dongle k = Some r" "p_value r = v2" "p_pending r = 0"
    by (auto simp: cell_clear cell_cache_set split: option.split)
  then have "cell (store_actual dongle (k, v) (fst ?s')) dongle k =
      Some (r\<lparr>p_value := v, p_updated_at := now_millis (fst ?s')\<rparr>)"
    by (simp add: cell_store)
  then show ?thesis using f log r by fastforce
qed


text \<open>A device that accepts every command, and a server that has its key.\<close>

definition demo_link :: ssh_link where
  "demo_link =
     \<lparr>lk_os = \<lparr>os_keygen = (\<lambda>k. (Exited True [] [], ''priv'', ''pub'')), os_ssh = (\<lambda>_. TimedOut),
               os_scp = (\<lambda>_. (TimedOut, [])), os_utf8 = Some, os_lossy = id\<rparr>,
      lk_dev = (\<lambda>_ _. Exited True [] [])\<rparr>"

definition demo_cache :: app_state where
  "demo_cache = cache_set ''d'' ''OpenpilotEnabledToggle'' ''1'' empty_state"

lemma demo_writable: "is_writable ''OpenpilotEnabledToggle'' ''1''"
proof -
  have "find_spec ''OpenpilotEnabledToggle'' = Some (hd driving_specs)"
    by (simp add: find_spec_def param_specs_def driving_specs_def bool_spec_def)
  then show ?thesis by (simp add: is_writable_def value_ok_def driving_specs_def bool_spec_def)
qed

lemma demo_link_run: "disk_ok st = (\<lambda>_. True) \<Longrightarrow> a \<noteq> [] \<Longrightarrow> \<exists>s1. link_run demo_link a c (st, sofar) = (s1, Inr [])"
  by (auto simp: link_run_def link_os_def demo_link_def ssh_run_def ensure_keypair_def read_pub_def file_exists_def
      fs_get_put key_path_def Let_def split: prod.split option.split)

lemma demo_write: "\<exists>s1. param_write demo_link ''a'' ''OpenpilotEnabledToggle'' ''1'' (demo_cache, []) = (s1, Inr ())"
proof -
  have "disk_ok demo_cache = (\<lambda>_. True)" by (simp add: demo_cache_def cache_set_def empty_state_def)
  then obtain s1 where "link_run demo_link ''a'' (param_write_cmd ''OpenpilotEnabledToggle'' ''1'') (demo_cache, []) = (s1, Inr [])"
    using demo_link_run[of demo_cache "''a''"] by blast
  then show ?thesis using demo_writable by (simp add: param_write_def)
qed

theorem param_commands_safe_witness:
  "read_all_cmd \<noteq> param_write_cmd ''OpenpilotEnabledToggle'' ''1'' \<and>
   (\<exists>cs. snd (reconcile demo_link id ''d'' ''a'' (demo_cache, [])) = snd (demo_cache, []) @ map (Pair ''a'') cs \<and>
    (\<forall>c \<in> set cs. c = read_all_cmd \<or>
       (\<exists>k v. c = param_write_cmd k v \<and> is_writable k v \<and> k \<noteq> [] \<and> list_all is_ascii_alphanumeric k \<and>
          list_all value_char v \<and> CHR 0x27 \<notin> set v)))"
proof (rule conjI)
  show "read_all_cmd \<noteq> param_write_cmd ''OpenpilotEnabledToggle'' ''1''"
    by (simp add: read_all_cmd_def param_write_cmd_def)
qed (rule param_commands_safe[of demo_link id "''d''" "''a''" "(demo_cache, [])"])

theorem flush_settles_witness:
  "\<exists>st' sent n. flush demo_link id ''d'' ''a'' (demo_cache, []) = ((st', sent), n) \<and>
     (cell st' ''d'' ''OpenpilotEnabledToggle'' = cell demo_cache ''d'' ''OpenpilotEnabledToggle'' \<or>
      accepted demo_link ''a'' (param_write_cmd ''OpenpilotEnabledToggle'' ''1'') sent)"
proof -
  have ok: "tbl_ok param_pk (device_params_tbl demo_cache)"
    by (simp add: demo_cache_def cache_set_def empty_state_def tbl_upsert_def tbl_ok_def)
  have c: "cell demo_cache ''d'' ''OpenpilotEnabledToggle'' =
      Some \<lparr>p_dongle_id = ''d'', p_key = ''OpenpilotEnabledToggle'', p_value = ''1'', p_pending = 1, p_updated_at = 1700000000000\<rparr>"
    by (simp add: demo_cache_def cell_cache_set) (simp add: cell_def empty_state_def)
  obtain st' sent n where r: "flush demo_link id ''d'' ''a'' (demo_cache, []) = ((st', sent), n)" by (metis surj_pair)
  show ?thesis using flush_settles[OF ok r, of "''d''" "''OpenpilotEnabledToggle''"] r demo_writable unfolding c by auto
qed

theorem edit_during_flush_is_lost_witness:
  "\<exists>s' r. flush_row demo_link (cache_set ''d'' ''OpenpilotEnabledToggle'' ''0'') ''d'' ''a'' (''OpenpilotEnabledToggle'', ''1'')
      ((demo_cache, []), 0) = (s', 1) \<and>
     cell (fst s') ''d'' ''OpenpilotEnabledToggle'' = Some r \<and> p_value r = ''0'' \<and> p_pending r = 0"
proof -
  obtain s1 where w: "param_write demo_link ''a'' ''OpenpilotEnabledToggle'' ''1'' (demo_cache, []) = (s1, Inr ())"
    using demo_write by blast
  show ?thesis using edit_during_flush_is_lost[OF demo_writable w, where ?v2.0 = "''0''" and dongle = "''d''" and n = 0] by auto
qed

end
