(* ===== verification/DeviceUpdate.thy ===== *)
theory DeviceUpdate
  imports DeviceLink Access
begin

text \<open>
  openpilot software updates over ssh: \<^verbatim>\<open>src/device_update.rs\<close> and
  \<^verbatim>\<open>src/api/device_update.rs\<close>. Every action first asks the device, in the same request,
  whether the car is off; the conversation model of DeviceLink lets the device answer differently
  every time.
\<close>

section \<open>Status\<close>

definition upd_sep :: string where "upd_sep = ''__HCupdsep__''"

definition status_keys :: "string list" where
  "status_keys =
     [''IsOffroad'', ''IsOnroad'', ''DisableUpdates'', ''UpdaterState'', ''UpdaterFetchAvailable'',
      ''UpdateAvailable'', ''UpdaterCurrentDescription'', ''UpdaterNewDescription'',
      ''UpdaterTargetBranch'', ''UpdaterAvailableBranches'', ''UpdateFailedCount'',
      ''LastUpdateException'', ''LastUpdateTime'', ''GitBranch'', ''GitCommitDate'']"

definition updated_proc :: string where "updated_proc = ''[s]ystem.updated.updated''"

definition read_snippet :: "string \<Rightarrow> string" where
  "read_snippet key = ''cat /data/params/d/'' @ key @ '' 2>/dev/null | head -c 4000''"

text \<open>Inside the shell's \<open>printf\<close> argument the line feeds are written as a backslash and an n.\<close>

definition status_cmd :: string where
  "status_cmd =
     join_with ''; ''
       (map (\<lambda>k. read_snippet k @ ''; printf '' @ quote @ [CHR 0x5C] @ ''n'' @ upd_sep @ [CHR 0x5C] @ ''n'' @ quote) status_keys) @
     ''; pgrep -f '' @ quote @ updated_proc @ quote @ '' >/dev/null && echo running || echo stopped''"

record update_status =
  us_offroad :: bool
  us_updates_disabled :: bool
  us_updater_running :: bool
  us_state :: string
  us_fetch_available :: bool
  us_update_ready :: bool
  us_current :: string
  us_new :: string
  us_branch :: string
  us_target_branch :: string
  us_branches :: "string list"
  us_commit_date :: string
  us_failed_count :: int
  us_last_error :: string
  us_last_checked :: string

definition part_at :: "string list \<Rightarrow> nat \<Rightarrow> string" where
  "part_at parts i = (if i < length parts then parts ! i else [])"

definition parse_status :: "string \<Rightarrow> update_status" where
  "parse_status out =
     (let parts = map trim (split_str ([CHR 0x0A] @ upd_sep @ [CHR 0x0A]) out);
          vals = zip status_keys (map (part_at parts) [0..<length status_keys]);
          get = (\<lambda>k. case map_of vals k of Some v \<Rightarrow> v | None \<Rightarrow> []);
          flag = (\<lambda>k. get k = ''1'')
      in \<lparr>us_offroad = flag ''IsOffroad'', us_updates_disabled = flag ''DisableUpdates'',
          us_updater_running = contains_str ''running'' (part_at parts (length status_keys)),
          us_state = get ''UpdaterState'', us_fetch_available = flag ''UpdaterFetchAvailable'',
          us_update_ready = flag ''UpdateAvailable'', us_current = get ''UpdaterCurrentDescription'',
          us_new = get ''UpdaterNewDescription'', us_branch = get ''GitBranch'',
          us_target_branch = get ''UpdaterTargetBranch'',
          us_branches = filter (\<lambda>b. b \<noteq> []) (split_on (CHR '','') (get ''UpdaterAvailableBranches'')),
          us_commit_date = get ''GitCommitDate'',
          us_failed_count = (case parse_i64 (get ''UpdateFailedCount'') of Some i \<Rightarrow> i | None \<Rightarrow> 0),
          us_last_error = get ''LastUpdateException'', us_last_checked = get ''LastUpdateTime''\<rparr>)"

definition update_status_of :: "ssh_link \<Rightarrow> string \<Rightarrow> linked \<Rightarrow> linked \<times> update_status res" where
  "update_status_of lk addr s =
     (case link_run lk addr status_cmd s of
        (s1, Inl e) \<Rightarrow> (s1, Inl e)
      | (s1, Inr out) \<Rightarrow> (s1, Inr (parse_status out)))"

section \<open>Actions\<close>

definition not_offroad :: app_error where
  "not_offroad = BadRequest ''the car must be off before changing software on the device''"

definition require_offroad :: "ssh_link \<Rightarrow> string \<Rightarrow> linked \<Rightarrow> linked \<times> unit res" where
  "require_offroad lk addr s =
     (case link_run lk addr (read_snippet ''IsOffroad'') s of
        (s1, Inl e) \<Rightarrow> (s1, Inl e)
      | (s1, Inr out) \<Rightarrow> (s1, if trim out = ''1'' then Inr () else Inl not_offroad))"

text \<open>Run the rest of an action only if the step before it succeeded (the \<open>?\<close> operator).\<close>

definition and_then :: "linked \<times> 'a res \<Rightarrow> ('a \<Rightarrow> linked \<Rightarrow> linked \<times> 'b res) \<Rightarrow> linked \<times> 'b res" where
  "and_then x f = (case x of (s, Inl e) \<Rightarrow> (s, Inl e) | (s, Inr v) \<Rightarrow> f v s)"

definition done_unit :: "linked \<times> 'a res \<Rightarrow> linked \<times> unit res" where
  "done_unit x = and_then x (\<lambda>_ s. (s, Inr ()))"

definition signal_cmd :: "string \<Rightarrow> string" where
  "signal_cmd sig = ''pkill -'' @ sig @ '' -f '' @ quote @ updated_proc @ quote @ ''; true''"

definition write_update_param :: "ssh_link \<Rightarrow> string \<Rightarrow> string \<Rightarrow> string \<Rightarrow> linked \<Rightarrow> linked \<times> unit res" where
  "write_update_param lk addr key v s =
     (if \<not> list_all (\<lambda>c. is_ascii_alphanumeric c \<or> c \<in> set ''-_./'') v
      then (s, Inl (BadRequest ''invalid parameter value''))
      else done_unit (link_run lk addr (param_write_cmd key v) s))"

definition update_check :: "ssh_link \<Rightarrow> string \<Rightarrow> linked \<Rightarrow> linked \<times> unit res" where
  "update_check lk addr s =
     and_then (require_offroad lk addr s) (\<lambda>_ s. done_unit (link_run lk addr (signal_cmd ''SIGUSR1'') s))"

definition update_download :: "ssh_link \<Rightarrow> string \<Rightarrow> linked \<Rightarrow> linked \<times> unit res" where
  "update_download lk addr s =
     and_then (require_offroad lk addr s) (\<lambda>_ s. done_unit (link_run lk addr (signal_cmd ''SIGHUP'') s))"

definition update_install :: "ssh_link \<Rightarrow> string \<Rightarrow> linked \<Rightarrow> linked \<times> unit res" where
  "update_install lk addr s =
     and_then (require_offroad lk addr s) (\<lambda>_ s.
       and_then (link_run lk addr (read_snippet ''UpdateAvailable'') s) (\<lambda>ready s.
         if trim ready \<noteq> ''1'' then (s, Inl (BadRequest ''no downloaded update is staged to install''))
         else write_update_param lk addr ''DoReboot'' ''1'' s))"

definition update_reboot :: "ssh_link \<Rightarrow> string \<Rightarrow> linked \<Rightarrow> linked \<times> unit res" where
  "update_reboot lk addr s =
     and_then (require_offroad lk addr s) (\<lambda>_ s. write_update_param lk addr ''DoReboot'' ''1'' s)"

definition update_set_branch :: "ssh_link \<Rightarrow> string \<Rightarrow> string \<Rightarrow> linked \<Rightarrow> linked \<times> unit res" where
  "update_set_branch lk addr branch s =
     and_then (require_offroad lk addr s) (\<lambda>_ s.
       and_then (link_run lk addr (read_snippet ''UpdaterAvailableBranches'') s) (\<lambda>listed s.
         if branch \<notin> set (split_on (CHR '','') (trim listed))
         then (s, Inl (BadRequest ''unknown branch for this device''))
         else and_then (write_update_param lk addr ''UpdaterTargetBranch'' branch s) (\<lambda>_ s.
           done_unit (link_run lk addr (signal_cmd ''SIGUSR1'') s))))"

definition set_updates_enabled :: "ssh_link \<Rightarrow> string \<Rightarrow> bool \<Rightarrow> linked \<Rightarrow> linked \<times> unit res" where
  "set_updates_enabled lk addr enabled s =
     and_then (require_offroad lk addr s)
       (\<lambda>_ s. write_update_param lk addr ''DisableUpdates'' (if enabled then ''0'' else ''1'') s)"

section \<open>Endpoints\<close>

definition get_update :: "ssh_link \<Rightarrow> user \<Rightarrow> string \<Rightarrow> linked \<Rightarrow> linked \<times> update_status option res" where
  "get_update lk user dongle s =
     (case can_manage_device (fst s) user dongle of
        Inl e \<Rightarrow> (s, Inl e)
      | Inr device \<Rightarrow>
          if d_online device = 0 \<or> d_last_addr device = [] then (s, Inr None)
          else and_then (update_status_of lk (d_last_addr device) s) (\<lambda>st s. (s, Inr (Some st))))"

record update_action =
  ua_action :: string
  ua_branch :: string
  ua_enabled :: bool

definition post_update :: "ssh_link \<Rightarrow> user \<Rightarrow> string \<Rightarrow> update_action \<Rightarrow> linked \<Rightarrow> linked \<times> unit res" where
  "post_update lk user dongle req s =
     (case can_manage_device (fst s) user dongle of
        Inl e \<Rightarrow> (s, Inl e)
      | Inr device \<Rightarrow>
          if d_online device = 0 \<or> d_last_addr device = []
          then (s, Inl (BadRequest ''device must be online to update it''))
          else let addr = d_last_addr device
               in if ua_action req = ''check'' then update_check lk addr s
                  else if ua_action req = ''download'' then update_download lk addr s
                  else if ua_action req = ''install'' then update_install lk addr s
                  else if ua_action req = ''reboot'' then update_reboot lk addr s
                  else if ua_action req = ''branch'' then update_set_branch lk addr (ua_branch req) s
                  else if ua_action req = ''updates'' then set_updates_enabled lk addr (ua_enabled req) s
                  else (s, Inl (BadRequest ''unknown update action'')))"


section \<open>Lemmas\<close>

text \<open>The device, sent \<open>cmd\<close> after the commands \<open>sofar\<close>, answered \<open>out\<close>.\<close>

definition answered :: "ssh_link \<Rightarrow> sent \<Rightarrow> string \<Rightarrow> string \<Rightarrow> bool" where
  "answered lk sofar cmd out \<longleftrightarrow>
     (\<exists>argv a b. lk_dev lk sofar argv = Exited True a b \<and> last argv = cmd \<and> out = os_lossy (lk_os lk) a)"

definition branch_listed :: "ssh_link \<Rightarrow> string \<Rightarrow> bool" where
  "branch_listed lk b \<longleftrightarrow>
     (\<exists>sofar out. answered lk sofar (read_snippet ''UpdaterAvailableBranches'') out \<and> b \<in> set (split_on (CHR '','') (trim out)))"

text \<open>Everything the module may send after the gate.\<close>

definition update_commands :: "ssh_link \<Rightarrow> string set" where
  "update_commands lk =
     {signal_cmd ''SIGUSR1'', signal_cmd ''SIGHUP'', read_snippet ''UpdateAvailable'', read_snippet ''UpdaterAvailableBranches''} \<union>
     {param_write_cmd ''DoReboot'' ''1'', param_write_cmd ''DisableUpdates'' ''0'', param_write_cmd ''DisableUpdates'' ''1''} \<union>
     {param_write_cmd ''UpdaterTargetBranch'' b | b. shell_safe b \<and> branch_listed lk b}"

text \<open>
  \<open>gated\<close>: only commands to this device, and after the first one, the offroad question, only if it was
  answered with 1.
\<close>

definition gated :: "ssh_link \<Rightarrow> string \<Rightarrow> linked \<Rightarrow> linked \<Rightarrow> bool" where
  "gated lk addr s s' \<longleftrightarrow> only_files (fst s) (fst s') \<and>
     (\<exists>cs. snd s' = snd s @ map (Pair addr) cs \<and>
        (cs = [] \<or> hd cs = read_snippet ''IsOffroad'' \<and> set (tl cs) \<subseteq> update_commands lk \<and>
           (tl cs \<noteq> [] \<longrightarrow> (\<exists>out. answered lk (snd s) (read_snippet ''IsOffroad'') out \<and> trim out = ''1''))))"

lemma gated_refl: "gated lk addr s s"
  unfolding gated_def by (intro conjI exI[of _ "[]"]) simp_all

lemma and_then_talks:
  assumes "talks addr W s (fst x)" "\<And>s1 v. x = (s1, Inr v) \<Longrightarrow> talks addr W s1 (fst (f v s1))"
  shows "talks addr W s (fst (and_then x f))"
proof -
  obtain s1 r where x: "x = (s1, r)" by fastforce
  show ?thesis
  proof (cases r)
    case (Inr v)
    then have "talks addr W s1 (fst (f v s1))" using assms(2) x by blast
    then show ?thesis using talks_trans assms(1) x Inr by (simp add: and_then_def)
  qed (use assms(1) x in \<open>simp add: and_then_def\<close>)
qed

lemma done_unit_talks [simp]: "talks addr W s (fst (done_unit x)) = talks addr W s (fst x)"
  by (cases x) (auto simp: done_unit_def and_then_def split: sum.split)

lemma write_update_talks:
  assumes "shell_safe v \<Longrightarrow> param_write_cmd k v \<in> W"
  shows "talks addr W s (fst (write_update_param lk addr k v s))"
proof (cases "list_all (\<lambda>c. is_ascii_alphanumeric c \<or> c \<in> set ''-_./'') v")
  case True
  then have "shell_safe v" by (auto simp: shell_safe_def list_all_iff)
  then show ?thesis using assms link_run_talks by (simp add: write_update_param_def)
qed (simp add: write_update_param_def)

lemma gate:
  assumes "\<And>s1. talks addr (update_commands lk) s1 (fst (f () s1))"
  shows "gated lk addr s (fst (and_then (require_offroad lk addr s) f))"
proof -
  obtain s1 r where r: "require_offroad lk addr s = (s1, r)" by fastforce
  obtain s2 x where x: "link_run lk addr (read_snippet ''IsOffroad'') s = (s2, x)" by fastforce
  have s: "s1 = s2" using r x by (auto simp: require_offroad_def split: sum.splits)
  have t: "talks addr {read_snippet ''IsOffroad''} s s1"
    using link_run_talks[of _ _ addr s lk] x s by (metis fst_conv insertI1)
  have len: "snd s1 = snd s \<or> snd s1 = snd s @ [(addr, read_snippet ''IsOffroad'')]"
    using x s by (auto simp: link_run_def Let_def split: prod.splits if_splits)
  show ?thesis
  proof (cases r)
    case (Inl e)
    then have "fst (and_then (require_offroad lk addr s) f) = s1" using r by (simp add: and_then_def)
    then show ?thesis using t len unfolding gated_def talks_def
      by (auto intro: exI[of _ "[]"] exI[of _ "[read_snippet ''IsOffroad'']"])
  next
    case (Inr u)
    then obtain out where out: "x = Inr out" "trim out = ''1''"
      using r x by (auto simp: require_offroad_def split: sum.splits if_splits)
    note a = link_run_Inr[OF x[unfolded out(1)]]
    have e: "fst (and_then (require_offroad lk addr s) f) = fst (f () s1)" using r Inr by (simp add: and_then_def)
    obtain cs where cs: "snd (fst (f () s1)) = snd s1 @ map (Pair addr) cs" "set cs \<subseteq> update_commands lk"
      using assms[of s1] unfolding talks_def by blast
    have "only_files (fst s) (fst (fst (f () s1)))"
      using t assms[of s1] unfolding talks_def by (blast intro: only_files_trans)
    moreover have "answered lk (snd s) (read_snippet ''IsOffroad'') out" using a(3) unfolding answered_def .
    ultimately show ?thesis unfolding gated_def e
      using a(1) s cs out(2) by (intro conjI exI[of _ "read_snippet ''IsOffroad'' # cs"]) auto
  qed
qed

lemma update_actions_gated:
  "gated lk addr s (fst (update_check lk addr s))" "gated lk addr s (fst (update_download lk addr s))"
  "gated lk addr s (fst (update_install lk addr s))" "gated lk addr s (fst (update_reboot lk addr s))"
  "gated lk addr s (fst (update_set_branch lk addr b s))" "gated lk addr s (fst (set_updates_enabled lk addr on s))"
proof -
  note run = link_run_talks[where addr = addr and lk = lk]
  show "gated lk addr s (fst (update_check lk addr s))"
    unfolding update_check_def by (rule gate) (simp add: run update_commands_def)
  show "gated lk addr s (fst (update_download lk addr s))"
    unfolding update_download_def by (rule gate) (simp add: run update_commands_def)
  show "gated lk addr s (fst (update_reboot lk addr s))"
    unfolding update_reboot_def by (intro gate write_update_talks) (simp add: update_commands_def)
  show "gated lk addr s (fst (set_updates_enabled lk addr on s))"
    unfolding set_updates_enabled_def by (intro gate write_update_talks) (simp add: update_commands_def)
  show "gated lk addr s (fst (update_install lk addr s))"
    unfolding update_install_def
    by (intro gate and_then_talks run) (auto simp: update_commands_def intro: write_update_talks)
  show "gated lk addr s (fst (update_set_branch lk addr b s))"
    unfolding update_set_branch_def
  proof (intro gate and_then_talks run)
    fix s1 s2 listed
    assume l: "link_run lk addr (read_snippet ''UpdaterAvailableBranches'') s1 = (s2, Inr listed)"
    show "talks addr (update_commands lk) s2 (fst (if b \<notin> set (split_on (CHR '','') (trim listed))
        then (s2, Inl (BadRequest ''unknown branch for this device''))
        else and_then (write_update_param lk addr ''UpdaterTargetBranch'' b s2)
          (\<lambda>_ s. done_unit (link_run lk addr (signal_cmd ''SIGUSR1'') s))))"
    proof (cases "b \<in> set (split_on (CHR '','') (trim listed))")
      case True
      have "answered lk (snd s1) (read_snippet ''UpdaterAvailableBranches'') listed"
        using link_run_Inr(3)[OF l] unfolding answered_def .
      then have "branch_listed lk b" using True unfolding branch_listed_def by blast
      then have "talks addr (update_commands lk) s2 (fst (and_then (write_update_param lk addr ''UpdaterTargetBranch'' b s2)
          (\<lambda>_ s. done_unit (link_run lk addr (signal_cmd ''SIGUSR1'') s))))"
        by (intro and_then_talks write_update_talks) (auto simp: update_commands_def run)
      then show ?thesis using True by simp
    qed simp
  qed (simp add: update_commands_def)
qed

section \<open>Properties\<close>

text \<open>
  C11: nothing is done to a car that is on. Whatever the device answers, and however it changes between
  two commands, the first thing an update request sends is the question whether the car is off, and
  anything further is sent only if that very question was answered with 1. What is sent then is one of
  the module's own lines; the only text of the user in it is a branch name, which the device listed
  itself and which has no character that means something to a shell. A caller without rights over the
  device, or an unreachable device, sends nothing.
\<close>

theorem update_needs_offroad:
  assumes run: "post_update lk user dongle req s = (s', r)"
  shows "only_files (fst s) (fst s') \<and>
    (\<exists>addr cs. snd s' = snd s @ map (Pair addr) cs \<and>
      (cs \<noteq> [] \<longrightarrow>
        (\<exists>device. can_manage_device (fst s) user dongle = Inr device \<and> d_online device \<noteq> 0 \<and> addr = d_last_addr device) \<and>
        hd cs = read_snippet ''IsOffroad'') \<and>
      (tl cs \<noteq> [] \<longrightarrow> (\<exists>out. answered lk (snd s) (read_snippet ''IsOffroad'') out \<and> trim out = ''1'')) \<and>
      set (tl cs) \<subseteq> update_commands lk)"
proof (cases "can_manage_device (fst s) user dongle")
  case (Inl e)
  then show ?thesis using run by (auto simp: post_update_def intro: exI[of _ "[]"])
next
  case (Inr device)
  let ?addr = "d_last_addr device"
  show ?thesis
  proof (cases "d_online device = 0 \<or> ?addr = []")
    case True
    then show ?thesis using run Inr by (auto simp: post_update_def intro: exI[of _ "[]"])
  next
    case False
    have "gated lk ?addr s (fst (post_update lk user dongle req s))"
      using Inr False by (simp add: post_update_def Let_def update_actions_gated gated_refl)
    then have "gated lk ?addr s s'" using run by simp
    then show ?thesis using Inr False unfolding gated_def by fastforce
  qed
qed


text \<open>An owner of an online device whose car is on: the request ends after the question.\<close>

definition demo_owner :: user where
  "demo_owner = \<lparr>u_id = 1, u_identity = ''i'', u_username = ''owner'', u_password_hash = [], u_email = None,
     u_is_admin = 0, u_created_at = 0\<rparr>"

definition demo_car_link :: "string \<Rightarrow> ssh_link" where
  "demo_car_link answer =
     \<lparr>lk_os = \<lparr>os_keygen = (\<lambda>k. (Exited True [] [], ''priv'', ''pub'')), os_ssh = (\<lambda>_. TimedOut),
               os_scp = (\<lambda>_. (TimedOut, [])), os_utf8 = Some, os_lossy = id\<rparr>,
      lk_dev = (\<lambda>_ _. Exited True answer [])\<rparr>"

definition demo_car_state :: app_state where
  "demo_car_state = empty_state\<lparr>devices := [(demo_device ''d'')\<lparr>d_owner_id := Some 1\<rparr>]\<rparr>"

lemma demo_car_run:
  "\<exists>st1. link_run (demo_car_link answer) ''100.64.0.7'' c (demo_car_state, sofar) =
     ((st1, sofar @ [(''100.64.0.7'', c)]), Inr answer)"
  by (auto simp: link_run_def link_os_def demo_car_link_def ssh_run_def ensure_keypair_def read_pub_def file_exists_def
      demo_car_state_def empty_state_def fs_get_put key_path_def Let_def split: prod.split option.split)

theorem update_needs_offroad_witness:
  "\<exists>s'. post_update (demo_car_link ''0'') demo_owner ''d'' \<lparr>ua_action = ''reboot'', ua_branch = [], ua_enabled = False\<rparr>
      (demo_car_state, []) = (s', Inl not_offroad) \<and> only_files demo_car_state (fst s')"
proof -
  have dev: "can_manage_device demo_car_state demo_owner ''d'' = Inr ((demo_device ''d'')\<lparr>d_owner_id := Some 1\<rparr>)"
    by (simp add: can_manage_device_def load_device_def demo_car_state_def demo_device_def can_manage_loaded_def demo_owner_def)
  have t: "trim ''0'' = ''0''" by code_simp
  obtain st1 where "link_run (demo_car_link ''0'') ''100.64.0.7'' (read_snippet ''IsOffroad'') (demo_car_state, []) =
      ((st1, [(''100.64.0.7'', read_snippet ''IsOffroad'')]), Inr ''0'')"
    using demo_car_run[of "''0''" _ "[]"] by auto
  then have "post_update (demo_car_link ''0'') demo_owner ''d'' \<lparr>ua_action = ''reboot'', ua_branch = [], ua_enabled = False\<rparr>
      (demo_car_state, []) = ((st1, [(''100.64.0.7'', read_snippet ''IsOffroad'')]), Inl not_offroad)"
    using dev t by (simp add: post_update_def demo_device_def update_reboot_def require_offroad_def and_then_def)
  then show ?thesis using update_needs_offroad by fastforce
qed

end
