(* ===== verification/Json.thy ===== *)
theory Json
  imports Settings
begin

text \<open>
  JSON values (\<open>serde_json::Value\<close>) and the accessors the program uses on them. The text format
  belongs to the \<^verbatim>\<open>serde_json\<close> crate: parsing and printing are the parameter \<open>json_lib\<close>.
  A number is an integer of the \<open>i64\<close>/\<open>u64\<close> range or an \<open>f64\<close>; an object is the list
  of its members, each name once.
\<close>

datatype json =
    JNull
  | JBool bool
  | JInt int
  | JNum f64
  | JStr string
  | JArr "json list"
  | JObj "(string \<times> json) list"

record json_lib =
  js_parse :: "string \<Rightarrow> json option"
  js_print :: "json \<Rightarrow> string"

text \<open>\<open>Value::get\<close> with a name, \<open>as_str\<close>, \<open>as_i64\<close>, \<open>as_array\<close>.\<close>

fun js_get :: "string \<Rightarrow> json \<Rightarrow> json option" where
  "js_get k (JObj m) = map_of m k"
| "js_get k _ = None"

fun js_str :: "json \<Rightarrow> string option" where
  "js_str (JStr s) = Some s"
| "js_str _ = None"

fun js_i64 :: "json \<Rightarrow> int option" where
  "js_i64 (JInt i) = (if is_i64 i then Some i else None)"
| "js_i64 _ = None"

fun js_arr :: "json \<Rightarrow> json list option" where
  "js_arr (JArr xs) = Some xs"
| "js_arr _ = None"

fun js_is_obj :: "json \<Rightarrow> bool" where
  "js_is_obj (JObj _) = True"
| "js_is_obj _ = False"

text \<open>What \<open>serde\<close> reads into an \<open>f64\<close>, a \<open>String\<close>, a \<open>Vec\<close>.\<close>

fun de_f64 :: "json \<Rightarrow> f64 option" where
  "de_f64 (JInt i) = Some (f_of_int i)"
| "de_f64 (JNum x) = Some x"
| "de_f64 _ = None"

fun opt_all :: "('a \<Rightarrow> 'b option) \<Rightarrow> 'a list \<Rightarrow> 'b list option" where
  "opt_all f [] = Some []"
| "opt_all f (x # xs) =
     (case f x of None \<Rightarrow> None | Some y \<Rightarrow> map_option (Cons y) (opt_all f xs))"

definition de_vec :: "(json \<Rightarrow> 'a option) \<Rightarrow> json \<Rightarrow> 'a list option" where
  "de_vec f j = Option.bind (js_arr j) (opt_all f)"

lemma opt_all_map: "(\<And>x. x \<in> set xs \<Longrightarrow> f (g x) = Some x) \<Longrightarrow> opt_all f (map g xs) = Some xs"
  by (induction xs) auto

end
