(* ===== verification/Ignore.thy ===== *)
theory Ignore
  imports Json
begin

text \<open>
  \<^verbatim>\<open>src/ignore.rs\<close>: the ignore rules, a disjunction of conjunctions of comparisons on a
  drive's miles and minutes, kept as JSON in the settings table.
\<close>

definition ignore_key :: string where "ignore_key = ''ignore_rules''"

definition default_rules_json :: string where
  "default_rules_json =
     ''[{'' @ [CHR 0x22] @ ''conditions'' @ [CHR 0x22] @ '':[{'' @ [CHR 0x22] @ ''field'' @ [CHR 0x22] @ '':'' @ [CHR 0x22] @ ''miles'' @
     [CHR 0x22] @ '','' @ [CHR 0x22] @ ''op'' @ [CHR 0x22] @ '':'' @ [CHR 0x22] @ ''lt'' @ [CHR 0x22] @ '','' @ [CHR 0x22] @ ''value'' @
     [CHR 0x22] @ '':0.1}]}]''"

record condition =
  cd_field :: string
  cd_op :: string
  cd_value :: f64

text \<open>A rule is its list of conditions. \<open>serde\<close> reads a struct from an object or from an array.\<close>

type_synonym rule = "condition list"

fun de_condition :: "json \<Rightarrow> condition option" where
  "de_condition (JObj m) =
     (case (Option.bind (map_of m ''field'') js_str, Option.bind (map_of m ''op'') js_str,
            Option.bind (map_of m ''value'') de_f64) of
        (Some f, Some p, Some v) \<Rightarrow> Some \<lparr>cd_field = f, cd_op = p, cd_value = v\<rparr>
      | _ \<Rightarrow> None)"
| "de_condition (JArr [f, p, v]) =
     (case (js_str f, js_str p, de_f64 v) of
        (Some f, Some p, Some v) \<Rightarrow> Some \<lparr>cd_field = f, cd_op = p, cd_value = v\<rparr>
      | _ \<Rightarrow> None)"
| "de_condition _ = None"

fun de_rule :: "json \<Rightarrow> rule option" where
  "de_rule (JObj m) = Option.bind (map_of m ''conditions'') (de_vec de_condition)"
| "de_rule (JArr [c]) = de_vec de_condition c"
| "de_rule _ = None"

definition read_rules :: "json_lib \<Rightarrow> string \<Rightarrow> rule list" where
  "read_rules js s =
     (case Option.bind (js_parse js s) (de_vec de_rule) of Some rs \<Rightarrow> rs | None \<Rightarrow> [])"

definition load_rules :: "json_lib \<Rightarrow> app_state \<Rightarrow> rule list" where
  "load_rules js st =
     (case settings_get st ignore_key of
        Some s \<Rightarrow> read_rules js s
      | None \<Rightarrow> read_rules js default_rules_json)"

definition rules_json :: "json_lib \<Rightarrow> app_state \<Rightarrow> json" where
  "rules_json js st =
     (let s = (case settings_get st ignore_key of Some s \<Rightarrow> s | None \<Rightarrow> default_rules_json)
      in case js_parse js s of Some j \<Rightarrow> j | None \<Rightarrow> JArr [])"

definition known_fields :: "string list" where "known_fields = [''miles'', ''minutes'']"
definition known_ops :: "string list" where "known_ops = [''lt'', ''le'', ''gt'', ''ge'']"

text \<open>The first condition that is not known, in reading order.\<close>

definition condition_error :: "condition \<Rightarrow> app_error option" where
  "condition_error c =
     (if cd_field c \<notin> set known_fields then Some (BadRequest (''bad field: '' @ cd_field c))
      else if cd_op c \<notin> set known_ops then Some (BadRequest (''bad op: '' @ cd_op c))
      else None)"

fun first_error :: "condition list \<Rightarrow> app_error option" where
  "first_error [] = None"
| "first_error (c # cs) = (case condition_error c of Some e \<Rightarrow> Some e | None \<Rightarrow> first_error cs)"

text \<open>\<open>json!\<close> of a float that is not finite is null.\<close>

fun ser_f64 :: "f64 \<Rightarrow> json" where
  "ser_f64 (Fin a) = JNum (Fin a)"
| "ser_f64 _ = JNull"

definition ser_rule :: "rule \<Rightarrow> json" where
  "ser_rule r =
     JObj [(''conditions'', JArr (map (\<lambda>c.
       JObj [(''field'', JStr (cd_field c)), (''op'', JStr (cd_op c)), (''value'', ser_f64 (cd_value c))]) r))]"

definition save_rules :: "json_lib \<Rightarrow> rule list \<Rightarrow> app_state \<Rightarrow> app_state \<times> unit res" where
  "save_rules js rules st =
     (case first_error (concat rules) of
        Some e \<Rightarrow> (st, Inl e)
      | None \<Rightarrow> (settings_set ignore_key (js_print js (JArr (map ser_rule rules))) st, Inr ()))"

definition cond_matches :: "condition \<Rightarrow> f64 \<Rightarrow> f64 \<Rightarrow> bool" where
  "cond_matches c miles minutes =
     (let cmp = (\<lambda>lhs. if cd_op c = ''lt'' then f_lt lhs (cd_value c)
                       else if cd_op c = ''le'' then f_le lhs (cd_value c)
                       else if cd_op c = ''gt'' then f_gt lhs (cd_value c)
                       else if cd_op c = ''ge'' then f_le (cd_value c) lhs
                       else False)
      in if cd_field c = ''miles'' then cmp miles
         else if cd_field c = ''minutes'' then cmp minutes
         else False)"

definition is_ignored :: "rule list \<Rightarrow> f64 \<Rightarrow> f64 \<Rightarrow> bool" where
  "is_ignored rules miles minutes =
     list_ex (\<lambda>r. r \<noteq> [] \<and> list_all (\<lambda>c. cond_matches c miles minutes) r) rules"

section \<open>Properties\<close>

lemma condition_error_None: "condition_error c = None \<longleftrightarrow> cd_field c \<in> set known_fields \<and> cd_op c \<in> set known_ops"
  by (simp add: condition_error_def)

lemma first_error_None: "first_error cs = None \<longleftrightarrow> (\<forall>c \<in> set cs. condition_error c = None)"
  by (induction cs) (auto split: option.split)

lemma de_ser_condition:
  "(\<exists>a. cd_value c = Fin a) \<Longrightarrow>
    de_condition (JObj [(''field'', JStr (cd_field c)), (''op'', JStr (cd_op c)), (''value'', ser_f64 (cd_value c))]) = Some c"
  by auto

lemma de_ser_rule:
  assumes "\<forall>c \<in> set r. \<exists>a. cd_value c = Fin a"
  shows "de_rule (ser_rule r) = Some r"
proof -
  have "opt_all de_condition (map (\<lambda>c. JObj [(''field'', JStr (cd_field c)), (''op'', JStr (cd_op c)),
      (''value'', ser_f64 (cd_value c))]) r) = Some r"
    using assms de_ser_condition by (intro opt_all_map) blast
  then show ?thesis by (simp add: ser_rule_def de_vec_def)
qed

text \<open>
  What \<^verbatim>\<open>serde_json\<close> documents of a printed document that is parsed again: everything comes back,
  but without its feature \<^verbatim>\<open>float_roundtrip\<close>, which this program does not ask for, a float may come
  back as a neighbour. \<open>rd\<close> is what the parser makes of a printed float.
\<close>

fun reread :: "(f64 \<Rightarrow> f64) \<Rightarrow> json \<Rightarrow> json" where
  "reread rd (JNum x) = JNum (rd x)"
| "reread rd (JArr xs) = JArr (map (reread rd) xs)"
| "reread rd (JObj m) = JObj (map (\<lambda>(k, j). (k, reread rd j)) m)"
| "reread rd j = j"

definition reread_rule :: "(f64 \<Rightarrow> f64) \<Rightarrow> rule \<Rightarrow> rule" where
  "reread_rule rd = map (\<lambda>c. c\<lparr>cd_value := rd (cd_value c)\<rparr>)"

lemma reread_ser_rule:
  assumes "\<forall>c \<in> set r. \<exists>a b. cd_value c = Fin a \<and> rd (Fin a) = Fin b"
  shows "reread rd (ser_rule r) = ser_rule (reread_rule rd r)"
proof -
  have "reread rd (ser_f64 (cd_value c)) = ser_f64 (rd (cd_value c))" if "c \<in> set r" for c
    using assms that by fastforce
  then show ?thesis by (simp add: ser_rule_def reread_rule_def)
qed

text \<open>
  C33: the ignore rules an administrator saves are the rules that are applied. Rules with finite
  thresholds and known fields and operators are read back rule by rule and condition by condition as they were
  sent, each threshold as the JSON crate reads back the number it printed (exactly as sent where that
  number survives, which the crate does not promise of every float), and from then on a drive is
  hidden exactly when some rule that is not empty has all these comparisons true; rules with an
  unknown field or operator are refused and the old ones stay.
\<close>

theorem ignore_rules_roundtrip:
  assumes lib: "js_parse js (js_print js (JArr (map ser_rule rules))) = Some (reread rd (JArr (map ser_rule rules)))"
    and finite: "\<forall>r \<in> set rules. \<forall>c \<in> set r. \<exists>a b. cd_value c = Fin a \<and> rd (Fin a) = Fin b"
    and run: "save_rules js rules st = (st', res)"
  shows "if \<forall>r \<in> set rules. \<forall>c \<in> set r. cd_field c \<in> set known_fields \<and> cd_op c \<in> set known_ops
    then res = Inr () \<and> load_rules js st' = map (reread_rule rd) rules \<and>
      ((\<forall>r \<in> set rules. \<forall>c \<in> set r. rd (cd_value c) = cd_value c) \<longrightarrow> load_rules js st' = rules) \<and>
      (\<forall>miles minutes. is_ignored (load_rules js st') miles minutes \<longleftrightarrow>
         (\<exists>r \<in> set rules. r \<noteq> [] \<and> (\<forall>c \<in> set r. cond_matches (c\<lparr>cd_value := rd (cd_value c)\<rparr>) miles minutes)))
    else is_ok res = False \<and> st' = st"
proof (cases "first_error (concat rules)")
  case (Some e)
  then have "\<not> (\<forall>r \<in> set rules. \<forall>c \<in> set r. cd_field c \<in> set known_fields \<and> cd_op c \<in> set known_ops)"
    using first_error_None[of "concat rules"] condition_error_None by auto
  then show ?thesis using run Some by (auto simp: save_rules_def is_ok_def)
next
  case None
  then have ok: "\<forall>r \<in> set rules. \<forall>c \<in> set r. cd_field c \<in> set known_fields \<and> cd_op c \<in> set known_ops"
    using first_error_None[of "concat rules"] condition_error_None by auto
  have s: "st' = settings_set ignore_key (js_print js (JArr (map ser_rule rules))) st" "res = Inr ()"
    using run None by (auto simp: save_rules_def)
  have "reread rd (ser_rule r) = ser_rule (reread_rule rd r)" if "r \<in> set rules" for r
    using finite that by (intro reread_ser_rule) blast
  then have doc: "reread rd (JArr (map ser_rule rules)) = JArr (map ser_rule (map (reread_rule rd) rules))" by simp
  have "\<forall>r \<in> set (map (reread_rule rd) rules). \<forall>c \<in> set r. \<exists>a. cd_value c = Fin a"
    using finite by (fastforce simp: reread_rule_def)
  then have "opt_all de_rule (map ser_rule (map (reread_rule rd) rules)) = Some (map (reread_rule rd) rules)"
    using de_ser_rule by (intro opt_all_map) blast
  then have load: "load_rules js st' = map (reread_rule rd) rules"
    by (simp add: load_rules_def s settings.get_put_same read_rules_def lib doc de_vec_def del: reread.simps)
  moreover have "map (reread_rule rd) rules = rules" if "\<forall>r \<in> set rules. \<forall>c \<in> set r. rd (cd_value c) = cd_value c"
    using that by (intro map_idI) (auto simp: reread_rule_def intro!: map_idI)
  moreover have "is_ignored (load_rules js st') miles minutes \<longleftrightarrow>
      (\<exists>r \<in> set rules. r \<noteq> [] \<and> (\<forall>c \<in> set r. cond_matches (c\<lparr>cd_value := rd (cd_value c)\<rparr>) miles minutes))" for miles minutes
    by (simp add: load is_ignored_def list_ex_iff list_all_iff reread_rule_def)
  ultimately show ?thesis using ok s by simp
qed


text \<open>A library that prints one document and reads its numbers back exactly.\<close>

definition demo_rules :: "rule list" where
  "demo_rules = [[\<lparr>cd_field = ''miles'', cd_op = ''lt'', cd_value = Fin 1\<rparr>]]"

theorem ignore_rules_roundtrip_witness:
  "let js = \<lparr>js_parse = (\<lambda>s. if s = ''doc'' then Some (JArr (map ser_rule demo_rules)) else None), js_print = (\<lambda>_. ''doc'')\<rparr>;
       st' = fst (save_rules js demo_rules empty_state)
   in load_rules js st' = demo_rules"
proof -
  define js where "js = \<lparr>js_parse = (\<lambda>s. if s = ''doc'' then Some (JArr (map ser_rule demo_rules)) else None),
      js_print = (\<lambda>_. ''doc'')\<rparr>"
  have doc: "reread id (JArr (map ser_rule demo_rules)) = JArr (map ser_rule demo_rules)"
    by (simp add: demo_rules_def ser_rule_def)
  then have "js_parse js (js_print js (JArr (map ser_rule demo_rules))) = Some (reread id (JArr (map ser_rule demo_rules)))"
    by (simp add: js_def del: reread.simps)
  moreover have "\<forall>r \<in> set demo_rules. \<forall>c \<in> set r. cd_field c \<in> set known_fields \<and> cd_op c \<in> set known_ops \<and> (\<exists>a. cd_value c = Fin a)"
    by (simp add: demo_rules_def known_fields_def known_ops_def)
  ultimately have "load_rules js (fst (save_rules js demo_rules empty_state)) = demo_rules"
    using ignore_rules_roundtrip[of js demo_rules id empty_state "fst (save_rules js demo_rules empty_state)"
        "snd (save_rules js demo_rules empty_state)"] by (auto simp: reread_rule_def map_idI split: if_splits)
  then show ?thesis by (simp add: js_def)
qed

end
