(* ===== verification/ModelSelect.thy ===== *)
theory ModelSelect
  imports DeviceLink Json Access
begin

text \<open>
  \<^verbatim>\<open>src/model_select.rs\<close> and the model part of \<^verbatim>\<open>src/api/device_params.rs\<close>:
  reading the catalogue of driving models a device offers, and asking it to switch.
\<close>

definition mdl_sep :: string where "mdl_sep = ''__HCmodelsep__''"

text \<open>The folder of a bundle: a member of an object, or of a list of key/value pairs.\<close>

fun overrides_folder :: "json \<Rightarrow> string option" where
  "overrides_folder (JObj m) = Option.bind (map_of m ''folder'') js_str"
| "overrides_folder (JArr xs) =
     Option.bind (find (\<lambda>e. Option.bind (js_get ''key'' e) js_str = Some ''folder'') xs)
       (\<lambda>e. Option.bind (js_get ''value'' e) js_str)"
| "overrides_folder _ = None"

definition as_loose_i64 :: "json \<Rightarrow> int option" where
  "as_loose_i64 v =
     (case js_i64 v of Some i \<Rightarrow> Some i | None \<Rightarrow> Option.bind (js_str v) parse_i64)"

record model_ref =
  mr_index :: "int option"
  mr_name :: string
  mr_short :: string

record model_entry =
  me_index :: "int option"
  me_ref :: string
  me_name :: string
  me_short :: string
  me_folder :: string
  me_gen :: "int option"

record model_view =
  mv_current :: "model_ref option"
  mv_available :: "model_entry list"
  mv_downloading :: "int option"

text \<open>\<open>get(a).or_else(get(b)).and_then(as_str).unwrap_or("")\<close>.\<close>

definition text_member :: "string \<Rightarrow> string \<Rightarrow> json \<Rightarrow> string" where
  "text_member a b v =
     (case Option.bind (case js_get a v of Some x \<Rightarrow> Some x | None \<Rightarrow> js_get b v) js_str of
        Some s \<Rightarrow> s | None \<Rightarrow> [])"

definition current_model :: "json \<Rightarrow> model_ref" where
  "current_model v =
     \<lparr>mr_index = Option.bind (js_get ''index'' v) js_i64,
      mr_name = text_member ''displayName'' ''display_name'' v,
      mr_short = text_member ''internalName'' ''short_name'' v\<rparr>"

definition model_of_bundle :: "json \<Rightarrow> model_entry option" where
  "model_of_bundle b =
     (case Option.bind (js_get ''display_name'' b) js_str of
        None \<Rightarrow> None
      | Some name \<Rightarrow>
          if name = [] then None
          else Some \<lparr>me_index = Option.bind (js_get ''index'' b) js_i64, me_ref = text_member ''ref'' ''ref'' b,
                     me_name = name, me_short = text_member ''short_name'' ''short_name'' b,
                     me_folder = (case Option.bind (js_get ''overrides'' b) overrides_folder of Some f \<Rightarrow> f | None \<Rightarrow> []),
                     me_gen = Option.bind (js_get ''generation'' b) as_loose_i64\<rparr>)"

text \<open>The catalogue is sorted by falling index, missing ones as 0.\<close>

definition nth_part :: "string list \<Rightarrow> nat \<Rightarrow> string option" where
  "nth_part parts i = (if i < length parts then Some (parts ! i) else None)"

definition parse_models :: "json_lib \<Rightarrow> string \<Rightarrow> model_view" where
  "parse_models js out =
     (let parts = split_str ([CHR 0x0A] @ mdl_sep @ [CHR 0x0A]) out;
          active = Option.bind (nth_part parts 0) (\<lambda>s. js_parse js (trim s));
          cache = Option.bind (nth_part parts 1) (\<lambda>s. js_parse js (trim s));
          downloading = Option.bind (nth_part parts 2) (\<lambda>s. if trim s = [] then None else parse_i64 (trim s));
          bundles = (case Option.bind (Option.bind cache (js_get ''bundles'')) js_arr of Some bs \<Rightarrow> bs | None \<Rightarrow> [])
      in \<lparr>mv_current = (case active of Some v \<Rightarrow> if js_is_obj v then Some (current_model v) else None | None \<Rightarrow> None),
          mv_available =
            sort_key (\<lambda>m. - (case me_index m of Some i \<Rightarrow> i | None \<Rightarrow> 0)) (List.map_filter model_of_bundle bundles),
          mv_downloading = downloading\<rparr>)"

definition models_cmd :: string where
  "models_cmd =
     ''for k in ModelManager_ActiveBundle ModelManager_ModelsCache ModelManager_DownloadIndex; '' @
     ''do cat /data/params/d/$k 2>/dev/null; printf '' @ quote @ [CHR 0x5C] @ ''n'' @ mdl_sep @ [CHR 0x5C] @ ''n'' @ quote @ ''; done''"

definition get_models :: "json_lib \<Rightarrow> ssh_link \<Rightarrow> string \<Rightarrow> linked \<Rightarrow> linked \<times> model_view res" where
  "get_models js lk addr s =
     (case link_run lk addr models_cmd s of
        (s1, Inl e) \<Rightarrow> (s1, Inl e)
      | (s1, Inr out) \<Rightarrow> (s1, Inr (parse_models js out)))"

text \<open>The same line as a parameter write, for the one parameter a switch sets.\<close>

definition model_select :: "ssh_link \<Rightarrow> string \<Rightarrow> int \<Rightarrow> linked \<Rightarrow> linked \<times> unit res" where
  "model_select lk addr index s =
     (if index < 0 then (s, Inl (BadRequest ''bad model index''))
      else case link_run lk addr (param_write_cmd ''ModelManager_DownloadIndex'' (show_int index)) s of
             (s1, Inl e) \<Rightarrow> (s1, Inl e)
           | (s1, Inr _) \<Rightarrow> (s1, Inr ()))"

definition use_default_cmd :: string where
  "use_default_cmd = ''flock /data/params/.lock rm -f /data/params/d/ModelManager_ActiveBundle''"

definition model_use_default :: "ssh_link \<Rightarrow> string \<Rightarrow> linked \<Rightarrow> linked \<times> unit res" where
  "model_use_default lk addr s =
     (case link_run lk addr use_default_cmd s of
        (s1, Inl e) \<Rightarrow> (s1, Inl e)
      | (s1, Inr _) \<Rightarrow> (s1, Inr ()))"

section \<open>Endpoints\<close>

definition get_model :: "json_lib \<Rightarrow> ssh_link \<Rightarrow> user \<Rightarrow> string \<Rightarrow> linked \<Rightarrow> linked \<times> model_view option res" where
  "get_model js lk user dongle s =
     (case can_manage_device (fst s) user dongle of
        Inl e \<Rightarrow> (s, Inl e)
      | Inr device \<Rightarrow>
          if d_online device = 0 \<or> d_last_addr device = [] then (s, Inr None)
          else case get_models js lk (d_last_addr device) s of
                 (s1, Inl e) \<Rightarrow> (s1, Inl e)
               | (s1, Inr v) \<Rightarrow> (s1, Inr (Some v)))"

definition set_model :: "ssh_link \<Rightarrow> user \<Rightarrow> string \<Rightarrow> int \<Rightarrow> linked \<Rightarrow> linked \<times> unit res" where
  "set_model lk user dongle index s =
     (case can_manage_device (fst s) user dongle of
        Inl e \<Rightarrow> (s, Inl e)
      | Inr device \<Rightarrow>
          if d_online device = 0 \<or> d_last_addr device = []
          then (s, Inl (BadRequest ''device must be online to change the model''))
          else if index < 0 then model_use_default lk (d_last_addr device) s
          else model_select lk (d_last_addr device) index s)"

end
