(* ===== verification/Manage.thy ===== *)
theory Manage
  imports DevSync Movie Access
begin

text \<open>
  \<^verbatim>\<open>src/api/manage.rs\<close>: downloading a drive's files as one zip and deleting selected types
  of files off the server, off the device, or both. The zip writer (crate \<^verbatim>\<open>zip\<close>) is a
  parameter: the bytes it leaves in the file for the entries, and whether it succeeded; the name of the
  temporary file comes from the \<^verbatim>\<open>uuid\<close> crate.
\<close>

section \<open>Selecting files\<close>

definition type_spec :: "string \<Rightarrow> (string list \<times> string) option" where
  "type_spec t =
     (if t = ''qcamera'' then Some ([''qcamera.ts''], ''qcam_url'')
      else if t = ''fcamera'' then Some ([''fcamera.hevc''], ''fcam_url'')
      else if t = ''dcamera'' then Some ([''dcamera.hevc''], ''dcam_url'')
      else if t = ''ecamera'' then Some ([''ecamera.hevc''], ''ecam_url'')
      else if t = ''qlog'' then Some ([''qlog.zst'', ''qlog.bz2''], ''qlog_url'')
      else if t = ''rlog'' then Some ([''rlog.zst'', ''rlog.bz2''], ''rlog_url'')
      else None)"

definition type_names :: "string \<Rightarrow> string list" where
  "type_names t = (case type_spec t of Some (names, _) \<Rightarrow> names | None \<Rightarrow> [])"

text \<open>\<open>SELECT number ... ORDER BY number\<close>.\<close>

definition segment_numbers :: "app_state \<Rightarrow> string \<Rightarrow> int list" where
  "segment_numbers st fullname =
     sort (map s_number (filter (\<lambda>s. s_route s = fullname) (segments st)))"

text \<open>The first name of the type that is stored, for each segment and type.\<close>

definition collect_files ::
    "app_state \<Rightarrow> string \<Rightarrow> string \<Rightarrow> int list \<Rightarrow> string list \<Rightarrow> (string \<times> string) list" where
  "collect_files st dongle ts segs types =
     concat (map (\<lambda>seg. List.map_filter (\<lambda>t.
        map_option (\<lambda>name. (ts @ ''--'' @ show_int seg @ ''/'' @ name, path_for st (blob_key dongle ts seg name)))
          (find (\<lambda>name. blob_exists st (blob_key dongle ts seg name)) (type_names t))) types) segs)"

section \<open>Download\<close>

text \<open>The answer is the file's contents; the temporary file is gone, unless the writer failed.\<close>

definition download ::
    "((string \<times> string) list \<Rightarrow> string \<times> bool) \<Rightarrow> string \<Rightarrow> user \<Rightarrow> string \<Rightarrow> string \<Rightarrow> app_state \<Rightarrow>
     app_state \<times> (string \<times> string) res" where
  "download zip_write uuid user fullname query st =
     (case split_fullname fullname of
        Inl e \<Rightarrow> (st, Inl e)
      | Inr (dongle, ts) \<Rightarrow>
        (case can_manage_device st user dongle of
           Inl e \<Rightarrow> (st, Inl e)
         | Inr _ \<Rightarrow>
             let types = filter (\<lambda>s. s \<noteq> []) (split_on (CHR '','') query);
                 files = collect_files st dongle ts (segment_numbers st fullname) types;
                 dir = path_join (c_data_dir (cfg st)) ''tmp'';
                 tmp = path_join dir (''dl-'' @ uuid @ ''.zip'')
             in if files = [] then (st, Inl (NotFound ''no matching files''))
                else if \<not> disk_ok st dir \<or> \<not> disk_ok st tmp then (st, Inl (Other ''io error''))
                else
                  let entries = map (\<lambda>(name, p). (name, case fs_get (files_on_disk st) p of Some c \<Rightarrow> c | None \<Rightarrow> [])) files;
                      (bytes, ok) = zip_write entries;
                      st1 = st\<lparr>files_on_disk := fs_put tmp bytes (files_on_disk st)\<rparr>
                  in if \<not> ok then (st1, Inl (Other ''zip error''))
                     else (remove_file tmp st1,
                           Inr (''attachment; filename='' @ [CHR 0x22] @ ts @ ''.zip'' @ [CHR 0x22], bytes))))"

section \<open>Deletion\<close>

definition clear_segment_col :: "string \<Rightarrow> string \<Rightarrow> int \<Rightarrow> string \<Rightarrow> app_state \<Rightarrow> app_state" where
  "clear_segment_col dongle ts seg col st =
     st\<lparr>segments := tbl_update (\<lambda>s. s_canonical_name s = canonical_of dongle ts seg)
          (\<lambda>s. if col = ''qcam_url'' then s\<lparr>s_qcam_url := []\<rparr>
               else if col = ''fcam_url'' then s\<lparr>s_fcam_url := []\<rparr>
               else if col = ''dcam_url'' then s\<lparr>s_dcam_url := []\<rparr>
               else if col = ''ecam_url'' then s\<lparr>s_ecam_url := []\<rparr>
               else if col = ''qlog_url'' then s\<lparr>s_qlog_url := []\<rparr>
               else if col = ''rlog_url'' then s\<lparr>s_rlog_url := []\<rparr>
               else s) (segments st)\<rparr>"

text \<open>State, files removed, bytes freed.\<close>

type_synonym tally = "app_state \<times> int \<times> int"

definition delete_named :: "string \<Rightarrow> tally \<Rightarrow> tally" where
  "delete_named key c =
     (let (st, removed, freed) = c
      in case blob_size st key of
           Some sz \<Rightarrow> (blob_delete key st, removed + 1, freed + sz)
         | None \<Rightarrow> c)"

definition delete_type :: "string \<Rightarrow> string \<Rightarrow> int \<Rightarrow> string \<Rightarrow> tally \<Rightarrow> tally" where
  "delete_type dongle ts seg t c =
     (case type_spec t of
        None \<Rightarrow> c
      | Some (names, col) \<Rightarrow>
          let (st, removed, freed) = fold (\<lambda>name. delete_named (blob_key dongle ts seg name)) names c;
              st1 = clear_segment_col dongle ts seg col st;
              st2 = (if t \<in> {''fcamera'', ''dcamera'', ''ecamera''}
                     then remove_file (cache_path st1 dongle ts seg t) st1 else st1)
          in (st2, removed, freed))"

definition delete_server_files ::
    "string \<Rightarrow> string \<Rightarrow> int list \<Rightarrow> string list \<Rightarrow> app_state \<Rightarrow> tally" where
  "delete_server_files dongle ts segs types st =
     fold (\<lambda>seg c. fold (delete_type dongle ts seg) types c) segs (st, 0, 0)"

text \<open>
  The server side: files, aggregates, movies, and the drive's sync types without the deleted ones, so
  that the next sync does not fetch them again.
\<close>

definition delete_on_server ::
    "string \<Rightarrow> string \<Rightarrow> string \<Rightarrow> int list \<Rightarrow> string list \<Rightarrow> app_state \<Rightarrow> app_state \<times> (int \<times> int) res" where
  "delete_on_server fullname dongle ts segs types st =
     (let (st1, removed, freed) = delete_server_files dongle ts segs types st
      in case recompute_route dongle ts st1 of
           (st2, Inl e) \<Rightarrow> (st2, Inl e)
         | (st2, Inr _) \<Rightarrow>
             let st3 = fold (\<lambda>t s. if t \<in> set movie_cams then movie_delete dongle ts t s else s) types st2;
                 kept = filter (\<lambda>t. t \<notin> set types) (effective_route_types st3 fullname)
             in (set_route_override fullname (Some kept) st3, Inr (removed, freed)))"

record delete_req =
  dr_types :: "string list"
  dr_target :: "string option"

record delete_result =
  dl_removed :: int
  dl_freed :: int
  dl_device_removed :: nat

definition delete_target :: "delete_req \<Rightarrow> (bool \<times> bool) option" where
  "delete_target req =
     (let target = (case dr_target req of Some t \<Rightarrow> t | None \<Rightarrow> ''server'');
          server = (target \<in> {''server'', ''both''}); device = (target \<in> {''device'', ''both''})
      in if \<not> server \<and> \<not> device then None else Some (server, device))"

definition manage_delete ::
    "ssh_os \<Rightarrow> user \<Rightarrow> string \<Rightarrow> delete_req \<Rightarrow> app_state \<Rightarrow> app_state \<times> delete_result res" where
  "manage_delete os user fullname req st =
     (case split_fullname fullname of
        Inl e \<Rightarrow> (st, Inl e)
      | Inr (dongle, ts) \<Rightarrow>
        (case can_manage_device st user dongle of
           Inl e \<Rightarrow> (st, Inl e)
         | Inr _ \<Rightarrow>
           (case delete_target req of
              None \<Rightarrow> (st, Inl (BadRequest ''target must be server, device, or both''))
            | Some (server, on_device) \<Rightarrow>
                let segs = segment_numbers st fullname; types = dr_types req;
                    (st1, dev) =
                      (if \<not> on_device then (st, Inr 0)
                       else case load_device st dongle of
                              None \<Rightarrow> (st, Inl (NotFound ''unknown device''))
                            | Some device \<Rightarrow>
                                let files = concat (map (\<lambda>seg. concat (map (\<lambda>t.
                                              map (Pair seg) (type_names t)) types)) segs);
                                    (s, r, _) = delete_on_device os device ts files st
                                in (s, r))
                in case dev of
                     Inl e \<Rightarrow> (st1, Inl e)
                   | Inr n \<Rightarrow>
                       if \<not> server then (st1, Inr \<lparr>dl_removed = 0, dl_freed = 0, dl_device_removed = n\<rparr>)
                       else case delete_on_server fullname dongle ts segs types st1 of
                              (st2, Inl e) \<Rightarrow> (st2, Inl e)
                            | (st2, Inr (removed, freed)) \<Rightarrow>
                                (st2, Inr \<lparr>dl_removed = removed, dl_freed = freed, dl_device_removed = n\<rparr>))))"


section \<open>Lemmas\<close>

text \<open>What one step of a fold establishes and every step keeps, holds in the end.\<close>

lemma fold_keeps: "(\<And>x s. P s \<Longrightarrow> P (f x s)) \<Longrightarrow> P s \<Longrightarrow> P (fold f xs s)"
  by (induction xs arbitrary: s) auto

lemma fold_establishes:
  "x \<in> set xs \<Longrightarrow> (\<And>s. P (f x s)) \<Longrightarrow> (\<And>y s. P s \<Longrightarrow> P (f y s)) \<Longrightarrow> P (fold f xs s)"
  by (induction xs arbitrary: s) (auto intro: fold_keeps)

text \<open>A deletion never brings a file back.\<close>

definition gone :: "string \<Rightarrow> app_state \<Rightarrow> bool" where
  "gone key st = (blob_get st key = None)"

lemma gone_remove: "gone key st \<Longrightarrow> gone key (remove_file p st)"
  by (simp add: gone_def blob_get_def remove_file_def fs_get_del path_for_def shard_dir_def)

lemma gone_blob_delete: "gone key (blob_delete key st)"
  by (simp add: gone_def blob_get_delete_same)

lemma gone_tables [simp]:
  "gone key (st\<lparr>segments := x\<rparr>) = gone key st" "gone key (st\<lparr>movies_tbl := y\<rparr>) = gone key st"
  "gone key (st\<lparr>routes := z\<rparr>) = gone key st"
  by (simp_all add: gone_def blob_get_def path_for_def shard_dir_def)

lemma delete_named_gone:
  "gone key (fst c) \<Longrightarrow> gone key (fst (delete_named k c))" "gone k (fst (delete_named k c))"
  using gone_remove[of key "fst c"] gone_blob_delete[of k "fst c"]
  by (auto simp: delete_named_def blob_delete_def blob_size_def gone_def split: prod.split option.split prod.splits)

lemma delete_type_gone:
  "gone key (fst c) \<Longrightarrow> gone key (fst (delete_type d ts seg t c))"
  "name \<in> set (type_names t) \<Longrightarrow> gone (blob_key d ts seg name) (fst (delete_type d ts seg t c))"
proof -
  let ?f = "\<lambda>name. delete_named (blob_key d ts seg name)"
  have rest: "gone key (fst (delete_type d ts seg t c))"
    if "gone key (fst (fold ?f (type_names t) c))" for key
    using that gone_remove
    by (auto simp: delete_type_def type_names_def clear_segment_col_def Let_def split: option.split prod.split prod.splits)
  show "gone key (fst c) \<Longrightarrow> gone key (fst (delete_type d ts seg t c))"
    by (intro rest fold_keeps[where P = "\<lambda>c. gone key (fst c)"] delete_named_gone)
  show "name \<in> set (type_names t) \<Longrightarrow> gone (blob_key d ts seg name) (fst (delete_type d ts seg t c))"
    by (intro rest, rule fold_establishes[where P = "\<lambda>c. gone (blob_key d ts seg name) (fst c)"])
      (auto intro: delete_named_gone)
qed

lemma delete_server_files_gone:
  assumes "seg \<in> set segs" "t \<in> set types" "name \<in> set (type_names t)"
  shows "gone (blob_key d ts seg name) (fst (delete_server_files d ts segs types st))"
proof -
  let ?P = "\<lambda>c. gone (blob_key d ts seg name) (fst c)"
  have keep: "?P c \<Longrightarrow> ?P (fold (delete_type d ts y) types c)" for y c
    by (rule fold_keeps[where P = ?P]) (auto intro: delete_type_gone)
  have est: "?P (fold (delete_type d ts seg) types c)" for c
    by (rule fold_establishes[OF assms(2), where P = ?P]) (auto intro: delete_type_gone assms(3))
  show ?thesis unfolding delete_server_files_def
    by (rule fold_establishes[OF assms(1), where P = ?P]) (rule est, rule keep)
qed

lemma override_roundtrip:
  assumes "find_route st fullname = Some r"
  shows "effective_route_types (set_route_override fullname (Some types) st) fullname = clean_types types"
proof -
  have comma: "CHR '','' \<notin> set x" if "x \<in> set (clean_types types)" for x
    using that by (simp add: clean_types_def) (auto simp: optional_types_def)
  have ne: "x \<noteq> []" if "x \<in> set (clean_types types)" for x
    using that by (simp add: clean_types_def) (auto simp: optional_types_def)
  have "split_types (join_with '','' (clean_types types)) = clean_types types"
  proof (cases "clean_types types = []")
    case False
    then show ?thesis using split_on_join[OF False comma] ne by (simp add: split_types_def)
  qed (simp add: split_types_def)
  moreover have "map_option (\<lambda>r. r_sync_types r) (find_route (set_route_override fullname (Some types) st) fullname) =
      Some (Some (join_with '','' (clean_types types)))"
    using assms tbl_find_SomeD[of r_fullname fullname "routes st" r]
    by (simp add: find_route_def set_route_override_def tbl_find_update)
  ultimately show ?thesis
    by (auto simp: effective_route_types_def get_route_override_def split: option.splits)
qed

section \<open>Properties\<close>

text \<open>
  C17: what is deleted on the server stays deleted, except logs. After a deletion of some types none of
  their files of the drive is left, and the drive's sync types no longer want a file of a deleted type,
  so the next sync does not fetch it again. But \<open>qlog\<close> is not one of the types an override can
  name: its files are deleted and are still wanted, so the next sync pulls them again.
\<close>

theorem deleted_types_stay_deleted:
  assumes run: "delete_on_server fullname d ts segs types st = (st', Inr (removed, freed))"
    and route: "find_route st' fullname \<noteq> None"
  shows "(\<forall>seg \<in> set segs. \<forall>t \<in> set types. \<forall>name \<in> set (type_names t). blob_get st' (blob_key d ts seg name) = None) \<and>
    (\<forall>file t. file_type file = Some t \<and> t \<in> set types \<and> \<not> contains_str ''qlog'' file \<longrightarrow>
       \<not> wanted file (effective_route_types st' fullname)) \<and>
    wanted ''qlog.zst'' (effective_route_types st' fullname)"
proof -
  obtain st1 n m where s1: "delete_server_files d ts segs types st = (st1, n, m)" by (cases "delete_server_files d ts segs types st") auto
  obtain st2 where s2: "recompute_route d ts st1 = (st2, Inr ())"
    using run by (auto simp: delete_on_server_def s1 split: prod.splits sum.splits)
  define st3 where "st3 = fold (\<lambda>t s. if t \<in> set movie_cams then movie_delete d ts t s else s) types st2"
  define kept where "kept = filter (\<lambda>t. t \<notin> set types) (effective_route_types st3 fullname)"
  have st': "st' = set_route_override fullname (Some kept) st3"
    using run by (simp add: delete_on_server_def s1 s2 Let_def st3_def kept_def)
  have files: "blob_get st' (blob_key d ts seg name) = None"
    if "seg \<in> set segs" "t \<in> set types" "name \<in> set (type_names t)" for seg t name
  proof -
    let ?k = "blob_key d ts seg name"
    have "gone ?k st1" using delete_server_files_gone[OF that, of d ts st] s1 by simp
    then have "gone ?k st2" using s2 by (auto simp: recompute_route_def Let_def split: if_splits)
    then have "gone ?k st3" unfolding st3_def
      by (intro fold_keeps[where P = "gone ?k"]) (auto simp: movie_delete_def blob_delete_def gone_remove Let_def)
    then show ?thesis unfolding st' by (simp add: set_route_override_def gone_def[symmetric])
  qed
  obtain r where "find_route st3 fullname = Some r"
    using route unfolding st' by (auto simp: set_route_override_def find_route_def tbl_find_update)
  then have eff: "effective_route_types st' fullname = clean_types kept" unfolding st' by (rule override_roundtrip)
  have "\<not> wanted f (effective_route_types st' fullname)"
    if "file_type f = Some t" "t \<in> set types" "\<not> contains_str ''qlog'' f" for f t
    using that unfolding eff wanted_def clean_types_def kept_def by simp
  moreover have "contains_str ''qlog'' ''qlog.zst''" by simp
  ultimately show ?thesis using files unfolding wanted_def by auto
qed


definition demo_route_state :: app_state where
  "demo_route_state = blob_write (blob_key ''d'' ''a'' 0 ''fcamera.hevc'') ''video''
     (empty_state\<lparr>devices := [demo_device ''d''], routes := [new_route ''d|a'' ''d'' 1]\<rparr>)"

theorem deleted_types_stay_deleted_witness:
  "\<exists>st' removed freed. delete_on_server ''d|a'' ''d'' ''a'' [0] [''fcamera''] demo_route_state = (st', Inr (removed, freed)) \<and>
     blob_get st' (blob_key ''d'' ''a'' 0 ''fcamera.hevc'') = None \<and>
     \<not> wanted ''fcamera.hevc'' (effective_route_types st' ''d|a'')"
proof -
  have base: "segments demo_route_state = []" "routes demo_route_state = [new_route ''d|a'' ''d'' 1]"
    by (simp_all add: demo_route_state_def blob_write_def empty_state_def)
  obtain st1 n m where s1: "delete_server_files ''d'' ''a'' [0] [''fcamera''] demo_route_state = (st1, n, m)"
    by (cases "delete_server_files ''d'' ''a'' [0] [''fcamera''] demo_route_state") auto
  then have t: "segments st1 = []" "routes st1 = [new_route ''d|a'' ''d'' 1]"
    using base by (auto simp: delete_server_files_def delete_type_def type_spec_def delete_named_def clear_segment_col_def
        blob_delete_def remove_file_def tbl_update_def Let_def split: option.splits prod.splits)
  then have rec: "recompute_route ''d'' ''a'' st1 = (st1, Inr ())" by (simp add: recompute_route_def route_segments_def)
  define st3 where "st3 = movie_delete ''d'' ''a'' ''fcamera'' st1"
  define x where "x = (n, m)"
  define st' where "st' = set_route_override ''d|a'' (Some (filter (\<lambda>t. t \<notin> set [''fcamera'']) (effective_route_types st3 ''d|a''))) st3"
  have run: "delete_on_server ''d|a'' ''d'' ''a'' [0] [''fcamera''] demo_route_state = (st', Inr x)"
    by (simp add: delete_on_server_def s1 rec st3_def st'_def x_def movie_cams_def Let_def)
  have "routes st3 = [new_route ''d|a'' ''d'' 1]" using t by (simp add: st3_def movie_delete_def blob_delete_def remove_file_def Let_def)
  then have f: "find_route st' ''d|a'' \<noteq> None"
    by (simp add: st'_def set_route_override_def find_route_def tbl_update_def new_route_def)
  have ty: "file_type ''fcamera.hevc'' = Some ''fcamera''" "\<not> contains_str ''qlog'' ''fcamera.hevc''"
      "''fcamera.hevc'' \<in> set (type_names ''fcamera'')"
    by (simp_all add: file_type_def optional_types_def type_names_def type_spec_def)
  have g: "blob_get st' (blob_key ''d'' ''a'' 0 ''fcamera.hevc'') = None \<and> \<not> wanted ''fcamera.hevc'' (effective_route_types st' ''d|a'')"
    using deleted_types_stay_deleted[OF run[unfolded x_def] f] ty by simp
  then show ?thesis using run unfolding x_def by blast
qed

end
