(* ===== verification/Browse.thy ===== *)
theory Browse
  imports Serve Ingest Devices Ignore Subs
begin

text \<open>
  \<^verbatim>\<open>src/api/v1.rs\<close> (the endpoints that are not modelled in Access and Devices): upload URLs,
  device and drive listings, the playlist, statistics over all drives, and the per-drive movie and
  subtitle actions. A drive's columns are answered as they are stored; a view adds what the handler
  derives. \<open>SELECT\<close> without a full order is taken in table order.
\<close>

section \<open>Upload URLs\<close>

definition transform_route_string :: "string \<Rightarrow> string" where
  "transform_route_string path =
     (case strip_prefix ''boot/'' path of
        Some rest \<Rightarrow> ''boot/'' @ rest
      | None \<Rightarrow>
        (case strip_prefix ''crash/'' path of
           Some rest \<Rightarrow> ''crash/'' @ replacen_char (CHR ''_'') ''/'' 2 rest
         | None \<Rightarrow>
           (case rsplit_once_str ''--'' path of
              None \<Rightarrow> path
            | Some (start, name) \<Rightarrow>
              (case rsplit_once_str ''--'' start of
                 None \<Rightarrow> path
               | Some (ts, seg) \<Rightarrow> ts @ ''/'' @ seg @ ''/'' @ name))))"

text \<open>The device check of this file: the token's device alone decides.\<close>

definition require_device_v1 :: "auth \<Rightarrow> string \<Rightarrow> unit res" where
  "require_device_v1 auth dongle =
     (case a_device auth of
        Some d \<Rightarrow> if d_dongle_id d = dongle then Inr () else Inl (Forbidden ''device/dongle mismatch'')
      | None \<Rightarrow> Inl (Unauthorized ''device token required''))"

definition secs_per_day :: int where "secs_per_day = 86400"

definition upload_token :: "jwt_lib \<Rightarrow> app_state \<Rightarrow> string \<Rightarrow> int \<Rightarrow> string res" where
  "upload_token jl st dongle expiry_days =
     issue_hs512_ttl jl st dongle (max 1 (min 30 expiry_days) * secs_per_day)"

definition incoming_url :: "app_state \<Rightarrow> string \<Rightarrow> string \<Rightarrow> string" where
  "incoming_url st dongle path =
     c_public_url (cfg st) @ ''/connectincoming/'' @ dongle @ ''/'' @ transform_route_string path"

definition days_or_one :: "int option \<Rightarrow> int" where
  "days_or_one d = (case d of Some n \<Rightarrow> n | None \<Rightarrow> 1)"

text \<open>The URL, the content type and the authorization header.\<close>

definition upload_url ::
    "jwt_lib \<Rightarrow> app_state \<Rightarrow> string \<Rightarrow> auth \<Rightarrow> string \<Rightarrow> int option \<Rightarrow> (string \<times> string \<times> string) res" where
  "upload_url jl st dongle auth path expiry =
     (case require_device_v1 auth dongle of
        Inl e \<Rightarrow> Inl e
      | Inr _ \<Rightarrow>
        (case upload_token jl st dongle (days_or_one expiry) of
           Inl e \<Rightarrow> Inl e
         | Inr token \<Rightarrow>
             Inr (incoming_url st dongle path, ''application/octet-stream'', ''JWT '' @ token)))"

definition upload_urls ::
    "jwt_lib \<Rightarrow> app_state \<Rightarrow> string \<Rightarrow> auth \<Rightarrow> string list \<Rightarrow> int option \<Rightarrow> string list res" where
  "upload_urls jl st dongle auth paths expiry =
     (case require_device_v1 auth dongle of
        Inl e \<Rightarrow> Inl e
      | Inr _ \<Rightarrow>
        (case upload_token jl st dongle (days_or_one expiry) of
           Inl e \<Rightarrow> Inl e
         | Inr token \<Rightarrow> Inr (map (\<lambda>p. incoming_url st dongle p @ ''?sig='' @ token) paths)))"

section \<open>Devices\<close>

text \<open>\<open>load_device\<close> of this file: an unknown dongle is an error.\<close>

definition load_device_or :: "app_state \<Rightarrow> string \<Rightarrow> device res" where
  "load_device_or st dongle = ok_or (NotFound ''unknown device'') (load_device st dongle)"

definition viewed_device :: "app_state \<Rightarrow> string \<Rightarrow> auth \<Rightarrow> device res" where
  "viewed_device st dongle auth =
     (case load_device_or st dongle of
        Inl e \<Rightarrow> Inl e
      | Inr device \<Rightarrow>
          if \<not> authorize_view st auth device then Inl (Forbidden ''not authorized for device'') else Inr device)"

record device_view =
  dv_device :: device
  dv_athena_host :: string
  dv_ignore_uploads :: bool
  dv_is_paired :: bool
  dv_is_owner :: bool
  dv_online :: bool

definition view_of_device :: "app_state \<Rightarrow> device \<Rightarrow> bool \<Rightarrow> device_view" where
  "view_of_device st d owner =
     \<lparr>dv_device = d, dv_athena_host = c_public_url (cfg st), dv_ignore_uploads = (d_uploads_allowed d = 0),
      dv_is_paired = (d_owner_id d \<noteq> None), dv_is_owner = owner, dv_online = (d_online d \<noteq> 0)\<rparr>"

definition device_info :: "app_state \<Rightarrow> string \<Rightarrow> auth \<Rightarrow> device_view res" where
  "device_info st dongle auth =
     (case viewed_device st dongle auth of
        Inl e \<Rightarrow> Inl e
      | Inr d \<Rightarrow>
          Inr (view_of_device st d (case a_user auth of Some u \<Rightarrow> d_owner_id d = Some (u_id u) | None \<Rightarrow> False)))"

text \<open>Latitude, longitude and time of the last fix; the other members are constant.\<close>

definition device_location :: "app_state \<Rightarrow> string \<Rightarrow> auth \<Rightarrow> (f64 \<times> f64 \<times> int) res" where
  "device_location st dongle auth =
     (case viewed_device st dongle auth of
        Inl e \<Rightarrow> Inl e
      | Inr d \<Rightarrow> Inr (d_last_gps_lat d, d_last_gps_lng d, d_last_gps_time d))"

text \<open>
  \<open>device_stats\<close>: SQLite adds the lengths (its own summation of reals is the parameter
  \<open>sum_reals\<close>) and the whole minutes. Where the integers overflow, the sum is an error or no
  integer any more, and the handler falls back to zeros; so it does without any drive, whose sums are
  zero as well.
\<close>

definition add_minutes :: "route \<Rightarrow> int option \<Rightarrow> int option" where
  "add_minutes r acc =
     (case acc of
        None \<Rightarrow> None
      | Some n \<Rightarrow>
          let d = r_end_time r - r_start_time r;
              mins = (if 0 \<le> d then d div 60000 else - (- d div 60000))
          in if is_i64 d \<and> is_i64 (n + mins) then Some (n + mins) else None)"

definition device_stats ::
    "(f64 list \<Rightarrow> f64) \<Rightarrow> app_state \<Rightarrow> string \<Rightarrow> auth \<Rightarrow> (f64 \<times> nat \<times> int) res" where
  "device_stats sum_reals st dongle auth =
     (case viewed_device st dongle auth of
        Inl e \<Rightarrow> Inl e
      | Inr _ \<Rightarrow>
          let rs = filter (\<lambda>r. r_device_dongle_id r = dongle) (routes st)
          in Inr (case fold add_minutes rs (Some 0) of
                    None \<Rightarrow> (f_zero, 0, 0)
                  | Some mins \<Rightarrow> (if rs = [] then f_zero else sum_reals (map r_length rs), length rs, mins)))"

definition device_json :: "app_state \<Rightarrow> user \<Rightarrow> device \<Rightarrow> device_view" where
  "device_json st user d = view_of_device st d (d_owner_id d = Some (u_id user))"

definition newest_devices :: "device list \<Rightarrow> device list" where
  "newest_devices ds = sort_key (\<lambda>d. - d_created_at d) ds"

definition my_devices :: "app_state \<Rightarrow> user \<Rightarrow> device_view list" where
  "my_devices st user =
     map (device_json st user)
       (newest_devices (filter (\<lambda>d. d_owner_id d = Some (u_id user) \<or> is_shared st (u_id user) (d_dongle_id d)) (devices st)))"

section \<open>Drives over all devices\<close>

text \<open>Parsed drives of the devices the caller owns or shares; all devices for an administrator.\<close>

definition visible_routes :: "app_state \<Rightarrow> user \<Rightarrow> route list" where
  "visible_routes st user =
     filter (\<lambda>r. r_maxqlog r \<noteq> -1 \<and>
        ((\<exists>d \<in> set (devices st). d_dongle_id d = r_device_dongle_id r \<and> (d_owner_id d = Some (u_id user) \<or> u_is_admin user = 1)) \<or>
         is_shared st (u_id user) (r_device_dongle_id r))) (routes st)"

definition meters_per_mile_v1 :: f64 where "meters_per_mile_v1 = rnd (1609344 / 1000)"
definition mph_per_ms :: f64 where "mph_per_ms = f_div (Fin 1) (rnd (44704 / 100000))"

definition minutes_of :: "f64 \<Rightarrow> f64" where "minutes_of secs = f_div secs (Fin 60)"

definition percent_engaged :: "f64 \<Rightarrow> f64 \<Rightarrow> f64" where
  "percent_engaged engaged telem = (if f_gt telem f_zero then f_div (f_mul (Fin 100) engaged) telem else f_zero)"

definition average_speed :: "f64 \<Rightarrow> f64 \<Rightarrow> f64" where
  "average_speed telem secs = (if f_gt secs f_zero then f_mul (f_div telem secs) mph_per_ms else f_zero)"

text \<open>A coordinate of a \<^verbatim>\<open>coords.json\<close>, and every \<open>n\<close>th element from the first on.\<close>

fun de_coord :: "json \<Rightarrow> (f64 \<times> f64) option" where
  "de_coord (JObj m) =
     (case (Option.bind (map_of m ''lat'') de_f64, Option.bind (map_of m ''lng'') de_f64) of
        (Some a, Some b) \<Rightarrow> Some (a, b) | _ \<Rightarrow> None)"
| "de_coord (JArr [a, b]) =
     (case (de_f64 a, de_f64 b) of (Some a, Some b) \<Rightarrow> Some (a, b) | _ \<Rightarrow> None)"
| "de_coord _ = None"

definition step_by :: "nat \<Rightarrow> 'a list \<Rightarrow> 'a list" where
  "step_by n xs = map (\<lambda>i. xs ! i) (filter (\<lambda>i. i mod n = 0) [0..<length xs])"

definition segment_points :: "json_lib \<Rightarrow> app_state \<Rightarrow> string \<Rightarrow> string \<Rightarrow> int \<Rightarrow> (f64 \<times> f64) list" where
  "segment_points js st dongle ts n =
     (case Option.bind (blob_get st (blob_key dongle ts n ''coords.json''))
             (\<lambda>b. Option.bind (js_parse js b) (de_vec de_coord)) of
        None \<Rightarrow> []
      | Some cs \<Rightarrow> map (\<lambda>(lat, lng). (lng, lat)) (filter (\<lambda>(lat, lng). \<not> f_eq lat f_zero \<or> \<not> f_eq lng f_zero) cs))"

definition my_paths :: "json_lib \<Rightarrow> app_state \<Rightarrow> user \<Rightarrow> (string \<times> f64 \<times> (f64 \<times> f64) list) list" where
  "my_paths js st user =
     (let rules = load_rules js st;
          rows = take 300 (sort_key (\<lambda>r. - r_start_time r) (visible_routes st user))
      in List.map_filter (\<lambda>r.
           if is_ignored rules (r_length r) (minutes_of (r_drive_seconds r)) then None
           else case split_once_str ''|'' (r_fullname r) of
                  None \<Rightarrow> None
                | Some (dongle, ts) \<Rightarrow>
                    let pts = concat (map (segment_points js st dongle ts) (r_segment_numbers r));
                        ds = step_by (max (length pts div 150) 1) pts
                    in if 2 \<le> length ds
                       then Some (r_fullname r, percent_engaged (r_engaged_meters r) (r_telem_meters r), ds)
                       else None) rows)"

record driving_totals =
  dt_routes :: int
  dt_miles :: f64
  dt_drive_s :: f64
  dt_engaged_m :: f64
  dt_telem_m :: f64
  dt_max_speed :: f64
  dt_disengage :: int
  dt_hard_brake :: int
  dt_hard_accel :: int

definition add_route :: "rule list \<Rightarrow> route \<Rightarrow> driving_totals \<Rightarrow> driving_totals" where
  "add_route rules r t =
     (if is_ignored rules (r_length r) (minutes_of (r_drive_seconds r)) then t
      else \<lparr>dt_routes = dt_routes t + 1, dt_miles = f_add (dt_miles t) (r_length r),
            dt_drive_s = f_add (dt_drive_s t) (r_drive_seconds r),
            dt_engaged_m = f_add (dt_engaged_m t) (r_engaged_meters r),
            dt_telem_m = f_add (dt_telem_m t) (r_telem_meters r),
            dt_max_speed = f_max (dt_max_speed t) (r_max_speed r),
            dt_disengage = i64_wrap (dt_disengage t + r_disengage_count r),
            dt_hard_brake = i64_wrap (dt_hard_brake t + r_hard_brake_count r),
            dt_hard_accel = i64_wrap (dt_hard_accel t + r_hard_accel_count r)\<rparr>)"

definition driving_totals_of :: "json_lib \<Rightarrow> app_state \<Rightarrow> user \<Rightarrow> driving_totals" where
  "driving_totals_of js st user =
     fold (add_route (load_rules js st)) (visible_routes st user)
       \<lparr>dt_routes = 0, dt_miles = f_zero, dt_drive_s = f_zero, dt_engaged_m = f_zero, dt_telem_m = f_zero,
        dt_max_speed = f_zero, dt_disengage = 0, dt_hard_brake = 0, dt_hard_accel = 0\<rparr>"

text \<open>Totals, hours, engaged miles, autonomy, disengagements per 100 engaged miles, average speed.\<close>

record stats_view =
  sv_totals :: driving_totals
  sv_drive_hours :: f64
  sv_engaged_miles :: f64
  sv_autonomy :: f64
  sv_per_100mi :: f64
  sv_avg_speed :: f64

definition my_stats :: "json_lib \<Rightarrow> app_state \<Rightarrow> user \<Rightarrow> stats_view" where
  "my_stats js st user =
     (let t = driving_totals_of js st user;
          engaged_mi = f_div (dt_engaged_m t) meters_per_mile_v1
      in \<lparr>sv_totals = t, sv_drive_hours = f_div (dt_drive_s t) (Fin 3600), sv_engaged_miles = engaged_mi,
          sv_autonomy = percent_engaged (dt_engaged_m t) (dt_telem_m t),
          sv_per_100mi =
            (if f_gt engaged_mi f_zero then f_mul (f_div (f_of_int (dt_disengage t)) engaged_mi) (Fin 100) else f_zero),
          sv_avg_speed = average_speed (dt_telem_m t) (dt_drive_s t)\<rparr>)"

text \<open>The columns of a drive as they are stored, and what the view derives.\<close>

record route_view =
  rv_route :: route
  rv_is_public :: bool
  rv_autonomy :: f64
  rv_engaged_miles :: f64
  rv_telem_miles :: f64
  rv_avg_speed :: f64
  rv_url :: string
  rv_qcamera_m3u8 :: string
  rv_share_sig :: string
  rv_share_exp :: string

definition route_json :: "route \<Rightarrow> string \<Rightarrow> string \<Rightarrow> route_view" where
  "route_json r public_url sig =
     \<lparr>rv_route = r, rv_is_public = (r_is_public r \<noteq> 0),
      rv_autonomy = percent_engaged (r_engaged_meters r) (r_telem_meters r),
      rv_engaged_miles = f_div (r_engaged_meters r) meters_per_mile_v1,
      rv_telem_miles = f_div (r_telem_meters r) meters_per_mile_v1,
      rv_avg_speed = average_speed (r_telem_meters r) (r_drive_seconds r),
      rv_url = public_url @ ''/connectdata/'' @ replace_char (CHR ''|'') ''/'' (r_fullname r),
      rv_qcamera_m3u8 = public_url @ ''/v1/route/'' @ r_fullname r @ ''/qcamera.m3u8'',
      rv_share_sig = sig, rv_share_exp = ''86400''\<rparr>"

record routes_query =
  rq_start :: "int option"
  rq_end :: "int option"
  rq_limit :: "int option"
  rq_offset :: "int option"
  rq_route_str :: "string option"

definition or_default :: "'a \<Rightarrow> 'a option \<Rightarrow> 'a" where
  "or_default d x = (case x of Some y \<Rightarrow> y | None \<Rightarrow> d)"

definition selected_routes :: "app_state \<Rightarrow> string \<Rightarrow> routes_query \<Rightarrow> route list" where
  "selected_routes st dongle q =
     (let limit = max 1 (min 1000 (or_default 50 (rq_limit q)));
          offset = max 0 (or_default 0 (rq_offset q));
          start = or_default 0 (rq_start q);
          stop = or_default i64_max (rq_end q)
      in case rq_route_str q of
           Some rs \<Rightarrow>
             filter (\<lambda>r. r_fullname r = rs \<and> r_device_dongle_id r = dongle \<and> r_maxqlog r \<noteq> -1) (routes st)
         | None \<Rightarrow>
             take (nat limit) (drop (nat offset) (sort_key (\<lambda>r. - r_start_time r)
               (filter (\<lambda>r. r_device_dongle_id r = dongle \<and> r_maxqlog r \<noteq> -1 \<and>
                  start \<le> r_start_time r \<and> r_start_time r \<le> stop) (routes st)))))"

text \<open>The listing: each drive's view, and whether the rules ignore it.\<close>

definition routes_segments ::
    "jwt_lib \<Rightarrow> json_lib \<Rightarrow> app_state \<Rightarrow> string \<Rightarrow> user \<Rightarrow> routes_query \<Rightarrow> (route_view \<times> bool) list res" where
  "routes_segments jl js st dongle user q =
     (case load_device_or st dongle of
        Inl e \<Rightarrow> Inl e
      | Inr device \<Rightarrow>
          if \<not> can_manage_loaded st user device then Inl (Forbidden ''not authorized for device'')
          else case issue_hs512_ttl jl st (u_identity user) secs_per_day of
                 Inl e \<Rightarrow> Inl e
               | Inr sig \<Rightarrow>
                   let rules = load_rules js st
                   in Inr (map (\<lambda>r. (route_json r (c_public_url (cfg st)) sig,
                            is_ignored rules (r_length r) (minutes_of (r_drive_seconds r))))
                          (selected_routes st dongle q)))"

section \<open>The playlist of a camera\<close>

text \<open>Does the segment have this camera, and what URL plays it?\<close>

definition media_url :: "string \<Rightarrow> string \<Rightarrow> string \<Rightarrow> string \<Rightarrow> segment \<Rightarrow> string option" where
  "media_url public dongle ts camera s =
     (let transcoded = (\<lambda>col cam. if col = [] then None
            else Some (public @ ''/v1/transcode/'' @ dongle @ ''/'' @ ts @ ''/'' @ show_int (s_number s) @ ''/'' @ cam @ ''.ts''))
      in if camera = ''qcamera'' then (if s_qcam_url s = [] then None else Some (s_qcam_url s))
         else if camera = ''fcamera'' then transcoded (s_fcam_url s) ''fcamera''
         else if camera = ''dcamera'' then transcoded (s_dcam_url s) ''dcamera''
         else if camera = ''ecamera'' then transcoded (s_ecam_url s) ''ecamera''
         else if camera = ''audio''
         then (if s_qcam_url s = [] then None
               else Some (public @ ''/v1/audio/'' @ dongle @ ''/'' @ ts @ ''/'' @ show_int (s_number s) @ ''/audio.ts''))
         else None)"

text \<open>A logged-in caller's signature, empty for everyone else.\<close>

definition viewer_sig :: "jwt_lib \<Rightarrow> app_state \<Rightarrow> auth option \<Rightarrow> string res" where
  "viewer_sig jl st auth =
     (case Option.bind auth a_user of
        Some u \<Rightarrow> issue_hs512_ttl jl st (u_identity u) secs_per_day
      | None \<Rightarrow> Inr [])"

definition nl :: string where "nl = [CHR 0x0A]"

definition playlist_head :: string where
  "playlist_head =
     ''#EXTM3U'' @ nl @ ''#EXT-X-VERSION:3'' @ nl @ ''#EXT-X-TARGETDURATION:61'' @ nl @
     ''#EXT-X-MEDIA-SEQUENCE:0'' @ nl @ ''#EXT-X-PLAYLIST-TYPE:VOD'' @ nl"

definition signed_url :: "string \<Rightarrow> string \<Rightarrow> string" where
  "signed_url sig url =
     (if sig = [] then url
      else url @ (if CHR ''?'' \<in> set url then ''&'' else ''?'') @ ''sig='' @ sig)"

definition playlist_entry :: "string \<Rightarrow> segment \<times> string \<Rightarrow> string" where
  "playlist_entry sig p =
     (let (s, url) = p;
          dur = (if f_gt (s_qcam_duration s) f_zero then s_qcam_duration s else Fin 60)
      in ''#EXTINF:'' @ fmt_fixed3 0 dur @ '','' @ show_int (s_number s) @ nl @ signed_url sig url @ nl)"

text \<open>The loop: the playlist so far and the number expected next.\<close>

definition playlist_step :: "string \<Rightarrow> segment \<times> string \<Rightarrow> string \<times> int \<Rightarrow> string \<times> int" where
  "playlist_step sig p c =
     (let (m, expected) = c; (s, url) = p
      in (m @ (if s_number s \<noteq> expected then ''#EXT-X-DISCONTINUITY'' @ nl else []) @ playlist_entry sig p,
          i64_wrap (s_number s + 1)))"

definition playlist :: "string \<Rightarrow> (segment \<times> string) list \<Rightarrow> string" where
  "playlist sig playable =
     (let expected = (case playable of p # _ \<Rightarrow> s_number (fst p) | [] \<Rightarrow> 0);
          (m, _) = fold (playlist_step sig) playable (playlist_head, expected)
      in m @ ''#EXT-X-ENDLIST'' @ nl)"

definition playable_segments :: "app_state \<Rightarrow> string \<Rightarrow> string \<Rightarrow> string \<Rightarrow> string \<Rightarrow> (segment \<times> string) list" where
  "playable_segments st fullname dongle ts camera =
     List.map_filter (\<lambda>s. map_option (Pair s) (media_url (c_public_url (cfg st)) dongle ts camera s))
       (sort_key s_number (filter (\<lambda>s. s_route s = fullname) (segments st)))"

text \<open>The content type and the playlist.\<close>

definition camera_m3u8 ::
    "jwt_lib \<Rightarrow> app_state \<Rightarrow> string \<Rightarrow> string \<Rightarrow> auth option \<Rightarrow> (string \<times> string) res" where
  "camera_m3u8 jl st fullname cam auth =
     (case strip_suffix ''.m3u8'' cam of
        None \<Rightarrow> Inl (BadRequest ''expected <camera>.m3u8'')
      | Some camera \<Rightarrow>
        (case split_fullname fullname of
           Inl e \<Rightarrow> Inl e
         | Inr (dongle, ts) \<Rightarrow>
           (case allow_route_view st fullname dongle auth of
              Inl e \<Rightarrow> Inl e
            | Inr _ \<Rightarrow>
              (case viewer_sig jl st auth of
                 Inl e \<Rightarrow> Inl e
               | Inr sig \<Rightarrow>
                   Inr (''application/vnd.apple.mpegurl'', playlist sig (playable_segments st fullname dongle ts camera))))))"

section \<open>One drive\<close>

text \<open>Movies left in the sweep, the one encoding now, the ones waiting.\<close>

definition movie_queue_view :: "movie_queue \<Rightarrow> nat \<times> string option \<times> string list" where
  "movie_queue_view q = (let (building, current) = mq_stats q in (building, current, snd (mq_detail q)))"

definition route_info :: "jwt_lib \<Rightarrow> app_state \<Rightarrow> string \<Rightarrow> auth option \<Rightarrow> route_view res" where
  "route_info jl st fullname auth =
     (case split_fullname fullname of
        Inl e \<Rightarrow> Inl e
      | Inr (dongle, _) \<Rightarrow>
        (case allow_route_view st fullname dongle auth of
           Inl e \<Rightarrow> Inl e
         | Inr _ \<Rightarrow>
           (case find (\<lambda>r. r_fullname r = fullname \<and> r_maxqlog r \<noteq> -1) (routes st) of
              None \<Rightarrow> Inl (NotFound ''unknown route'')
            | Some row \<Rightarrow>
              (case viewer_sig jl st auth of
                 Inl e \<Rightarrow> Inl e
               | Inr sig \<Rightarrow> Inr (route_json row (c_public_url (cfg st)) sig)))))"

definition route_movies :: "app_state \<Rightarrow> string \<Rightarrow> auth option \<Rightarrow> movie_info list res" where
  "route_movies st fullname auth =
     (case split_fullname fullname of
        Inl e \<Rightarrow> Inl e
      | Inr (dongle, _) \<Rightarrow>
        (case allow_route_view st fullname dongle auth of
           Inl e \<Rightarrow> Inl e
         | Inr _ \<Rightarrow> Inr (movie_status st fullname)))"

definition route_subs :: "app_state \<Rightarrow> string \<Rightarrow> auth option \<Rightarrow> subs_info res" where
  "route_subs st fullname auth =
     (case split_fullname fullname of
        Inl e \<Rightarrow> Inl e
      | Inr (dongle, _) \<Rightarrow>
        (case allow_route_view st fullname dongle auth of
           Inl e \<Rightarrow> Inl e
         | Inr _ \<Rightarrow> Inr (subs_status st fullname)))"

text \<open>What both actions check first: the route's name and the caller's right to its device.\<close>

definition managed_route :: "app_state \<Rightarrow> user \<Rightarrow> string \<Rightarrow> (string \<times> string) res" where
  "managed_route st user fullname =
     (case split_fullname fullname of
        Inl e \<Rightarrow> Inl e
      | Inr (dongle, ts) \<Rightarrow>
        (case load_device_or st dongle of
           Inl e \<Rightarrow> Inl e
         | Inr device \<Rightarrow>
             if \<not> can_manage_loaded st user device then Inl (Forbidden ''not authorized for device'')
             else Inr (dongle, ts)))"

definition route_subs_action :: "user \<Rightarrow> string \<Rightarrow> string \<Rightarrow> app_state \<Rightarrow> app_state \<times> unit res" where
  "route_subs_action user fullname action st =
     (case managed_route st user fullname of
        Inl e \<Rightarrow> (st, Inl e)
      | Inr (dongle, ts) \<Rightarrow>
          if action = ''delete'' then (subs_disable dongle ts st, Inr ())
          else if action = ''rebuild'' then (subs_delete dongle ts st, Inr ())
          else (st, Inl (BadRequest ''action must be delete or rebuild'')))"

text \<open>A rebuild also wakes the movie builder.\<close>

definition route_movie_action :: "user \<Rightarrow> string \<Rightarrow> string \<Rightarrow> string \<Rightarrow> app_state \<Rightarrow> app_state \<times> unit res" where
  "route_movie_action user fullname cam action st =
     (case managed_route st user fullname of
        Inl e \<Rightarrow> (st, Inl e)
      | Inr (dongle, ts) \<Rightarrow>
          let camera = (case strip_suffix ''.mp4'' cam of Some s \<Rightarrow> s | None \<Rightarrow> cam)
          in if camera \<notin> set movie_cams then (st, Inl (BadRequest ''unknown camera''))
             else if action = ''delete'' then (movie_disable dongle ts camera st, Inr ())
             else if action = ''rebuild'' then (request_sweep (movie_delete dongle ts camera st), Inr ())
             else (st, Inl (BadRequest ''action must be delete or rebuild'')))"

section \<open>Lemmas\<close>

lemma strip_prefix_None: "\<not> prefix p s \<Longrightarrow> strip_prefix p s = None"
  by (simp add: strip_prefix_def)

text \<open>A path of a driving file becomes the path the upload route takes apart.\<close>

lemma transform_segment:
  assumes "no_dd name" "0 \<le> n" "\<not> prefix ''boot/'' p" "\<not> prefix ''crash/'' p" "p = ts @ ''--'' @ show_int n @ ''--'' @ name"
  shows "transform_route_string p = ts @ ''/'' @ show_int n @ ''/'' @ name"
  using assms(3,4) rsplit_dd_append[OF assms(1), of "ts @ ''--'' @ show_int n"] rsplit_dd_append[OF no_dd_show_int[OF assms(2)], of ts]
  by (simp add: transform_route_string_def strip_prefix_None assms(5))

text \<open>
  The playlist without the loop's state: entry \<open>i\<close> starts with a discontinuity when its number does
  not follow the number before it.
\<close>

definition gap_before :: "(segment \<times> string) list \<Rightarrow> nat \<Rightarrow> bool" where
  "gap_before ps i \<longleftrightarrow> 0 < i \<and> s_number (fst (ps ! i)) \<noteq> i64_wrap (s_number (fst (ps ! (i - 1))) + 1)"

definition entry_text :: "string \<Rightarrow> (segment \<times> string) list \<Rightarrow> nat \<Rightarrow> string" where
  "entry_text sig ps i =
     (if gap_before ps i then ''#EXT-X-DISCONTINUITY'' @ nl else []) @ playlist_entry sig (ps ! i)"

lemma playlist_step_pair:
  "playlist_step sig p (m, expected) =
    (m @ (if s_number (fst p) \<noteq> expected then ''#EXT-X-DISCONTINUITY'' @ nl else []) @ playlist_entry sig p,
     i64_wrap (s_number (fst p) + 1))"
  by (cases p) (simp add: playlist_step_def)

lemma entry_text_first: "entry_text sig ps 0 = playlist_entry sig (ps ! 0)"
  by (simp add: entry_text_def gap_before_def)

lemma entry_text_later:
  "0 < k \<Longrightarrow> entry_text sig ps k =
    (if s_number (fst (ps ! k)) \<noteq> i64_wrap (s_number (fst (ps ! (k - 1))) + 1) then ''#EXT-X-DISCONTINUITY'' @ nl else []) @
    playlist_entry sig (ps ! k)"
  by (simp add: entry_text_def gap_before_def)

lemma playlist_loop:
  assumes "k \<le> length ps" "ps \<noteq> []"
  shows "fold (playlist_step sig) (take k ps) (m, s_number (fst (hd ps))) =
    (m @ concat (map (entry_text sig ps) [0..<k]),
     if k = 0 then s_number (fst (hd ps)) else i64_wrap (s_number (fst (ps ! (k - 1))) + 1))"
  using assms
proof (induction k)
  case (Suc k)
  have t: "take (Suc k) ps = take k ps @ [ps ! k]" using Suc.prems by (simp add: take_Suc_conv_app_nth)
  have h: "hd ps = ps ! 0" using Suc.prems by (simp add: hd_conv_nth)
  have IH: "fold (playlist_step sig) (take k ps) (m, s_number (fst (hd ps))) =
    (m @ concat (map (entry_text sig ps) [0..<k]),
     if k = 0 then s_number (fst (hd ps)) else i64_wrap (s_number (fst (ps ! (k - 1))) + 1))"
    using Suc.IH Suc.prems by simp
  show ?case
  proof (cases "k = 0")
    case True
    have "take (Suc 0) ps = [ps ! 0]" using t True by simp
    then show ?thesis using True h by (simp add: playlist_step_pair entry_text_first)
  next
    case False
    then show ?thesis using IH by (simp add: t playlist_step_pair entry_text_later)
  qed
qed simp

section \<open>Properties\<close>

text \<open>
  The playlist's loop is the plain description: header, one entry per segment that has the camera
  in the order of the segment numbers, and a discontinuity mark exactly before the entries whose number
  does not follow the one before; never before the first.
\<close>

lemma playlist_exact:
  "playlist sig ps = playlist_head @ concat (map (entry_text sig ps) [0..<length ps]) @ ''#EXT-X-ENDLIST'' @ nl"
proof (cases ps)
  case (Cons p qs)
  then show ?thesis using playlist_loop[of "length ps" ps sig playlist_head] by (simp add: playlist_def)
qed (simp add: playlist_def)

text \<open>A token of this device, good for one to thirty days.\<close>

definition device_token :: "jwt_lib \<Rightarrow> app_state \<Rightarrow> string \<Rightarrow> string \<Rightarrow> bool" where
  "device_token jl st dongle token \<longleftrightarrow>
     (\<exists>cl. token = jl_encode jl HS512 cl (c_jwt_secret_b64 (cfg st)) \<and> cl_identity cl = dongle \<and>
        now_millis st div 1000 + 86400 \<le> cl_exp cl \<and> cl_exp cl \<le> now_millis st div 1000 + 30 * 86400)"

lemma upload_token_ok: "upload_token jl st dongle days = Inr token \<Longrightarrow> device_token jl st dongle token"
  by (auto simp: device_token_def upload_token_def issue_hs512_ttl_def secs_per_day_def Let_def split: if_splits intro!: exI)

lemma require_device_v1_Inr: "require_device_v1 auth dongle = Inr u \<longleftrightarrow> (\<exists>d. a_device auth = Some d \<and> d_dongle_id d = dongle)"
  by (auto simp: require_device_v1_def split: option.splits if_splits)

lemma replacen_char_append: "c \<notin> set a \<Longrightarrow> replacen_char c r (Suc n) (a @ c # b) = a @ r @ replacen_char c r n b"
  by (induction a) auto

lemma replacen_zero [simp]: "replacen_char c r 0 s = s"
  by (cases s) simp_all

lemma segment_path_kind:
  assumes "CHR ''/'' \<notin> set ts"
  shows "\<not> prefix ''boot/'' (ts @ ''--'' @ x)" "\<not> prefix ''crash/'' (ts @ ''--'' @ x)"
proof -
  have no: "\<not> prefix (w @ ''/'') (ts @ ''--'' @ x)" if "CHR ''-'' \<notin> set w" for w
  proof
    assume "prefix (w @ ''/'') (ts @ ''--'' @ x)"
    then consider "prefix (w @ ''/'') ts" | u where "w @ ''/'' = ts @ u" "prefix u (''--'' @ x)"
      unfolding prefix_append by blast
    then show False
    proof cases
      case 1
      then show False using assms set_mono_prefix[OF 1] by auto
    next
      case 2
      have "u \<noteq> []" using 2(1) assms by auto
      then have "CHR ''-'' \<in> set u" using 2(2) by (cases u) (simp_all add: prefix_Cons)
      then have "CHR ''-'' \<in> set (w @ ''/'')" unfolding 2(1) by simp
      then show False using that by simp
    qed
  qed
  show "\<not> prefix ''boot/'' (ts @ ''--'' @ x)" "\<not> prefix ''crash/'' (ts @ ''--'' @ x)"
    using no[of "''boot''"] no[of "''crash''"] by simp_all
qed

text \<open>
  C27: upload URLs, one or many, for whatever paths, are only given to the device itself. They carry a
  token that is the device's own and lives between one and thirty days, whatever lifetime was asked
  for (in the header of a single URL, in the query of each of many), and they name that device and the file
  as the upload routes read it back: the drive, segment and name of a segment file (of a number from 0 on
  and a name without a double dash), a boot log, and the three parts of a crash log's name.
\<close>

theorem upload_url_grants:
  "(upload_url jl st dongle auth path expiry = Inr (url, ct, authorization) \<longrightarrow>
     (\<exists>d token. a_device auth = Some d \<and> d_dongle_id d = dongle \<and> device_token jl st dongle token \<and>
        authorization = ''JWT '' @ token \<and> url = incoming_url st dongle path)) \<and>
   (upload_urls jl st dongle auth paths expiry = Inr urls \<longrightarrow>
     (\<exists>d token. a_device auth = Some d \<and> d_dongle_id d = dongle \<and> device_token jl st dongle token \<and>
        urls = map (\<lambda>p. incoming_url st dongle p @ ''?sig='' @ token) paths)) \<and>
   (CHR ''/'' \<notin> set ts \<and> no_dd name \<and> 0 \<le> n \<longrightarrow>
     incoming_url st dongle (ts @ ''--'' @ show_int n @ ''--'' @ name) =
       c_public_url (cfg st) @ ''/connectincoming/'' @ dongle @ ''/'' @ ts @ ''/'' @ show_int n @ ''/'' @ name) \<and>
   incoming_url st dongle (''boot/'' @ name) = c_public_url (cfg st) @ ''/connectincoming/'' @ dongle @ ''/boot/'' @ name \<and>
   (CHR ''_'' \<notin> set i \<union> set c \<longrightarrow>
     incoming_url st dongle (''crash/'' @ i @ ''_'' @ c @ ''_'' @ name) =
       c_public_url (cfg st) @ ''/connectincoming/'' @ dongle @ ''/crash/'' @ i @ ''/'' @ c @ ''/'' @ name)"
proof (intro conjI impI)
  assume "upload_url jl st dongle auth path expiry = Inr (url, ct, authorization)"
  then show "\<exists>d token. a_device auth = Some d \<and> d_dongle_id d = dongle \<and> device_token jl st dongle token \<and>
      authorization = ''JWT '' @ token \<and> url = incoming_url st dongle path"
    using require_device_v1_Inr upload_token_ok by (auto simp: upload_url_def split: sum.splits)
next
  assume "upload_urls jl st dongle auth paths expiry = Inr urls"
  then show "\<exists>d token. a_device auth = Some d \<and> d_dongle_id d = dongle \<and> device_token jl st dongle token \<and>
      urls = map (\<lambda>p. incoming_url st dongle p @ ''?sig='' @ token) paths"
    using require_device_v1_Inr[of auth dongle] upload_token_ok[of jl st dongle "days_or_one expiry"]
    by (fastforce simp: upload_urls_def split: sum.splits)
next
  assume seg: "CHR ''/'' \<notin> set ts \<and> no_dd name \<and> 0 \<le> n"
  show "incoming_url st dongle (ts @ ''--'' @ show_int n @ ''--'' @ name) =
      c_public_url (cfg st) @ ''/connectincoming/'' @ dongle @ ''/'' @ ts @ ''/'' @ show_int n @ ''/'' @ name"
    using transform_segment[OF _ _ segment_path_kind, of name n ts] seg by (simp add: incoming_url_def)
next
  show "incoming_url st dongle (''boot/'' @ name) = c_public_url (cfg st) @ ''/connectincoming/'' @ dongle @ ''/boot/'' @ name"
    using strip_prefix_append[of "''boot/''" name] by (simp add: incoming_url_def transform_route_string_def)
next
  assume ic: "CHR ''_'' \<notin> set i \<union> set c"
  let ?rest = "i @ ''_'' @ c @ ''_'' @ name"
  have "strip_prefix ''boot/'' (''crash/'' @ ?rest) = None" by (simp add: strip_prefix_def)
  moreover have "replacen_char (CHR ''_'') ''/'' 2 ?rest = i @ ''/'' @ c @ ''/'' @ name"
    using ic by (simp add: numeral_2_eq_2 replacen_char_append)
  ultimately show "incoming_url st dongle (''crash/'' @ ?rest) =
      c_public_url (cfg st) @ ''/connectincoming/'' @ dongle @ ''/crash/'' @ i @ ''/'' @ c @ ''/'' @ name"
    using strip_prefix_append[of "''crash/''" ?rest] by (simp add: incoming_url_def transform_route_string_def)
qed

theorem upload_url_grants_witness:
  "\<exists>url ct authorization urls. upload_url demo_jwt empty_state ''ab12'' (demo_auth ''ab12'') ''2024--0--qlog'' (Some 90) =
      Inr (url, ct, authorization) \<and>
    url = c_public_url (cfg empty_state) @ ''/connectincoming/ab12/2024/'' @ show_int 0 @ ''/qlog'' \<and>
    upload_urls demo_jwt empty_state ''ab12'' (demo_auth ''ab12'') [''boot/x''] None = Inr urls \<and>
    incoming_url empty_state ''ab12'' ''crash/1_abc_rlog'' = c_public_url (cfg empty_state) @ ''/connectincoming/ab12/crash/1/abc/rlog''"
proof -
  let ?p = "''2024'' @ ''--'' @ show_int 0 @ ''--'' @ ''qlog''"
  have p: "''2024--0--qlog'' = ?p" by code_simp
  have nd: "no_dd ''qlog''" by (rule no_dd_no_dash) simp
  obtain url ct authorization where u: "upload_url demo_jwt empty_state ''ab12'' (demo_auth ''ab12'') ?p (Some 90) = Inr (url, ct, authorization)"
    by (simp add: upload_url_def require_device_v1_def demo_auth_def demo_device_def upload_token_def issue_hs512_ttl_def
        demo_jwt_def Let_def)
  obtain urls where us: "upload_urls demo_jwt empty_state ''ab12'' (demo_auth ''ab12'') [''boot/x''] None = Inr urls"
    by (simp add: upload_urls_def require_device_v1_def demo_auth_def demo_device_def upload_token_def issue_hs512_ttl_def
        demo_jwt_def Let_def)
  have "incoming_url empty_state ''ab12'' ?p = c_public_url (cfg empty_state) @ ''/connectincoming/ab12/2024/'' @ show_int 0 @ ''/qlog''"
    using upload_url_grants[where ts = "''2024''" and name = "''qlog''" and n = 0 and dongle = "''ab12''" and st = empty_state] nd by simp
  moreover have "url = incoming_url empty_state ''ab12'' ?p"
    using upload_url_grants[where dongle = "''ab12''" and st = empty_state and path = ?p] u by blast
  moreover have "incoming_url empty_state ''ab12'' ''crash/1_abc_rlog'' = c_public_url (cfg empty_state) @ ''/connectincoming/ab12/crash/1/abc/rlog''"
    using upload_url_grants[where i = "''1''" and c = "''abc''" and name = "''rlog''" and dongle = "''ab12''" and st = empty_state] by simp
  ultimately show ?thesis unfolding p using u us by blast
qed

text \<open>A device's token, and an administrator who opens somebody else's drive.\<close>

definition demo_admin :: user where
  "demo_admin = \<lparr>u_id = 9, u_identity = ''ad'', u_username = ''ad'', u_password_hash = ''h'', u_email = None,
     u_is_admin = 1, u_created_at = 0\<rparr>"

definition demo_admin_auth :: auth where
  "demo_admin_auth = \<lparr>a_claims = \<lparr>cl_identity = ''ad'', cl_nbf = None, cl_iat = None, cl_exp = 0\<rparr>,
     a_user = Some demo_admin, a_device = None\<rparr>"

end
