(* ===== verification/SettingsApi.thy ===== *)
theory SettingsApi
  imports Users Retention Ignore
begin

text \<open>
  \<^verbatim>\<open>src/api/settings.rs\<close>: the administrator's endpoints over the settings the features keep.
  An answer is the record of the values it carries; log lines are not state. A body's optional field is
  an option, an explicit null of \<open>atten_db\<close> is \<open>Some None\<close>.
\<close>

section \<open>The administrator check\<close>

definition admin_only :: "user \<Rightarrow> (app_state \<Rightarrow> app_state \<times> 'a res) \<Rightarrow> app_state \<Rightarrow> app_state \<times> 'a res" where
  "admin_only user act st =
     (if u_is_admin user = 0 then (st, Inl (Forbidden ''admin required'')) else act st)"

text \<open>A field that is absent changes nothing; the steps run in order until one fails.\<close>

definition when_some :: "'a option \<Rightarrow> ('a \<Rightarrow> app_state \<Rightarrow> app_state \<times> unit res) \<Rightarrow> app_state \<Rightarrow> app_state \<times> unit res" where
  "when_some x act st = (case x of Some y \<Rightarrow> act y st | None \<Rightarrow> (st, Inr ()))"

definition stored :: "('a \<Rightarrow> app_state \<Rightarrow> app_state) \<Rightarrow> 'a \<Rightarrow> app_state \<Rightarrow> app_state \<times> unit res" where
  "stored act y st = (act y st, Inr ())"

fun run_steps :: "(app_state \<Rightarrow> app_state \<times> unit res) list \<Rightarrow> app_state \<Rightarrow> app_state \<times> unit res" where
  "run_steps [] st = (st, Inr ())"
| "run_steps (f # fs) st = (case f st of (st1, Inl e) \<Rightarrow> (st1, Inl e) | (st1, Inr _) \<Rightarrow> run_steps fs st1)"

definition then_answer ::
    "(app_state \<Rightarrow> app_state \<times> unit res) list \<Rightarrow> (app_state \<Rightarrow> 'a) \<Rightarrow> app_state \<Rightarrow> app_state \<times> 'a res" where
  "then_answer steps view st =
     (case run_steps steps st of (st1, Inl e) \<Rightarrow> (st1, Inl e) | (st1, Inr _) \<Rightarrow> (st1, Inr (view st1)))"

section \<open>Retention\<close>

record retention_view =
  rt_policy :: policy
  rt_storage_bytes :: int
  rt_storage_gb :: f64
  rt_route_count :: nat

definition get_retention :: "user \<Rightarrow> app_state \<Rightarrow> app_state \<times> retention_view res" where
  "get_retention user =
     admin_only user (\<lambda>st.
       let bytes = storage_bytes st
       in (st, Inr \<lparr>rt_policy = load_policy st, rt_storage_bytes = bytes,
                   rt_storage_gb = f_div (f_of_int bytes) (Fin 1000000000), rt_route_count = length (routes st)\<rparr>))"

definition set_retention :: "user \<Rightarrow> policy \<Rightarrow> app_state \<Rightarrow> app_state \<times> policy res" where
  "set_retention user p =
     admin_only user (\<lambda>st.
       if rp_days p < 0 \<or> rp_max_drives p < 0 \<or> f_lt (rp_max_gb p) f_zero
       then (st, Inl (BadRequest ''values must be >= 0''))
       else (save_policy p st, Inr p))"

text \<open>\<open>None\<close>: the pass does not come to an end.\<close>

definition run_retention :: "user \<Rightarrow> app_state \<Rightarrow> (app_state \<times> nat res) option" where
  "run_retention user st =
     (if u_is_admin user = 0 then Some (st, Inl (Forbidden ''admin required''))
      else map_option (\<lambda>(st1, n). (st1, Inr n)) (run_once st))"

section \<open>Synchronisation\<close>

record sync_view =
  sy_enabled :: bool
  sy_interval :: int
  sy_types :: "string list"
  sy_all_types :: "string list"
  sy_autoprune :: bool

record sync_settings =
  sq_enabled :: "bool option"
  sq_interval :: "int option"
  sq_types :: "string list option"
  sq_autoprune :: "bool option"

definition sync_view_of :: "app_state \<Rightarrow> sync_view" where
  "sync_view_of st =
     \<lparr>sy_enabled = sync_is_enabled st, sy_interval = sync_get_interval st, sy_types = get_sync_types st,
      sy_all_types = all_types, sy_autoprune = is_autoprune_enabled st\<rparr>"

definition get_sync :: "user \<Rightarrow> app_state \<Rightarrow> app_state \<times> sync_view res" where
  "get_sync user = admin_only user (\<lambda>st. (st, Inr (sync_view_of st)))"

definition set_sync :: "user \<Rightarrow> sync_settings \<Rightarrow> app_state \<Rightarrow> app_state \<times> sync_view res" where
  "set_sync user req =
     admin_only user (then_answer
       [when_some (sq_enabled req) (stored sync_set_enabled),
        when_some (sq_interval req) (stored sync_set_interval),
        when_some (sq_types req) (stored set_sync_types),
        when_some (sq_autoprune req) (stored set_autoprune)] sync_view_of)"

section \<open>Movies\<close>

record encoding_settings =
  eq_enabled :: "bool option"
  eq_interval :: "int option"
  eq_scale :: "string option"
  eq_crf :: "int option"
  eq_preset :: "string option"

definition encoding_view_of :: "app_state \<Rightarrow> encode_settings \<times> bool \<times> int" where
  "encoding_view_of st = (encode_settings_json st, movie_enabled st, movie_interval st)"

definition get_encoding :: "user \<Rightarrow> app_state \<Rightarrow> app_state \<times> (encode_settings \<times> bool \<times> int) res" where
  "get_encoding user = admin_only user (\<lambda>st. (st, Inr (encoding_view_of st)))"

definition set_encoding ::
    "user \<Rightarrow> encoding_settings \<Rightarrow> app_state \<Rightarrow> app_state \<times> (encode_settings \<times> bool \<times> int) res" where
  "set_encoding user req =
     admin_only user (then_answer
       [when_some (eq_enabled req) (stored set_movie_enabled),
        when_some (eq_interval req) (stored set_movie_interval),
        (\<lambda>st. if eq_scale req \<noteq> None \<or> eq_crf req \<noteq> None \<or> eq_preset req \<noteq> None
              then set_encode_settings (eq_scale req) (eq_crf req) (eq_preset req) st
              else (st, Inr ()))] encoding_view_of)"

definition reencode_movies :: "user \<Rightarrow> app_state \<Rightarrow> app_state \<times> nat res" where
  "reencode_movies user = admin_only user (\<lambda>st. let (st1, cleared) = reencode_all st in (st1, Inr cleared))"

section \<open>Subtitles and speech enhancement\<close>

text \<open>The settings and the number of drives with a transcript.\<close>

definition get_subs :: "http_os \<Rightarrow> user \<Rightarrow> app_state \<Rightarrow> app_state \<times> (subs_settings \<times> nat) res" where
  "get_subs ht user =
     admin_only user (\<lambda>st.
       (st, Inr (subs_settings_json ht st, length (filter (\<lambda>r. sb_bytes r > 0) (subs_tbl st)))))"

record subs_req =
  su_enabled :: "bool option"
  su_whisper_url :: "string option"

definition set_subs :: "http_os \<Rightarrow> user \<Rightarrow> subs_req \<Rightarrow> app_state \<Rightarrow> app_state \<times> subs_settings res" where
  "set_subs ht user req =
     admin_only user (then_answer
       [when_some (su_whisper_url req) set_whisper_url,
        when_some (su_enabled req) (stored set_subs_enabled)] (subs_settings_json ht))"

definition rebuild_subs :: "user \<Rightarrow> app_state \<Rightarrow> app_state \<times> nat res" where
  "rebuild_subs user = admin_only user (\<lambda>st. let (st1, cleared) = rebuild_all st in (st1, Inr cleared))"

definition get_denoise :: "http_os \<Rightarrow> user \<Rightarrow> app_state \<Rightarrow> app_state \<times> denoise_settings res" where
  "get_denoise ht user = admin_only user (\<lambda>st. (st, Inr (denoise_settings_json ht st)))"

record denoise_req =
  dq_enabled :: "bool option"
  dq_url :: "string option"
  dq_atten :: "f64 option option"

definition set_denoise :: "http_os \<Rightarrow> user \<Rightarrow> denoise_req \<Rightarrow> app_state \<Rightarrow> app_state \<times> denoise_settings res" where
  "set_denoise ht user req =
     admin_only user (then_answer
       [when_some (dq_url req) set_denoise_url,
        when_some (dq_enabled req) (stored set_denoise_enabled),
        when_some (dq_atten req) set_atten_db] (denoise_settings_json ht))"

section \<open>Ignore rules\<close>

definition get_ignore_rules :: "json_lib \<Rightarrow> user \<Rightarrow> app_state \<Rightarrow> app_state \<times> json res" where
  "get_ignore_rules js user = admin_only user (\<lambda>st. (st, Inr (rules_json js st)))"

definition set_ignore_rules :: "json_lib \<Rightarrow> user \<Rightarrow> rule list \<Rightarrow> app_state \<Rightarrow> app_state \<times> json res" where
  "set_ignore_rules js user rules = admin_only user (then_answer [save_rules js rules] (rules_json js))"

section \<open>Camera calibration\<close>

definition calib_key :: string where "calib_key = ''cam_calib''"

definition dec1 :: "rat \<Rightarrow> json" where "dec1 x = JNum (rnd x)"

definition calib_profile :: "bool \<Rightarrow> rat \<Rightarrow> rat \<Rightarrow> rat \<Rightarrow> json" where
  "calib_profile fisheye f cx cy =
     JObj [(''fisheye'', JBool fisheye), (''fx'', dec1 f), (''fy'', dec1 f), (''cx'', dec1 cx), (''cy'', dec1 cy),
           (''pitch'', dec1 0), (''yaw'', dec1 0), (''roll'', dec1 0), (''h'', dec1 (12 / 10))]"

definition calib_defaults :: "(string \<times> json) list" where
  "calib_defaults =
     [(''qcamera'', calib_profile False (7224 / 10) 263 165),
      (''fcamera'', calib_profile False 1846 672 380),
      (''ecamera'', calib_profile True 395 672 380)]"

text \<open>\<open>Map::insert\<close>: the member with this name, once.\<close>

fun obj_insert :: "string \<Rightarrow> json \<Rightarrow> (string \<times> json) list \<Rightarrow> (string \<times> json) list" where
  "obj_insert k v [] = [(k, v)]"
| "obj_insert k v ((k', w) # m) = (if k' = k then (k, v) # m else (k', w) # obj_insert k v m)"

text \<open>One camera of the saved value: its entry (an empty object if new) takes over the saved members.\<close>

definition merge_camera :: "string \<times> json \<Rightarrow> (string \<times> json) list \<Rightarrow> (string \<times> json) list" where
  "merge_camera p out =
     (let (cam, cv) = p;
          entry = (case map_of out cam of Some e \<Rightarrow> e | None \<Rightarrow> JObj [])
      in obj_insert cam
           (case (entry, cv) of
              (JObj eo, JObj so) \<Rightarrow> JObj (fold (\<lambda>(k, v). obj_insert k v) so eo)
            | _ \<Rightarrow> entry) out)"

text \<open>The flat format of old versions is the profile of the road camera.\<close>

definition per_camera :: "json \<Rightarrow> json" where
  "per_camera saved =
     (if js_get ''qcamera'' saved = None \<and> js_get ''fx'' saved \<noteq> None then JObj [(''qcamera'', saved)] else saved)"

definition cam_calib :: "json_lib \<Rightarrow> app_state \<Rightarrow> json" where
  "cam_calib js st =
     JObj (case Option.bind (settings_get st calib_key) (js_parse js) of
             None \<Rightarrow> calib_defaults
           | Some saved \<Rightarrow>
               (case per_camera saved of
                  JObj s \<Rightarrow> fold merge_camera s calib_defaults
                | _ \<Rightarrow> calib_defaults))"

definition get_cam_calib :: "json_lib \<Rightarrow> user \<Rightarrow> app_state \<Rightarrow> app_state \<times> json res" where
  "get_cam_calib js user = admin_only user (\<lambda>st. (st, Inr (cam_calib js st)))"

definition set_cam_calib :: "json_lib \<Rightarrow> user \<Rightarrow> json \<Rightarrow> app_state \<Rightarrow> app_state \<times> unit res" where
  "set_cam_calib js user body =
     admin_only user (\<lambda>st. (settings_set calib_key (js_print js body) st, Inr ()))"

section \<open>Transcoding device\<close>

definition get_transcode :: "media_os \<Rightarrow> user \<Rightarrow> app_state \<Rightarrow> app_state \<times> (string \<times> device_option list) res" where
  "get_transcode os user =
     admin_only user (\<lambda>st.
       (st, Inr (case current_device st of Some d \<Rightarrow> d | None \<Rightarrow> ''cpu'', probe_devices os)))"

definition set_transcode :: "media_os \<Rightarrow> user \<Rightarrow> string \<Rightarrow> app_state \<Rightarrow> app_state \<times> string res" where
  "set_transcode os user dev =
     admin_only user (\<lambda>st.
       if dev = ''cpu'' \<or> list_ex (\<lambda>d. do_value d = dev) (probe_devices os)
       then (set_device dev st, Inr dev)
       else (st, Inl (BadRequest ''unknown transcode device'')))"

section \<open>Lemmas\<close>

lemma map_of_obj_insert: "map_of (obj_insert k v m) = (map_of m)(k \<mapsto> v)"
  by (induction m) auto

lemma map_of_insert_all:
  "distinct (map fst so) \<Longrightarrow>
    map_of (fold (\<lambda>(k, v). obj_insert k v) so eo) k = (case map_of so k of Some v \<Rightarrow> Some v | None \<Rightarrow> map_of eo k)"
proof (induction so arbitrary: eo)
  case (Cons p so)
  obtain a b where p: "p = (a, b)" by fastforce
  have "map_of so a = None" using Cons.prems by (simp add: p map_of_eq_None_iff)
  then show ?case using Cons by (simp add: p map_of_obj_insert split: option.split)
qed simp

text \<open>What a camera's entry becomes, and that the other cameras do not disturb it.\<close>

definition merged :: "json \<Rightarrow> json \<Rightarrow> json" where
  "merged entry cv =
     (case (entry, cv) of (JObj eo, JObj so) \<Rightarrow> JObj (fold (\<lambda>(k, v). obj_insert k v) so eo) | _ \<Rightarrow> entry)"

definition entry_of :: "(string \<times> json) list \<Rightarrow> string \<Rightarrow> json" where
  "entry_of out cam = (case map_of out cam of Some e \<Rightarrow> e | None \<Rightarrow> JObj [])"

lemma map_of_merge_camera:
  "map_of (merge_camera (cam, cv) out) = (map_of out)(cam \<mapsto> merged (entry_of out cam) cv)"
  by (simp add: merge_camera_def merged_def entry_of_def map_of_obj_insert Let_def)

lemma map_of_merge_all:
  "distinct (map fst cams) \<Longrightarrow> map_of cams cam = Some cv \<Longrightarrow>
    map_of (fold merge_camera cams out) cam = Some (merged (entry_of out cam) cv)"
proof (induction cams arbitrary: out)
  case (Cons p cams)
  obtain c v where p: "p = (c, v)" by fastforce
  have skip: "map_of (fold merge_camera ps o1) cam = map_of o1 cam" if "cam \<notin> fst ` set ps" for ps o1
    using that
  proof (induction ps arbitrary: o1)
    case (Cons q qs)
    then show ?case by (cases q) (simp add: map_of_merge_camera)
  qed simp
  show ?case
  proof (cases "c = cam")
    case True
    then show ?thesis using Cons.prems skip[of cams "merge_camera p out"] by (simp add: p map_of_merge_camera)
  next
    case False
    then have "entry_of (merge_camera p out) cam = entry_of out cam"
      by (simp add: p entry_of_def map_of_merge_camera)
    then show ?thesis using Cons False by (simp add: p)
  qed
qed simp

lemma default_is_object: "\<exists>m. entry_of calib_defaults cam = JObj m \<and> map_of m k = Option.bind (map_of calib_defaults cam) (js_get k)"
  by (auto simp: entry_of_def calib_defaults_def calib_profile_def)

lemma not_admin: "u_is_admin user = 0 \<Longrightarrow> admin_only user act st = (st, Inl (Forbidden ''admin required''))"
  by (simp add: admin_only_def)

text \<open>Updates that touch the settings table only, and how they compose.\<close>

definition confined :: "app_state \<Rightarrow> app_state \<Rightarrow> bool" where
  "confined st st' \<longleftrightarrow> st' = st\<lparr>settings_tbl := settings_tbl st'\<rparr>"

named_theorems confined

lemma confinedI: "confined st (st\<lparr>settings_tbl := t\<rparr>)"
  by (simp add: confined_def)

lemma confinedE:
  assumes "confined st st'"
  obtains t where "st' = st\<lparr>settings_tbl := t\<rparr>"
  using assms unfolding confined_def by blast

lemma confined_refl [confined]: "confined st st"
  by (simp add: confined_def)

lemma confined_trans: "confined a b \<Longrightarrow> confined b c \<Longrightarrow> confined a c"
  by (elim confinedE) (simp add: confinedI)

lemma confined_set [confined]: "confined st (settings_set k v st)"
  by (simp add: confined_def settings_set_def)

lemma confined_admin_only [confined]:
  "(\<And>s. confined s (fst (act s))) \<Longrightarrow> confined st (fst (admin_only user act st))"
  by (simp add: admin_only_def confined_refl)

lemma confined_when_some [confined]:
  "(\<And>y. confined st (fst (act y st))) \<Longrightarrow> confined st (fst (when_some x act st))"
  by (simp add: when_some_def confined_refl split: option.split)

lemma confined_stored [confined]: "confined st (act y st) \<Longrightarrow> confined st (fst (stored act y st))"
  by (simp add: stored_def)

lemma confined_run_steps:
  "(\<And>f s. f \<in> set fs \<Longrightarrow> confined s (fst (f s))) \<Longrightarrow> confined st (fst (run_steps fs st))"
proof (induction fs arbitrary: st)
  case (Cons f fs)
  obtain s1 r where f: "f st = (s1, r)" by fastforce
  then have 1: "confined st s1" using Cons.prems[of f st] by simp
  have "confined s1 (fst (run_steps fs s1))" using Cons by simp
  then show ?case using f 1 confined_trans by (cases r) auto
qed (simp add: confined_refl)

lemma confined_answer [confined]:
  "(\<And>f s. f \<in> set fs \<Longrightarrow> confined s (fst (f s))) \<Longrightarrow> confined st (fst (then_answer fs view st))"
  using confined_run_steps[of fs st] by (auto simp: then_answer_def split: prod.split sum.split)

lemma confined_encode [confined]: "confined st (fst (set_encode_settings a b c st))"
  by (auto simp: set_encode_settings_def Let_def settings_set_def intro!: confinedI confined_refl split: option.split)

lemma confined_url [confined]: "confined st (fst (set_url_setting k m u st))"
  by (simp add: set_url_setting_def Let_def confined_refl confined_set)

lemma confined_atten [confined]: "confined st (fst (set_atten_db v st))"
  by (simp add: set_atten_db_def confined_refl confined_set split: option.split)

lemma confined_rules [confined]: "confined st (fst (save_rules js rules st))"
  by (simp add: save_rules_def confined_refl confined_set split: option.split)

lemma confined_policy [confined]: "confined st (save_policy p st)"
  unfolding save_policy_def by (rule confined_trans[OF confined_trans[OF confined_set confined_set] confined_set])

lemmas settings_setters =
  sync_set_enabled_def sync_set_interval_def set_sync_types_def set_autoprune_def set_movie_enabled_def
  set_movie_interval_def set_subs_enabled_def set_whisper_url_def set_denoise_enabled_def set_denoise_url_def
  set_device_def set_setting_flag_def set_setting_u64_def

section \<open>Properties\<close>

text \<open>
  C25: what an administrator's settings request can change. Each of the eight POST endpoints of this
  file that store a setting changes the settings table and nothing else, whatever the body holds and
  whether it is accepted or not; and for a caller who is no administrator it changes nothing at all and
  answers 403. In particular these requests are among the interferences a movie build tolerates.
\<close>

theorem settings_requests_confined:
  assumes "act \<in> {\<lambda>s. map_prod id (map_sum id (\<lambda>_. ())) (set_retention user p s),
    \<lambda>s. map_prod id (map_sum id (\<lambda>_. ())) (set_sync user sync s),
    \<lambda>s. map_prod id (map_sum id (\<lambda>_. ())) (set_encoding user enc s),
    \<lambda>s. map_prod id (map_sum id (\<lambda>_. ())) (set_subs ht user subs s),
    \<lambda>s. map_prod id (map_sum id (\<lambda>_. ())) (set_denoise ht user dn s),
    \<lambda>s. map_prod id (map_sum id (\<lambda>_. ())) (set_ignore_rules js user rules s),
    set_cam_calib js user body,
    \<lambda>s. map_prod id (map_sum id (\<lambda>_. ())) (set_transcode os user dev s)}"
  shows "settings_only (fst \<circ> act) \<and> (u_is_admin user = 0 \<longrightarrow> act st = (st, Inl (Forbidden ''admin required'')))"
proof
  have "confined s (fst (act s))" for s
    using assms by (auto simp: set_retention_def set_sync_def set_encoding_def set_subs_def set_denoise_def
        set_ignore_rules_def set_cam_calib_def set_transcode_def settings_setters intro!: confined)
  then show "settings_only (fst \<circ> act)" by (simp add: settings_only_def confined_def)
  show "u_is_admin user = 0 \<longrightarrow> act st = (st, Inl (Forbidden ''admin required''))"
    using assms by (auto simp: set_retention_def set_sync_def set_encoding_def set_subs_def set_denoise_def
        set_ignore_rules_def set_cam_calib_def set_transcode_def not_admin)
qed

text \<open>
  The saved calibration is what is read back: a member of a saved camera has its saved value, every
  other member of a known camera keeps its default.
\<close>

theorem cam_calib_saved:
  assumes js: "js_parse js (js_print js (JObj cams)) = Some (JObj cams)" and admin: "u_is_admin user \<noteq> 0"
    and cams: "distinct (map fst cams)" "map_of cams cam = Some (JObj so)" "distinct (map fst so)"
    and current: "map_of cams ''qcamera'' \<noteq> None \<or> map_of cams ''fx'' = None"
  shows "\<exists>m. js_get cam (cam_calib js (fst (set_cam_calib js user (JObj cams) st))) = Some (JObj m) \<and>
    (\<forall>k. map_of m k = (case map_of so k of Some v \<Rightarrow> Some v
                       | None \<Rightarrow> Option.bind (map_of calib_defaults cam) (js_get k)))"
proof -
  let ?st = "fst (set_cam_calib js user (JObj cams) st)"
  have "settings_get ?st calib_key = Some (js_print js (JObj cams))"
    using admin by (simp add: set_cam_calib_def admin_only_def settings.get_put_same)
  moreover have "per_camera (JObj cams) = JObj cams" using current by (auto simp: per_camera_def)
  ultimately have "cam_calib js ?st = JObj (fold merge_camera cams calib_defaults)" using js by (simp add: cam_calib_def)
  then have "js_get cam (cam_calib js ?st) = Some (merged (entry_of calib_defaults cam) (JObj so))"
    using map_of_merge_all[OF cams(1,2)] by simp
  moreover obtain eo where eo: "entry_of calib_defaults cam = JObj eo" using default_is_object by blast
  moreover have "map_of eo k = Option.bind (map_of calib_defaults cam) (js_get k)" for k
    using default_is_object[of cam k] eo by auto
  ultimately show ?thesis using map_of_insert_all[OF cams(3), of eo] by (simp add: merged_def split: option.split)
qed

definition demo_printer :: json_lib where
  "demo_printer = \<lparr>js_parse = (\<lambda>_. None), js_print = (\<lambda>_. ''null'')\<rparr>"

theorem settings_requests_confined_witness:
  "settings_only (fst \<circ> set_cam_calib demo_printer (demo_user 1 ''bob'' 0) JNull) \<and>
   set_cam_calib demo_printer (demo_user 1 ''bob'' 0) JNull empty_state = (empty_state, Inl (Forbidden ''admin required''))"
proof -
  have "settings_only (fst \<circ> set_cam_calib demo_printer (demo_user 1 ''bob'' 0) JNull) \<and> (u_is_admin (demo_user 1 ''bob'' 0) = 0 \<longrightarrow>
      set_cam_calib demo_printer (demo_user 1 ''bob'' 0) JNull empty_state = (empty_state, Inl (Forbidden ''admin required'')))"
    by (rule settings_requests_confined) blast
  then show ?thesis by (simp add: demo_user_def)
qed

end
