(* ===== verification/SyncApi.thy ===== *)
theory SyncApi
  imports Manage
begin

text \<open>
  \<^verbatim>\<open>src/api/devsync.rs\<close>: the manual sync, the queue shown to the user, and the per-drive choice
  of what to sync. The manual sync answers at once; the scan it starts is the job \<open>sync_now_job\<close>.
\<close>

record sync_query =
  sn_full :: "string option"
  sn_route :: "string option"
  sn_types :: "string option"

text \<open>Precedence: the listed types, else all of them if asked for, else what each drive is set to.\<close>

definition requested_types :: "sync_query \<Rightarrow> string list option" where
  "requested_types q =
     (let fullres = (sn_full q \<in> {Some ''1'', Some ''true'', Some ''yes''})
      in case Option.bind (sn_types q) (\<lambda>s. if trim s = [] then None else Some (trim s)) of
           Some listed \<Rightarrow> Some (filter (\<lambda>t. t \<in> set (map trim (split_on (CHR '','') listed))) all_types)
         | None \<Rightarrow> if fullres then Some all_types else None)"

text \<open>The device, the options of the scan, and whether the device is online.\<close>

definition sync_now :: "user \<Rightarrow> string \<Rightarrow> sync_query \<Rightarrow> app_state \<Rightarrow> (device \<times> sync_opts \<times> bool) res" where
  "sync_now user dongle q st =
     (case can_manage_device st user dongle of
        Inl e \<Rightarrow> Inl e
      | Inr device \<Rightarrow>
          Inr (device, \<lparr>so_types = requested_types q, so_route = sn_route q\<rparr>, d_online device = 1))"

definition sync_now_job :: "ssh_os \<Rightarrow> device \<times> sync_opts \<times> bool \<Rightarrow> app_state \<Rightarrow> app_state" where
  "sync_now_job os r st = (let (device, opts, _) = r in fst (scan os device opts st))"

text \<open>Drives, files, and the items with their file names.\<close>

definition queue_view :: "app_state \<Rightarrow> nat \<times> nat \<times> (string \<times> string \<times> bool) list" where
  "queue_view st = (let (drives, files) = queue_stats (queue st) in (drives, files, queue_detail (queue st)))"

definition authorize_route :: "app_state \<Rightarrow> user \<Rightarrow> string \<Rightarrow> unit res" where
  "authorize_route st user fullname =
     (case split_fullname fullname of
        Inl e \<Rightarrow> Inl e
      | Inr (dongle, _) \<Rightarrow>
        (case can_manage_device st user dongle of Inl e \<Rightarrow> Inl e | Inr _ \<Rightarrow> Inr ()))"

record route_sync_view =
  rs_types :: "string list"
  rs_overridden :: bool
  rs_default :: "string list"
  rs_all_types :: "string list"

definition route_sync_view_of :: "app_state \<Rightarrow> string \<Rightarrow> route_sync_view" where
  "route_sync_view_of st fullname =
     (let over = get_route_override st fullname; dflt = get_sync_types st
      in \<lparr>rs_types = (case over of Some t \<Rightarrow> t | None \<Rightarrow> dflt), rs_overridden = (over \<noteq> None),
          rs_default = dflt, rs_all_types = all_types\<rparr>)"

definition get_route_sync :: "user \<Rightarrow> string \<Rightarrow> app_state \<Rightarrow> route_sync_view res" where
  "get_route_sync user fullname st =
     (case authorize_route st user fullname of
        Inl e \<Rightarrow> Inl e
      | Inr _ \<Rightarrow> Inr (route_sync_view_of st fullname))"

record route_sync_req =
  ry_types :: "string list option"
  ry_reset :: "bool option"

text \<open>The answer carries the first two members of the view.\<close>

definition set_route_sync ::
    "user \<Rightarrow> string \<Rightarrow> route_sync_req \<Rightarrow> app_state \<Rightarrow> app_state \<times> (string list \<times> bool) res" where
  "set_route_sync user fullname req st =
     (case authorize_route st user fullname of
        Inl e \<Rightarrow> (st, Inl e)
      | Inr _ \<Rightarrow>
          let st1 = (if ry_reset req = Some True then set_route_override fullname None st
                     else case ry_types req of
                            Some types \<Rightarrow> set_route_override fullname (Some types) st
                          | None \<Rightarrow> st);
              v = route_sync_view_of st1 fullname
          in (st1, Inr (rs_types v, rs_overridden v)))"

section \<open>Properties\<close>

lemma enqueue_subset:
  "queue_ok q \<Longrightarrow> set (sq_pending (fst (enqueue items q))) \<subseteq> set (sq_pending q) \<union> set items"
  using enqueue_fold[of q items 0] by (auto simp: enqueue_def)

lemma scan_line_SomeD:
  assumes "scan_line device opts reg global ov line = Some it"
  shows "q_dongle it = d_dongle_id device \<and> (\<forall>ts. so_route opts = Some ts \<longrightarrow> q_ts it = ts) \<and>
    (\<forall>types. so_types opts = Some types \<longrightarrow> wanted (q_file it) types)"
proof -
  obtain ts seg name where p: "parse_remote_path (trim line) = Some (ts, seg, name)"
    using assms by (cases "parse_remote_path (trim line)") (auto simp: scan_line_def)
  show ?thesis using assms by (auto simp: scan_line_def p Let_def split: if_splits)
qed

text \<open>
  A manual sync stays in its scope: what the scan it starts adds to the queue are files of
  the one device the caller may manage, of the one drive asked for, and of the types asked for (or the
  logs, which are always synced).
\<close>

theorem manual_sync_scope:
  assumes now: "sync_now user dongle q st = Inr r" and ok: "queue_ok (queue st')"
    and it: "it \<in> set (sq_pending (queue (sync_now_job os r st'))) - set (sq_pending (queue st'))"
  shows "can_manage_device st user dongle = Inr (fst r) \<and> q_dongle it = dongle \<and>
    (\<forall>ts. sn_route q = Some ts \<longrightarrow> q_ts it = ts) \<and>
    (\<forall>types. requested_types q = Some types \<longrightarrow> wanted (q_file it) types)"
proof -
  obtain dev where dev: "can_manage_device st user dongle = Inr dev"
    "r = (dev, \<lparr>so_types = requested_types q, so_route = sn_route q\<rparr>, d_online dev = 1)"
    using now by (auto simp: sync_now_def split: sum.splits)
  let ?opts = "\<lparr>so_types = requested_types q, so_route = sn_route q\<rparr>"
  have name: "d_dongle_id dev = dongle" using can_manage_device_InrD[OF dev(1)] load_device_SomeD by blast
  obtain s1 listing where "it \<in> set (scan_items s1 dev ?opts listing)"
  proof -
    obtain s1 x where run: "ssh_run os (d_last_addr dev) listing_cmd st' = (s1, x)" by fastforce
    have q: "queue s1 = queue st'"
      using ssh_run_files(1)[of st' os "d_last_addr dev" listing_cmd] only_files_frame(12)[of st' s1] run by simp
    show thesis
    proof (cases x)
      case (Inl e)
      then show ?thesis using it run q by (simp add: sync_now_job_def dev(2) scan_def split: if_splits)
    next
      case (Inr listing)
      then have "it \<in> set (scan_items s1 dev ?opts listing)"
        using it run q enqueue_subset[OF ok, of "scan_items s1 dev ?opts listing"]
        by (auto simp: sync_now_job_def dev(2) scan_def split: if_splits prod.splits)
      then show ?thesis by (rule that)
    qed
  qed
  then obtain reg global ov line where "scan_line dev ?opts reg global ov line = Some it"
    unfolding scan_items_def Let_def map_filter_set by blast
  from scan_line_SomeD[OF this] show ?thesis using dev(1) name by (simp add: dev(2))
qed

end
