(* ===== verification/Onboard.thy ===== *)
theory Onboard
  imports DeviceSsh
begin

text \<open>
  \<^verbatim>\<open>src/api/onboard.rs\<close>: the setup script for a device, with this server's address, its SSH
  public key and the tailnet settings put in place of the placeholders. The script is text to this
  program; what a shell does with it is not modelled.
\<close>

definition dq :: string where "dq = [CHR 0x22]"
definition sq :: string where "sq = [CHR 0x27]"
definition bs :: string where "bs = [CHR 0x5C]"
definition line_feed :: string where "line_feed = [CHR 0x0A]"

text \<open>\<open>str::replace\<close>: every occurrence from the left, for a pattern that is not empty.\<close>

fun replace_str :: "string \<Rightarrow> string \<Rightarrow> string \<Rightarrow> string" where
  "replace_str p r [] = []"
| "replace_str p r (c # s) =
     (if prefix p (c # s) then r @ replace_str p r (drop (length p - 1) s) else c # replace_str p r s)"

declare replace_str.simps [simp del]

definition join_lines :: "string list \<Rightarrow> string" where
  "join_lines ls = concat (map (\<lambda>l. l @ line_feed) ls)"

text \<open>The script, line by line.\<close>

definition script_lines :: "string list" where
  "script_lines =
     [''#!/usr/bin/env bash'',
      ''# homeconnect device onboarding. Run ON the comma, or over SSH:'',
      ''#   curl -fsSL __HC_HOST__/onboard.sh | bash'',
      ''# Options (any order, after `-s --`):'',
      ''#   --reboot                 reboot automatically when done'',
      ''#   --tailscale <authkey>    install tailscale and join the tailnet using <authkey>'',
      ''#   --ts-login-server <url>  coordination/login server (default: baked-in, if any)'',
      ''#   --ts-hostname <name>     tailnet hostname (default: comma-<HardwareSerial>)'',
      ''#   --ts-version <ver>       tailscale version to fetch (default: __HC_TS_VERSION__)'',
      ''# e.g.  curl -fsSL __HC_HOST__/onboard.sh | bash -s -- --tailscale <authkey> --reboot'',
      ''set -euo pipefail'',
      [],
      ''HOST='' @ dq @ ''__HC_HOST__'' @ dq,
      ''WS='' @ dq @ ''${HOST/http/ws}'' @ dq,
      ''CONT=/data/continue.sh'',
      ''KEYFILE=/data/homeconnect_authorized_key'',
      ''# homeconnect'' @ sq @ ''s device-scoped key, restricted to the tailnet/LAN (no GitHub).'',
      ''HC_KEY='' @ sq @ ''from='' @ dq @ ''100.64.0.0/10,192.168.0.0/16,10.0.0.0/8,172.16.0.0/12'' @ dq @ '' __HC_PUBKEY__'' @ sq,
      [],
      ''# --- args ---'',
      ''DO_REBOOT=0'',
      ''TS_AUTHKEY='' @ dq @ dq,
      ''TS_LOGIN='' @ dq @ ''__HC_TS_LOGIN__'' @ dq,
      ''TS_HOSTNAME='' @ dq @ dq,
      ''TS_VERSION='' @ dq @ ''__HC_TS_VERSION__'' @ dq,
      ''while [ $# -gt 0 ]; do'',
      ''  case '' @ dq @ ''$1'' @ dq @ '' in'',
      ''    --reboot) DO_REBOOT=1 ;;'',
      ''    --tailscale) TS_AUTHKEY='' @ dq @ ''${2:-}'' @ dq @ ''; shift ;;'',
      ''    --tailscale=*) TS_AUTHKEY='' @ dq @ ''${1#*=}'' @ dq @ '' ;;'',
      ''    --ts-login-server) TS_LOGIN='' @ dq @ ''${2:-}'' @ dq @ ''; shift ;;'',
      ''    --ts-login-server=*) TS_LOGIN='' @ dq @ ''${1#*=}'' @ dq @ '' ;;'',
      ''    --ts-hostname) TS_HOSTNAME='' @ dq @ ''${2:-}'' @ dq @ ''; shift ;;'',
      ''    --ts-hostname=*) TS_HOSTNAME='' @ dq @ ''${1#*=}'' @ dq @ '' ;;'',
      ''    --ts-version) TS_VERSION='' @ dq @ ''${2:-}'' @ dq @ ''; shift ;;'',
      ''    --ts-version=*) TS_VERSION='' @ dq @ ''${1#*=}'' @ dq @ '' ;;'',
      ''    *) echo '' @ dq @ ''ignoring unknown arg: $1'' @ dq @ '' >&2 ;;'',
      ''  esac'',
      ''  shift'',
      ''done'',
      [],
      ''echo '' @ dq @ ''homeconnect onboarding -> $HOST'' @ dq,
      [],
      ''# Download + install tailscale, register with the authkey (one time), and write a'',
      ''# persistent bring-up (up.sh, no authkey stored) + boot hook (boot.sh). Returns'',
      ''# non-zero on failure so the rest of onboarding still completes. Mirrors the'',
      ''# transient-systemd-unit pattern continue.sh uses.'',
      ''install_tailscale() {'',
      ''  local TS=/data/tailscale ST=/data/tailscale/state tmp d LS='' @ dq @ dq,
      ''  [ -n '' @ dq @ ''$TS_LOGIN'' @ dq @ '' ] && LS='' @ dq @ ''--login-server $TS_LOGIN'' @ dq,
      ''  mkdir -p '' @ dq @ ''$ST'' @ dq,
      ''  if [ ! -x '' @ dq @ ''$TS/tailscaled'' @ dq @ '' ]; then'',
      ''    echo '' @ dq @ ''downloading tailscale ${TS_VERSION} (arm64)...'' @ dq,
      ''    tmp=$(mktemp -d)'',
      ''    curl -fsSL '' @ dq @ ''https://pkgs.tailscale.com/stable/tailscale_${TS_VERSION}_arm64.tgz'' @ dq @ '' -o '' @ dq @ ''$tmp/ts.tgz'' @ dq @ '' || { rm -rf '' @ dq @ ''$tmp'' @ dq @ ''; return 1; }'',
      ''    tar -xzf '' @ dq @ ''$tmp/ts.tgz'' @ dq @ '' -C '' @ dq @ ''$tmp'' @ dq @ '' || { rm -rf '' @ dq @ ''$tmp'' @ dq @ ''; return 1; }'',
      ''    d=$(find '' @ dq @ ''$tmp'' @ dq @ '' -maxdepth 1 -type d -name '' @ sq @ ''tailscale_*'' @ sq @ '' | head -1)'',
      ''    cp '' @ dq @ ''$d/tailscale'' @ dq @ '' '' @ dq @ ''$d/tailscaled'' @ dq @ '' '' @ dq @ ''$TS/'' @ dq @ '' || { rm -rf '' @ dq @ ''$tmp'' @ dq @ ''; return 1; }'',
      ''    chmod +x '' @ dq @ ''$TS/tailscale'' @ dq @ '' '' @ dq @ ''$TS/tailscaled'' @ dq,
      ''    rm -rf '' @ dq @ ''$tmp'' @ dq,
      ''  fi'',
      ''  # Persistent reconnect (no authkey; node is already registered after first run).'',
      ''  cat > '' @ dq @ ''$TS/up.sh'' @ dq @ '' <<UPSH'',
      ''#!/usr/bin/env bash'',
      ''set +e'',
      ''TS=/data/tailscale'',
      ''SOCK='' @ bs @ ''$TS/state/tailscaled.sock'',
      ''T='' @ dq @ bs @ ''$TS/tailscale --socket='' @ bs @ ''$SOCK'' @ dq,
      ''for i in '' @ bs @ ''$(seq 1 30); do [ -S '' @ dq @ bs @ ''$SOCK'' @ dq @ '' ] && break; sleep 1; done'',
      bs @ ''$T up ${LS} --hostname ${TS_HOSTNAME} --accept-dns=true'',
      ''# NetworkManager contends with Tailscale'' @ sq @ ''s DNS push; toggle + pin the .bam split.'',
      bs @ ''$T set --accept-dns=false; sleep 1'',
      bs @ ''$T set --accept-dns=true;  sleep 2'',
      ''resolvectl dns    tailscale0 100.100.100.100 2>/dev/null'',
      ''resolvectl domain tailscale0 '' @ dq @ ''~bam'' @ dq @ '' '' @ dq @ ''~bam.net'' @ dq @ '' 2>/dev/null'',
      ''UPSH'',
      ''  chmod +x '' @ dq @ ''$TS/up.sh'' @ dq,
      ''  # Boot hook: start the daemon + run up.sh as transient root units (called from'',
      ''  # continue.sh with sudo, so no sudo needed inside).'',
      ''  cat > '' @ dq @ ''$TS/boot.sh'' @ dq @ '' <<'' @ sq @ ''BOOTSH'' @ sq,
      ''#!/usr/bin/env bash'',
      ''TS=/data/tailscale; ST=$TS/state'',
      ''[ -x '' @ dq @ ''$TS/tailscaled'' @ dq @ '' ] || exit 0'',
      ''systemctl reset-failed tailscaled tailscale-up 2>/dev/null'',
      ''systemctl is-active --quiet tailscaled || '' @ bs,
      ''  systemd-run --unit=tailscaled --collect --property=Restart=on-failure '' @ bs,
      ''    '' @ dq @ ''$TS/tailscaled'' @ dq @ '' --state='' @ dq @ ''$ST/tailscaled.state'' @ dq @ '' --socket='' @ dq @ ''$ST/tailscaled.sock'' @ dq @ '' --tun=tailscale0 >>'' @ dq @ ''$TS/up.log'' @ dq @ '' 2>&1'',
      ''systemd-run --unit=tailscale-up --collect '' @ dq @ ''$TS/up.sh'' @ dq @ '' >>'' @ dq @ ''$TS/up.log'' @ dq @ '' 2>&1'',
      ''BOOTSH'',
      ''  chmod +x '' @ dq @ ''$TS/boot.sh'' @ dq,
      ''  # Start the daemon now and register with the authkey (the one-time step).'',
      ''  sudo systemctl reset-failed tailscaled 2>/dev/null || true'',
      ''  sudo systemctl is-active --quiet tailscaled || '' @ bs,
      ''    sudo systemd-run --unit=tailscaled --collect --property=Restart=on-failure '' @ bs,
      ''      '' @ dq @ ''$TS/tailscaled'' @ dq @ '' --state='' @ dq @ ''$ST/tailscaled.state'' @ dq @ '' --socket='' @ dq @ ''$ST/tailscaled.sock'' @ dq @ '' --tun=tailscale0 >>'' @ dq @ ''$TS/up.log'' @ dq @ '' 2>&1 || return 1'',
      ''  for i in $(seq 1 30); do [ -S '' @ dq @ ''$ST/tailscaled.sock'' @ dq @ '' ] && break; sleep 1; done'',
      ''  '' @ dq @ ''$TS/tailscale'' @ dq @ '' --socket='' @ dq @ ''$ST/tailscaled.sock'' @ dq @ '' up $LS --authkey '' @ dq @ ''$TS_AUTHKEY'' @ dq @ '' --hostname '' @ dq @ ''$TS_HOSTNAME'' @ dq @ '' --accept-dns=true || return 1'',
      ''  echo '' @ dq @ ''OK: tailscale up as ${TS_HOSTNAME}${TS_LOGIN:+ (login-server $TS_LOGIN)}'' @ dq,
      ''}'',
      [],
      ''# 0) Optional: tailscale. Do this first so DNS/connectivity is up; non-fatal.'',
      ''TSLINE='' @ dq @ dq,
      ''if [ -n '' @ dq @ ''$TS_AUTHKEY'' @ dq @ '' ]; then'',
      ''  [ -z '' @ dq @ ''$TS_HOSTNAME'' @ dq @ '' ] && TS_HOSTNAME='' @ dq @ ''comma-$(cat /data/params/d/HardwareSerial 2>/dev/null || true)'' @ dq,
      ''  [ '' @ dq @ ''$TS_HOSTNAME'' @ dq @ '' = '' @ dq @ ''comma-'' @ dq @ '' ] && TS_HOSTNAME='' @ dq @ ''comma-$(tr -dc a-f0-9 </dev/urandom 2>/dev/null | head -c8)'' @ dq,
      ''  if install_tailscale; then'',
      ''    TSLINE='' @ sq @ ''sudo /data/tailscale/boot.sh # homeconnect-tailscale'' @ sq,
      ''  else'',
      ''    echo '' @ dq @ ''WARN: tailscale setup failed; continuing without it'' @ dq @ '' >&2'',
      ''  fi'',
      ''fi'',
      [],
      ''# 1) Point openpilot/sunnypilot at homeconnect, and re-apply our SSH key (and the'',
      ''#    tailscale boot hook) each boot. continue.sh lives OUTSIDE /data/openpilot, so'',
      ''#    this survives updates.'',
      ''if [ ! -f '' @ dq @ ''$CONT'' @ dq @ '' ]; then'',
      ''  printf '' @ sq @ ''#!/usr/bin/env bash'' @ bs @ ''nexec /data/openpilot/launch_openpilot.sh'' @ bs @ ''n'' @ sq @ '' > '' @ dq @ ''$CONT'' @ dq,
      ''fi'',
      ''cp -n '' @ dq @ ''$CONT'' @ dq @ '' '' @ dq @ ''$CONT.pre-homeconnect'' @ dq @ '' 2>/dev/null || true'',
      ''# Drop any prior homeconnect-managed lines, then (re)insert before the launcher.'',
      ''sed -i '' @ sq @ ''/export API_HOST=/d; /export ATHENA_HOST=/d; /export MAPS_HOST=/d; /homeconnect-ssh/d; /homeconnect-tailscale/d'' @ sq @ '' '' @ dq @ ''$CONT'' @ dq,
      ''if grep -qE '' @ sq @ ''^[[:space:]]*exec '' @ sq @ '' '' @ dq @ ''$CONT'' @ dq @ ''; then'',
      ''  awk -v h='' @ dq @ ''$HOST'' @ dq @ '' -v w='' @ dq @ ''$WS'' @ dq @ '' -v ts='' @ dq @ ''$TSLINE'' @ dq @ '' '' @ sq,
      ''    /^[[:space:]]*exec /&&!p { if (ts != '' @ dq @ dq @ '') print ts;'',
      ''                               print '' @ dq @ ''export API_HOST='' @ bs @ dq @ dq @ ''h'' @ dq @ bs @ dq @ dq @ '';'',
      ''                               print '' @ dq @ ''export ATHENA_HOST='' @ bs @ dq @ dq @ ''w'' @ dq @ bs @ dq @ dq @ '';'',
      ''                               print '' @ dq @ ''export MAPS_HOST='' @ bs @ dq @ dq @ ''h'' @ dq @ bs @ dq @ dq @ '';'',
      ''                               print '' @ dq @ ''cat /data/homeconnect_authorized_key >> /tmp/authorized_keys 2>/dev/null; chmod 600 /tmp/authorized_keys 2>/dev/null # homeconnect-ssh'' @ dq @ '';'',
      ''                               p=1 }'',
      ''    { print }'' @ sq @ '' '' @ dq @ ''$CONT'' @ dq @ '' > '' @ dq @ ''$CONT.hc'' @ dq @ '' && mv '' @ dq @ ''$CONT.hc'' @ dq @ '' '' @ dq @ ''$CONT'' @ dq,
      ''else'',
      ''  { [ -n '' @ dq @ ''$TSLINE'' @ dq @ '' ] && echo '' @ dq @ ''$TSLINE'' @ dq @ '';'',
      ''    echo '' @ dq @ ''export API_HOST='' @ bs @ dq @ ''$HOST'' @ bs @ dq @ dq @ ''; echo '' @ dq @ ''export ATHENA_HOST='' @ bs @ dq @ ''$WS'' @ bs @ dq @ dq @ ''; echo '' @ dq @ ''export MAPS_HOST='' @ bs @ dq @ ''$HOST'' @ bs @ dq @ dq @ '';'',
      ''    echo '' @ dq @ ''cat /data/homeconnect_authorized_key >> /tmp/authorized_keys 2>/dev/null; chmod 600 /tmp/authorized_keys 2>/dev/null # homeconnect-ssh'' @ dq @ ''; } >> '' @ dq @ ''$CONT'' @ dq,
      ''fi'',
      ''chmod +x '' @ dq @ ''$CONT'' @ dq,
      ''echo '' @ dq @ ''OK: patched $CONT (backup: $CONT.pre-homeconnect)'' @ dq,
      [],
      ''# 2) Install homeconnect'' @ sq @ ''s SSH key now (so it works before the next reboot too).'',
      ''echo '' @ dq @ ''$HC_KEY'' @ dq @ '' > '' @ dq @ ''$KEYFILE'' @ dq,
      ''touch /tmp/authorized_keys'',
      ''grep -qF '' @ dq @ ''$HC_KEY'' @ dq @ '' /tmp/authorized_keys || cat '' @ dq @ ''$KEYFILE'' @ dq @ '' >> /tmp/authorized_keys'',
      ''chmod 600 /tmp/authorized_keys'',
      ''echo '' @ dq @ ''OK: installed homeconnect device SSH key (tailnet/LAN only, no GitHub)'' @ dq,
      [],
      ''# 3) Force re-registration so homeconnect learns this device'' @ sq @ ''s key.'',
      ''rm -f /data/params/d/DongleId'',
      ''echo '' @ dq @ ''OK: cleared cached DongleId (device re-registers on next boot)'' @ dq,
      [],
      ''# 4) Apply.'',
      ''if [ '' @ dq @ ''$DO_REBOOT'' @ dq @ '' = '' @ dq @ ''1'' @ dq @ '' ]; then'',
      ''  echo '' @ dq @ ''rebooting...'' @ dq,
      ''  sudo reboot'',
      ''else'',
      ''  echo'',
      ''  echo '' @ dq @ ''Done. Reboot to apply:   sudo reboot'' @ dq,
      ''  echo '' @ dq @ ''After it boots: open $HOST, log in, and Claim the device under '' @ sq @ ''+ Add device'' @ sq @ ''.'' @ dq,
      ''fi'']"

definition script :: string where "script = join_lines script_lines"

definition ts_version :: string where "ts_version = ''1.98.4''"

text \<open>A key that cannot be read leaves its place empty.\<close>

definition fill_script :: "app_state \<Rightarrow> string \<Rightarrow> string \<Rightarrow> string" where
  "fill_script st pubkey s =
     replace_str ''__HC_TS_VERSION__'' ts_version
       (replace_str ''__HC_TS_LOGIN__'' (c_tailnet_login_server (cfg st))
         (replace_str ''__HC_PUBKEY__'' (trim pubkey)
           (replace_str ''__HC_HOST__'' (c_public_url (cfg st)) s)))"

definition onboard_script :: "ssh_os \<Rightarrow> app_state \<Rightarrow> app_state \<times> string" where
  "onboard_script os st =
     (let (st1, r) = public_key os st; pubkey = (case r of Inr k \<Rightarrow> k | Inl _ \<Rightarrow> [])
      in (st1, fill_script st1 pubkey script))"

text \<open>The login server and the version the command builder starts from.\<close>

definition onboard_defaults :: "app_state \<Rightarrow> string \<times> string" where
  "onboard_defaults st = (c_tailnet_login_server (cfg st), ts_version)"

section \<open>Lemmas\<close>

text \<open>A pattern without a line feed is replaced line by line.\<close>

lemma replace_str_line:
  assumes "CHR 0x0A \<notin> set p" "p \<noteq> []"
  shows "replace_str p r (a @ CHR 0x0A # b) = replace_str p r a @ CHR 0x0A # replace_str p r b"
proof (induction a rule: length_induct)
  case (1 a)
  have pre: "prefix p (x @ CHR 0x0A # b) \<longleftrightarrow> prefix p x" for x
    using assms(1)
  proof (induction p arbitrary: x)
    case (Cons d p)
    then show ?case by (cases x) auto
  qed simp
  show ?case
  proof (cases a)
    case Nil
    have "\<not> prefix p (CHR 0x0A # b)" using pre[of "[]"] assms(2) by simp
    then show ?thesis by (simp add: Nil replace_str.simps)
  next
    case (Cons c s)
    show ?thesis
    proof (cases "prefix p a")
      case True
      then have "length p - 1 \<le> length s" using prefix_length_le[OF True] by (simp add: Cons)
      moreover have "replace_str p r (drop (length p - 1) s @ CHR 0x0A # b) =
          replace_str p r (drop (length p - 1) s) @ CHR 0x0A # replace_str p r b"
        using 1 by (simp add: Cons)
      ultimately show ?thesis using True pre[of a] by (simp add: Cons replace_str.simps)
    next
      case False
      then show ?thesis using 1 pre[of a] by (simp add: Cons replace_str.simps)
    qed
  qed
qed

lemma replace_join_lines:
  assumes "CHR 0x0A \<notin> set p" "p \<noteq> []"
  shows "replace_str p r (join_lines ls) = join_lines (map (replace_str p r) ls)"
  using replace_str_line[OF assms]
  by (induction ls) (auto simp: join_lines_def line_feed_def replace_str.simps(1))

lemma fill_script_lines: "fill_script st k (join_lines ls) = join_lines (map (fill_script st k) ls)"
proof -
  have "fill_script st k = replace_str ''__HC_TS_VERSION__'' ts_version \<circ>
      (replace_str ''__HC_TS_LOGIN__'' (c_tailnet_login_server (cfg st)) \<circ>
       (replace_str ''__HC_PUBKEY__'' (trim k) \<circ> replace_str ''__HC_HOST__'' (c_public_url (cfg st))))"
    by (simp add: fill_script_def fun_eq_iff)
  then show ?thesis by (simp add: replace_join_lines)
qed

text \<open>Without the pattern's first character there is nothing to replace.\<close>

lemma replace_str_over: "p \<noteq> [] \<Longrightarrow> hd p \<notin> set a \<Longrightarrow> replace_str p r (a @ s) = a @ replace_str p r s"
proof (induction a)
  case (Cons c a)
  then have "\<not> prefix p (c # a @ s)" by (cases p) auto
  then show ?case using Cons by (simp add: replace_str.simps(2))
qed simp

definition key_options :: string where
  "key_options = ''from='' @ dq @ ''100.64.0.0/10,192.168.0.0/16,10.0.0.0/8,172.16.0.0/12'' @ dq"

lemma fill_key_line:
  assumes "CHR ''_'' \<notin> set (trim k)"
  shows "fill_script st k (''HC_KEY='' @ sq @ key_options @ '' __HC_PUBKEY__'' @ sq) =
    ''HC_KEY='' @ sq @ key_options @ '' '' @ trim k @ sq"
proof -
  have o: "replace_str p r (trim k @ s) = trim k @ replace_str p r s" if "hd p = CHR ''_''" "p \<noteq> []" for p r s
    using replace_str_over[OF that(2), of "trim k"] assms that by simp
  show ?thesis
    by (simp add: fill_script_def key_options_def sq_def dq_def replace_str.simps o)
qed

section \<open>Properties\<close>

text \<open>
  The script installs the server's own key with its restriction: the line that sets the key
  is in the served script, with the public key of the server in the place of the placeholder and the
  restriction to the private networks in front of it.
\<close>

theorem onboard_installs_own_key:
  assumes "public_key os st = (st1, Inr key)" "CHR ''_'' \<notin> set (trim key)"
  shows "\<exists>pre post. snd (onboard_script os st) =
    pre @ ''HC_KEY='' @ sq @ key_options @ '' '' @ trim key @ sq @ line_feed @ post"
proof -
  let ?line = "''HC_KEY='' @ sq @ key_options @ '' __HC_PUBKEY__'' @ sq"
  have "script_lines ! 17 = ?line" by (simp add: script_lines_def key_options_def)
  moreover have "17 < length script_lines" by (simp add: script_lines_def)
  ultimately obtain a b where ab: "script_lines = a @ ?line # b" by (metis id_take_nth_drop)
  have "snd (onboard_script os st) = join_lines (map (fill_script st1 key) script_lines)"
    using assms(1) by (simp add: onboard_script_def script_def fill_script_lines)
  also have "\<dots> = join_lines (map (fill_script st1 key) a) @ fill_script st1 key ?line @ line_feed @
      join_lines (map (fill_script st1 key) b)"
    unfolding ab by (simp add: join_lines_def)
  finally show ?thesis unfolding fill_key_line[OF assms(2)] by (metis append.assoc)
qed

end
