(* ===== verification/ConfigEnv.thy ===== *)
theory ConfigEnv
  imports F64Text Models
begin

text \<open>
  \<open>Config::from_env\<close> of \<^verbatim>\<open>src/config.rs\<close>. The environment is a function from names to
  values, \<open>None\<close> where a variable is unset or not Unicode. A value that does not parse counts as the
  default.
\<close>

definition env_or :: "(string \<Rightarrow> string option) \<Rightarrow> string \<Rightarrow> string \<Rightarrow> string" where
  "env_or env key dflt = (case env key of Some v \<Rightarrow> v | None \<Rightarrow> dflt)"

definition trim_trailing_slash :: "string \<Rightarrow> string" where
  "trim_trailing_slash s = trim_end_matches (CHR ''/'') s"

definition parse_bool :: "string \<Rightarrow> bool option" where
  "parse_bool s = (if s = ''true'' then Some True else if s = ''false'' then Some False else None)"

definition parsed_or :: "'a \<Rightarrow> (string \<Rightarrow> 'a option) \<Rightarrow> string \<Rightarrow> 'a" where
  "parsed_or dflt p s = (case p s of Some v \<Rightarrow> v | None \<Rightarrow> dflt)"

definition from_env :: "(string \<Rightarrow> string option) \<Rightarrow> config" where
  "from_env env =
     \<lparr>c_bind = env_or env ''HC_BIND'' ''0.0.0.0:8099'',
      c_data_dir = env_or env ''HC_DATA_DIR'' ''./data'',
      c_jwt_secret_b64 = env_or env ''HC_JWT_SECRET'' ''ZGV2LXNlY3JldC1jaGFuZ2UtbWUtaW4tcHJvZHVjdGlvbg=='',
      c_public_url = trim_trailing_slash (env_or env ''HC_PUBLIC_URL'' ''http://localhost:8099''),
      c_web_dir = env_or env ''HC_WEB_DIR'' ''./web/dist'',
      c_retain_days = parsed_or 30 parse_i64 (env_or env ''HC_RETAIN_DAYS'' ''30''),
      c_retain_max_drives = parsed_or 30 parse_i64 (env_or env ''HC_RETAIN_DRIVES'' ''30''),
      c_retain_gb = parsed_or (Fin 100) parse_f64 (env_or env ''HC_RETAIN_GB'' ''100''),
      c_vaapi_device =
        (let s = env_or env ''HC_TRANSCODE_DEVICE'' (env_or env ''HC_VAAPI_DEVICE'' [])
         in if s = [] then None else Some s),
      c_sync_enabled = parsed_or True parse_bool (env_or env ''HC_SYNC_ENABLED'' ''true''),
      c_sync_interval_secs = parsed_or 60 parse_u64 (env_or env ''HC_SYNC_INTERVAL_SECS'' ''60''),
      c_sync_fullres = parsed_or False parse_bool (env_or env ''HC_SYNC_FULLRES'' ''false''),
      c_device_autoprune = parsed_or False parse_bool (env_or env ''HC_DEVICE_AUTOPRUNE'' ''false''),
      c_movie_enabled = parsed_or True parse_bool (env_or env ''HC_MOVIE_ENABLED'' ''true''),
      c_movie_interval_secs = parsed_or 120 parse_u64 (env_or env ''HC_MOVIE_INTERVAL_SECS'' ''120''),
      c_subs_enabled = parsed_or False parse_bool (env_or env ''HC_SUBS_ENABLED'' ''false''),
      c_whisper_url = trim_trailing_slash (env_or env ''HC_WHISPER_URL'' ''http://127.0.0.1:8571''),
      c_denoise_enabled = parsed_or False parse_bool (env_or env ''HC_DENOISE_ENABLED'' ''false''),
      c_denoise_url = trim_trailing_slash (env_or env ''HC_DENOISE_URL'' ''http://127.0.0.1:8573''),
      c_denoise_atten_db = Option.bind (env ''HC_DENOISE_ATTEN_DB'') (\<lambda>v. parse_f64 (trim v)),
      c_tailnet_login_server = trim_trailing_slash (env_or env ''HC_TAILNET_LOGIN_SERVER'' [])\<rparr>"

definition db_url :: "config \<Rightarrow> string" where
  "db_url c = ''sqlite://'' @ path_join (c_data_dir c) ''homeconnect.db'' @ ''?mode=rwc''"

section \<open>Lemmas\<close>

lemma trim_end_matches_last: "trim_end_matches c s \<noteq> [] \<Longrightarrow> last (trim_end_matches c s) \<noteq> c"
  using hd_dropWhile[of "\<lambda>x. x = c" "rev s"] by (auto simp: trim_end_matches_def last_rev)

lemma trim_trailing_slash_last: "\<not> suffix ''/'' (trim_trailing_slash s)"
  using trim_end_matches_last[of "CHR ''/''" s] by (auto simp: trim_trailing_slash_def suffix_def)

text \<open>No base URL of the configuration ends in a slash, so joining a path to it gives exactly one.\<close>

lemma base_urls_trimmed:
  "\<forall>u \<in> {c_public_url (from_env env), c_whisper_url (from_env env), c_denoise_url (from_env env),
       c_tailnet_login_server (from_env env)}. \<not> suffix ''/'' u"
  by (simp add: from_env_def Let_def trim_trailing_slash_last)

end
