(* ===== verification/StoreSpec.thy ===== *)
theory StoreSpec
  imports Storage
begin

text \<open>
  The contract of the blob store (\<^verbatim>\<open>src/storage.rs\<close>) and the refinement: a sequence of its
  operations is a sequence of operations on a map.
\<close>

section \<open>The contract: a map from keys to contents\<close>

text \<open>
  What the clients of the store may assume, without directories, shards or temporary files: a partial
  map. A write or a deletion succeeds or fails as the disk allows, and a failed one changes nothing.
\<close>

datatype store_op = PutOp string string | DeleteOp string | GetOp string | SizeOp string

datatype blob_answer = Done bool | Found "string option" | Size "int option"

fun op_key :: "store_op \<Rightarrow> string" where
  "op_key (PutOp k _) = k"
| "op_key (DeleteOp k) = k"
| "op_key (GetOp k) = k"
| "op_key (SizeOp k) = k"

fun spec_op :: "(string \<Rightarrow> bool) \<Rightarrow> (string \<Rightarrow> bool) \<Rightarrow> store_op \<Rightarrow> (string \<rightharpoonup> string) \<Rightarrow> (string \<rightharpoonup> string) \<times> blob_answer" where
  "spec_op writable removable (PutOp k v) m = (if writable k then (m(k \<mapsto> v), Done True) else (m, Done False))"
| "spec_op writable removable (DeleteOp k) m = (if removable k then (m(k := None), Done True) else (m, Done False))"
| "spec_op writable removable (GetOp k) m = (m, Found (m k))"
| "spec_op writable removable (SizeOp k) m = (m, Size (map_option (\<lambda>c. int (length c)) (m k)))"

fun blob_op :: "(string \<Rightarrow> bool) \<Rightarrow> store_op \<Rightarrow> app_state \<Rightarrow> app_state \<times> blob_answer" where
  "blob_op grants (PutOp k v) st = (let (st1, r) = blob_put st k v in (st1, Done (\<exists>path. r = Inr path)))"
| "blob_op grants (DeleteOp k) st = (let (st1, r) = blob_unlink grants st k in (st1, Done (r = Inr ())))"
| "blob_op grants (GetOp k) st = (st, Found (blob_get st k))"
| "blob_op grants (SizeOp k) st = (st, Size (blob_size st k))"

fun run_ops :: "('op \<Rightarrow> 's \<Rightarrow> 's \<times> 'out) \<Rightarrow> 'op list \<Rightarrow> 's \<Rightarrow> 's \<times> 'out list" where
  "run_ops f [] s = (s, [])"
| "run_ops f (x # xs) s = (let (s1, y) = f x s; (s2, ys) = run_ops f xs s1 in (s2, y # ys))"

text \<open>
  A machine \<open>f\<close> implements a machine \<open>g\<close>: what \<open>f\<close> does to a state is what
  \<open>g\<close> does to its view, with the same answer. Then every run of \<open>f\<close> is a run of \<open>g\<close>.
\<close>

locale implements =
  fixes f :: "'op \<Rightarrow> 's \<Rightarrow> 's \<times> 'out"
    and g :: "'op \<Rightarrow> 'a \<Rightarrow> 'a \<times> 'out"
    and view :: "'s \<Rightarrow> 'a"
    and keeps :: "'s \<Rightarrow> bool"
    and ok :: "'op \<Rightarrow> bool"
  assumes step_keeps: "ok x \<Longrightarrow> keeps s \<Longrightarrow> keeps (fst (f x s))"
    and step_view: "ok x \<Longrightarrow> keeps s \<Longrightarrow> map_prod view id (f x s) = g x (view s)"
begin

lemma run_view: "list_all ok xs \<Longrightarrow> keeps s \<Longrightarrow> map_prod view id (run_ops f xs s) = run_ops g xs (view s)"
proof (induction xs arbitrary: s)
  case (Cons x xs)
  obtain s1 y where f: "f x s = (s1, y)" by fastforce
  obtain s2 ys where r: "run_ops f xs s1 = (s2, ys)" by fastforce
  have g: "keeps s1" "g x (view s) = (view s1, y)" using step_keeps[of x s] step_view[of x s] Cons.prems f by auto
  then have "run_ops g xs (view s1) = (view s2, ys)" using Cons.IH[of s1] Cons.prems r by simp
  then show ?case using f r g by simp
qed simp

lemma run_keeps: "list_all ok xs \<Longrightarrow> keeps s \<Longrightarrow> keeps (fst (run_ops f xs s))"
proof (induction xs arbitrary: s)
  case (Cons x xs)
  then show ?case using step_keeps[of x s] by (simp add: split_beta)
qed simp

end

definition blob_map :: "app_state \<Rightarrow> string \<rightharpoonup> string" where
  "blob_map st k = (if clean_key k then blob_get st k else None)"

definition can_write :: "app_state \<Rightarrow> string \<Rightarrow> bool" where
  "can_write st k = (disk_ok st (blob_tmp st k) \<and> disk_ok st (path_for st k))"

definition can_remove :: "(string \<Rightarrow> bool) \<Rightarrow> app_state \<Rightarrow> string \<Rightarrow> bool" where
  "can_remove grants st k = grants (path_for st k)"

lemma can_remove_frame [simp]:
  "can_remove g (blob_write k v st) = can_remove g st" "can_remove g (blob_delete k st) = can_remove g st"
  "can_remove g (st\<lparr>files_on_disk := fs\<rparr>) = can_remove g st"
  by (simp_all add: fun_eq_iff can_remove_def frame_simps)

lemma can_write_frame [simp]:
  "can_write (blob_write k v st) = can_write st" "can_write (blob_delete k st) = can_write st"
  "can_write (st\<lparr>files_on_disk := fs\<rparr>) = can_write st"
  by (auto simp: fun_eq_iff can_write_def blob_tmp_def path_for_def shard_dir_def blob_write_def blob_delete_def
      remove_file_def Let_def)

text \<open>A rename that fails leaves a temporary file, which no clean key ever names.\<close>

lemma blob_map_leftover: "blob_map (st\<lparr>files_on_disk := fs_put (blob_tmp st k) v (files_on_disk st)\<rparr>) = blob_map st"
proof
  fix k'
  show "blob_map (st\<lparr>files_on_disk := fs_put (blob_tmp st k) v (files_on_disk st)\<rparr>) k' = blob_map st k'"
    using blob_tmp_ne_path[of k' st k] by (auto simp: blob_map_def blob_get_def fs_simps)
qed

text \<open>A granted deletion empties the key, whether there was a file or not.\<close>

lemma blob_map_delete: "clean_key k \<Longrightarrow> blob_map (blob_delete k st) = (blob_map st)(k := None)"
  by (auto simp: fun_eq_iff blob_map_def blobs.get_del)

lemma blob_map_missing: "\<not> file_exists st (path_for st k) \<Longrightarrow> (blob_map st)(k := None) = blob_map st"
  by (auto simp: fun_eq_iff blob_map_def blob_get_def file_exists_def)

lemma blob_op_simulates:
  assumes "clean_key (op_key x)"
  shows "can_write (fst (blob_op g x st)) = can_write st \<and> can_remove g (fst (blob_op g x st)) = can_remove g st \<and>
    map_prod blob_map id (blob_op g x st) = spec_op (can_write st) (can_remove g st) x (blob_map st)"
proof (cases x)
  case (PutOp k v)
  show ?thesis
  proof (cases "can_write st k")
    case True
    then have "blob_put st k v = (blob_write k v st, Inr (path_for st k))" by (simp add: blob_put_def can_write_def)
    moreover have "blob_map (blob_write k v st) = (blob_map st)(k \<mapsto> v)"
      using assms PutOp by (auto simp: fun_eq_iff blob_map_def blobs.get_put)
    ultimately show ?thesis using True PutOp by simp
  next
    case False
    then have "\<exists>e. blob_put st k v = (st, Inl e) \<or>
        blob_put st k v = (st\<lparr>files_on_disk := fs_put (blob_tmp st k) v (files_on_disk st)\<rparr>, Inl e)"
      by (auto simp: blob_put_def can_write_def)
    then show ?thesis using False PutOp blob_map_leftover[of st k v] by auto
  qed
next
  case (DeleteOp k)
  then show ?thesis
    using assms blob_map_delete[of k st] blob_map_missing[of st k] by (auto simp: blob_unlink_def can_remove_def)
qed (use assms in \<open>simp_all add: blob_map_def blob_size_def\<close>)

interpretation store: implements "blob_op g" "spec_op w r" blob_map "\<lambda>s. can_write s = w \<and> can_remove g s = r"
    "\<lambda>x. clean_key (op_key x)" for g w r
  by unfold_locales (use blob_op_simulates in auto)

text \<open>
  C8: the blob store implements a map. Whatever sequence of writes, deletions and reads of clean keys is
  run, and whichever writes and deletions the disk refuses, every answer and the final contents are those
  of the abstract map: sharding, sanitised names and leftover temporary files cannot be observed.
\<close>

theorem blob_store_refines_map:
  assumes "list_all (\<lambda>x. clean_key (op_key x)) ops"
  shows "map_prod blob_map id (run_ops (blob_op grants) ops st) =
    run_ops (spec_op (can_write st) (can_remove grants st)) ops (blob_map st)"
  using assms by (rule store.run_view) simp

text \<open>A disk that refuses to write one key and to remove another: a write, the refusals, and what is read.\<close>

definition demo_ops :: "store_op list" where
  "demo_ops = [PutOp ''k'' ''v'', PutOp ''x'' ''w'', DeleteOp ''k'', DeleteOp ''y'', GetOp ''k'', GetOp ''x'']"

definition demo_disk :: app_state where
  "demo_disk = empty_state\<lparr>disk_ok := (\<lambda>p. p \<noteq> path_for empty_state ''x'')\<rparr>"

theorem blob_store_refines_map_witness:
  "snd (run_ops (blob_op (\<lambda>p. p \<noteq> path_for demo_disk ''k'')) demo_ops demo_disk) =
    [Done True, Done False, Done False, Done True, Found (Some ''v''), Found None]"
proof -
  have path: "path_for demo_disk = path_for empty_state" "blob_tmp demo_disk = blob_tmp empty_state"
    by (simp_all add: fun_eq_iff demo_disk_def path_for_def blob_tmp_def shard_dir_def)
  have disk: "disk_ok demo_disk p = (p \<noteq> path_for empty_state ''x'')" for p by (simp add: demo_disk_def)
  have clean: "clean_key ''k''" "clean_key ''x''" "clean_key ''y''" by (simp_all add: clean_key_def suffix_def)
  have ne: "path_for empty_state ''x'' \<noteq> path_for empty_state ''k''" "path_for empty_state ''k'' \<noteq> path_for empty_state ''y''"
    using clean path_for_inj[of "''x''" "''k''" empty_state] path_for_inj[of "''k''" "''y''" empty_state] by simp_all
  have w: "can_write demo_disk ''k''" "\<not> can_write demo_disk ''x''"
    using ne blob_tmp_ne_path[of "''x''" empty_state "''k''"] clean(2)
    by (simp_all add: can_write_def path disk)
  have r: "can_remove (\<lambda>p. p \<noteq> path_for demo_disk ''k'') demo_disk ''y''" "\<not> can_remove (\<lambda>p. p \<noteq> path_for demo_disk ''k'') demo_disk ''k''"
    using ne by (simp_all add: can_remove_def path)
  have m: "blob_map demo_disk = (\<lambda>_. None)" by (simp add: fun_eq_iff blob_map_def blob_get_def path fs_get_def) (simp add: demo_disk_def empty_state_def)
  have "list_all (\<lambda>x. clean_key (op_key x)) demo_ops" using clean by (simp add: demo_ops_def)
  from blob_store_refines_map[OF this, of "\<lambda>p. p \<noteq> path_for demo_disk ''k''" demo_disk]
  have "snd (run_ops (blob_op (\<lambda>p. p \<noteq> path_for demo_disk ''k'')) demo_ops demo_disk) =
      snd (run_ops (spec_op (can_write demo_disk) (can_remove (\<lambda>p. p \<noteq> path_for demo_disk ''k'') demo_disk)) demo_ops (blob_map demo_disk))"
    by (metis snd_map_prod id_apply)
  then show ?thesis using w r by (simp add: demo_ops_def m)
qed

end
