(* ===== verification/Cli.thy ===== *)
theory Cli
  imports DevSync
begin

text \<open>
  The command line of \<^verbatim>\<open>src/main.rs\<close>: the administrative commands that run on the state
  without a server, and \<open>inspect_qlog\<close> of \<^verbatim>\<open>src/parse.rs\<close>. An outcome is what is
  printed and how the process ends: normally, with an exit code, with the error \<open>main\<close> returns, or
  with a panic on a missing argument.
\<close>

datatype cli_end = CliOk | CliExit nat | CliError app_error | CliPanic

text \<open>
  The kinds of the messages of a log in order, as \<open>event.which()\<close> of the generated reader tells
  them, are the parameter \<open>kinds\<close>. The counts come out in the order of the names.
\<close>

definition inspect_qlog :: "log_lib \<Rightarrow> (string \<Rightarrow> string list) \<Rightarrow> string \<Rightarrow> string \<Rightarrow> (string \<times> nat) list" where
  "inspect_qlog ll kinds name raw =
     (case decompress ll name raw of
        Inl _ \<Rightarrow> []
      | Inr data \<Rightarrow> map (\<lambda>k. (k, count_list (kinds data) k)) (sort (remdups (kinds data))))"

text \<open>The first stored rlog of a segment decides, whether or not it can be read.\<close>

fun remodel_one ::
    "log_lib \<Rightarrow> string \<Rightarrow> string \<Rightarrow> int \<Rightarrow> string list \<Rightarrow> app_state \<Rightarrow> app_state \<times> nat" where
  "remodel_one ll dongle ts seg [] st = (st, 0)"
| "remodel_one ll dongle ts seg (f # fs) st =
     (case blob_get st (blob_key dongle ts seg f) of
        None \<Rightarrow> remodel_one ll dongle ts seg fs st
      | Some bytes \<Rightarrow>
          let (st1, r) = parse_model_and_store ll dongle ts seg f bytes st
          in (st1, if is_ok r then 1 else 0))"

fun remodel_list :: "log_lib \<Rightarrow> (string \<times> int) list \<Rightarrow> app_state \<Rightarrow> app_state \<times> nat" where
  "remodel_list ll [] st = (st, 0)"
| "remodel_list ll ((route, seg) # rest) st =
     (case split_once_str ''|'' route of
        None \<Rightarrow> remodel_list ll rest st
      | Some (dongle, ts) \<Rightarrow>
          let (st1, n) = remodel_one ll dongle ts seg [''rlog.zst'', ''rlog.bz2''] st;
              (st2, m) = remodel_list ll rest st1
          in (st2, n + m))"

definition reparse_model :: "log_lib \<Rightarrow> app_state \<Rightarrow> app_state \<times> nat" where
  "reparse_model ll st =
     remodel_list ll
       (map (\<lambda>s. (s_route s, s_number s))
         (sort_key (\<lambda>s. (s_route s, s_number s)) (filter (\<lambda>s. s_rlog_url s \<noteq> []) (segments st)))) st"

fun inspect_first ::
    "log_lib \<Rightarrow> (string \<Rightarrow> string list) \<Rightarrow> app_state \<Rightarrow> string \<Rightarrow> string \<Rightarrow> int \<Rightarrow> string list \<Rightarrow> string" where
  "inspect_first ll kinds st dongle ts seg [] = ''no log found for '' @ canonical_of dongle ts seg"
| "inspect_first ll kinds st dongle ts seg (f # fs) =
     (case blob_get st (blob_key dongle ts seg f) of
        None \<Rightarrow> inspect_first ll kinds st dongle ts seg fs
      | Some bytes \<Rightarrow>
          ''# '' @ f @ '' ('' @ show_nat (length bytes) @ '' bytes)'' @
          concat (map (\<lambda>(k, c). CHR 0x0A # k @ '': '' @ show_nat c) (inspect_qlog ll kinds f bytes)))"

definition run_cli ::
    "pw_lib \<Rightarrow> ssh_os \<Rightarrow> log_lib \<Rightarrow> (string \<Rightarrow> string list) \<Rightarrow> string \<Rightarrow> string list \<Rightarrow> app_state \<Rightarrow>
     app_state \<times> string \<times> cli_end" where
  "run_cli pw os ll kinds uuid args st =
     (case args of
        [] \<Rightarrow> (st, [], CliPanic)
      | cmd # rest \<Rightarrow>
          if cmd = ''create-user''
          then (case rest of
                  username # password # opts \<Rightarrow>
                    (let email = (case opts of e # _ \<Rightarrow> Some e | [] \<Rightarrow> None)
                     in case create_user_row pw st uuid username password email True of
                          (st1, Inr _) \<Rightarrow> (st1, ''created admin user '' @ [CHR 0x27] @ username @ [CHR 0x27], CliOk)
                        | (st1, Inl _) \<Rightarrow> (st1, [], CliExit 1))
                | _ \<Rightarrow> (st, [], CliExit 2))
          else if cmd = ''reparse''
          then (let (st1, n) = reparse_all ll st in (st1, ''reparsed '' @ show_nat n @ '' segments'', CliOk))
          else if cmd = ''reparse-model''
          then (let (st1, n) = reparse_model ll st
                in (st1, ''built model.json for '' @ show_nat n @ '' segments'', CliOk))
          else if cmd = ''qlog-inspect''
          then (case rest of
                  dongle # ts # seg # opts \<Rightarrow>
                    (let n = (case parse_i64 seg of Some i \<Rightarrow> i | None \<Rightarrow> 0);
                         fs = (case opts of f # _ \<Rightarrow> [f] | [] \<Rightarrow> [''qlog.zst'', ''qlog.bz2''])
                     in (st, inspect_first ll kinds st dongle ts n fs, CliOk))
                | _ \<Rightarrow> (st, [], CliPanic))
          else if cmd = ''device-pubkey''
          then (case public_key os st of
                  (st1, Inr k) \<Rightarrow> (st1, k, CliOk)
                | (st1, Inl e) \<Rightarrow> (st1, [], CliError e))
          else (st, [], CliExit 2))"

section \<open>Properties\<close>

lemma create_user_row_InrD:
  assumes "create_user_row pw st uuid name password email True = (st', Inr r)"
  obtains hash new where "pw_hash pw password = Some hash" "st' = st\<lparr>users := users st @ [new], user_seq := user_seq st + 1\<rparr>"
    "name \<notin> u_username ` set (users st)" "u_username new = name" "u_identity new = uuid" "u_password_hash new = hash"
    "u_is_admin new = 1"
  using assms that by (auto simp: create_user_row_def Let_def split: if_splits option.splits)

text \<open>
  C26: the way into a new installation. If the command line reports that it created the user, that user
  can log in with the password given, is an administrator, and the token they get is issued for their
  identity; with any password the hash does not accept they cannot.
\<close>

theorem cli_user_can_log_in:
  assumes cli: "run_cli pw os ll kinds uuid [''create-user'', name, password] st = (st', out, CliOk)"
    and verify: "\<And>h. pw_hash pw password = Some h \<Longrightarrow> pw_verify pw password h"
    and secret: "jl_secret_ok jl (c_jwt_secret_b64 (cfg st))"
  shows "\<exists>resp. login jl pw st' name password = Inr resp \<and> lr_is_admin resp \<and> lr_identity resp = uuid \<and>
    issue_hs512 jl st' uuid = Inr (lr_access_token resp) \<and>
    (\<forall>wrong h. pw_hash pw password = Some h \<longrightarrow> \<not> pw_verify pw wrong h \<longrightarrow>
       login jl pw st' name wrong = Inl (Unauthorized ''invalid credentials''))"
proof -
  obtain r where "create_user_row pw st uuid name password None True = (st', Inr r)"
    using cli by (auto simp: run_cli_def Let_def split: prod.splits sum.splits)
  then obtain hash new where n: "pw_hash pw password = Some hash" "st' = st\<lparr>users := users st @ [new], user_seq := user_seq st + 1\<rparr>"
    "name \<notin> u_username ` set (users st)" "u_username new = name" "u_identity new = uuid" "u_password_hash new = hash"
    "u_is_admin new = 1"
    by (rule create_user_row_InrD)
  have "tbl_find u_username name (users st') = Some new" using n(2-4) by (auto simp: tbl_find_append tbl_find_None_iff[THEN iffD2])
  moreover obtain token where "issue_hs512 jl st' uuid = Inr token"
    using secret n(2) by (simp add: issue_hs512_def issue_hs512_ttl_def Let_def)
  ultimately show ?thesis using n verify by (simp add: login_def)
qed

theorem cli_user_can_log_in_witness:
  "\<exists>st' resp. run_cli demo_pw (demo_os [] []) demo_log_lib (\<lambda>_. []) ''id1'' [''create-user'', ''ann'', ''secret''] empty_state =
      (st', ''created admin user '' @ [CHR 0x27] @ ''ann'' @ [CHR 0x27], CliOk) \<and>
    login demo_jwt demo_pw st' ''ann'' ''secret'' = Inr resp \<and> lr_is_admin resp"
proof -
  have ann: "trim ''ann'' \<noteq> []" by code_simp
  have "snd (create_user_row demo_pw empty_state ''id1'' ''ann'' ''secret'' None True) = Inr ''id1''"
    using ann by (simp add: create_user_row_def demo_pw_def empty_state_def Let_def)
  then obtain st' where "create_user_row demo_pw empty_state ''id1'' ''ann'' ''secret'' None True = (st', Inr ''id1'')"
    by (metis surjective_pairing)
  then have run: "run_cli demo_pw (demo_os [] []) demo_log_lib (\<lambda>_. []) ''id1'' [''create-user'', ''ann'', ''secret''] empty_state =
      (st', ''created admin user '' @ [CHR 0x27] @ ''ann'' @ [CHR 0x27], CliOk)"
    by (simp add: run_cli_def)
  have "pw_hash demo_pw ''secret'' = Some h \<Longrightarrow> pw_verify demo_pw ''secret'' h" for h by (simp add: demo_pw_def)
  moreover have "jl_secret_ok demo_jwt (c_jwt_secret_b64 (cfg empty_state))" by (simp add: demo_jwt_def)
  ultimately show ?thesis using cli_user_can_log_in[OF run] run by blast
qed

end
