(* ===== verification/UnitTests.thy ===== *)
theory UnitTests
  imports DevSync DeviceUpdate DeviceParams Subs SyncQueue
begin

text \<open>
  The unit tests of the repository, evaluated on the model: each lemma has the name of its test in
  \<^verbatim>\<open>devsync.rs\<close>, \<^verbatim>\<open>device_params.rs\<close>, \<^verbatim>\<open>device_update.rs\<close>,
  \<^verbatim>\<open>subs.rs\<close> or \<^verbatim>\<open>sync_queue.rs\<close>, and its assertions.
\<close>

section \<open>devsync.rs\<close>

lemma parses_segment_paths:
  "parse_remote_path ''/data/media/0/realdata/00000009--f3d1ef15b7--5/qcamera.ts'' =
    Some (''00000009--f3d1ef15b7'', 5, ''qcamera.ts'')"
  "parse_remote_path ''/data/media/0/realdata/00000009--f3d1ef15b7--12/qlog.zst'' =
    Some (''00000009--f3d1ef15b7'', 12, ''qlog.zst'')"
  by code_simp+

lemma rejects_non_segment_paths:
  "parse_remote_path ''/data/media/0/realdata/boot/somefile.bz2'' = None"
  "parse_remote_path ''/etc/passwd'' = None"
  "parse_remote_path ''/data/media/0/realdata/00000009--abc--x/qlog.zst'' = None"
  by code_simp+

lemma type_filter:
  "wanted ''qlog.zst'' []" "wanted ''qcamera.ts'' [''qcamera'']" "\<not> wanted ''fcamera.hevc'' [''qcamera'']"
  "\<not> wanted ''rlog.zst'' [''qcamera'']"
  "list_all (\<lambda>f. wanted f all_types) [''qcamera.ts'', ''fcamera.hevc'', ''dcamera.hevc'', ''ecamera.hevc'', ''rlog.zst'']"
  "\<not> wanted ''random.txt'' all_types" "file_type ''dcamera.hevc'' = Some ''dcamera''" "file_type ''qlog.zst'' = None"
  by code_simp+

lemma safe_components:
  "safe_component ''00000009--f3d1ef15b7''" "safe_component ''qcamera.ts''" "safe_component ''qlog.zst''"
  "\<not> safe_component []" "\<not> safe_component (''a'' @ [CHR 0x27] @ ''; rm -rf /'')" "\<not> safe_component ''a b''"
  "\<not> safe_component ''$(whoami)''" "\<not> safe_component ''../etc''"
  by code_simp+

section \<open>device_params.rs\<close>

lemma only_allowlisted_safe_writes:
  "is_writable ''RecordAudio'' ''1''" "is_writable ''RecordAudio'' ''0''" "\<not> is_writable ''RecordAudio'' ''2''"
  "\<not> is_writable ''RecordAudio'' ''x; rm -rf /''"
  "is_writable ''LongitudinalPersonality'' ''2''" "\<not> is_writable ''LongitudinalPersonality'' ''3''"
  "is_writable ''AutoLaneChangeTimer'' ''-1''" "\<not> is_writable ''AutoLaneChangeTimer'' ''6''"
  "is_writable ''SpeedLimitValueOffset'' ''-30''" "is_writable ''SpeedLimitValueOffset'' ''0''"
  "\<not> is_writable ''SpeedLimitValueOffset'' ''31''" "\<not> is_writable ''SpeedLimitValueOffset'' ''1.5''"
  "\<not> is_writable ''DongleId'' ''anything''" "\<not> is_writable ''CalibrationParams'' ''1''" "\<not> is_writable ''AthenaToken'' ''1''"
  by code_simp+

section \<open>device_update.rs\<close>

definition dump :: "string list \<Rightarrow> string \<Rightarrow> string" where
  "dump vals proc = concat (map (\<lambda>v. v @ [CHR 0x0A] @ upd_sep @ [CHR 0x0A]) vals) @ proc"

definition staged_update :: update_status where
  "staged_update = parse_status (dump
     [''1'', ''0'', ''0'', ''idle'', ''1'', ''1'', ''release-mici 0.10.0'', ''release-mici 0.10.1'',
      ''release-mici'', ''release-mici,master,dev'', ''0'', [], ''2026-06-25T14:46:03'', ''release-mici'',
      ''2026-05-27 18:18:19 -0400''] ''running'')"

lemma parses_an_offroad_device_with_a_staged_update:
  "us_offroad staged_update \<and> \<not> us_updates_disabled staged_update \<and> us_updater_running staged_update \<and>
   us_update_ready staged_update \<and> us_current staged_update = ''release-mici 0.10.0'' \<and>
   us_new staged_update = ''release-mici 0.10.1'' \<and> us_branches staged_update = [''release-mici'', ''master'', ''dev''] \<and>
   us_failed_count staged_update = 0"
  by code_simp

definition missing_params :: update_status where
  "missing_params = parse_status (dump [[], ''1'', ''1''] ''stopped'')"

lemma missing_params_are_not_offroad_and_not_ready:
  "\<not> us_offroad missing_params \<and> us_updates_disabled missing_params \<and> \<not> us_updater_running missing_params \<and>
   \<not> us_update_ready missing_params \<and> \<not> us_fetch_available missing_params \<and> us_branches missing_params = [] \<and>
   us_failed_count missing_params = 0"
  by code_simp

section \<open>sync_queue.rs\<close>

definition three_files :: "sync_queue \<times> nat" where
  "three_files = enqueue [demo_item ''r1'' ''qcamera.ts'', demo_item ''r1'' ''fcamera.hevc'', demo_item ''r2'' ''qcamera.ts'']
     \<lparr>sq_pending = [], sq_pending_keys = [], sq_active = []\<rparr>"

lemma enqueue_dedups_and_counts:
  "snd three_files = 3" "snd (enqueue [demo_item ''r1'' ''qcamera.ts''] (fst three_files)) = 0"
  "queue_stats (fst three_files) = (2, 3)"
  "case next_item (fst three_files) of
     Some (it, s) \<Rightarrow> snd (queue_stats s) = 3 \<and> snd (queue_stats (done_item (q_key it) s)) = 2 | None \<Rightarrow> False"
  by code_simp+

section \<open>devsync.rs, subs.rs\<close>

lemma registration_gate:
  "\<not> registered None ''qlog.zst''"
  "registered (Some \<lparr>rg_qcam = True, rg_fcam = False, rg_dcam = False, rg_ecam = False, rg_rlog = False, rg_qlog_parsed = False\<rparr>)
     ''qcamera.ts''"
  "\<not> registered (Some \<lparr>rg_qcam = True, rg_fcam = False, rg_dcam = False, rg_ecam = False, rg_rlog = False, rg_qlog_parsed = False\<rparr>)
     ''qlog.zst''"
  "registered (Some \<lparr>rg_qcam = False, rg_fcam = False, rg_dcam = False, rg_ecam = False, rg_rlog = False, rg_qlog_parsed = True\<rparr>)
     ''qlog.zst''"
  "\<not> registered (Some \<lparr>rg_qcam = False, rg_fcam = False, rg_dcam = False, rg_ecam = False, rg_rlog = False, rg_qlog_parsed = True\<rparr>)
     ''fcamera.hevc''"
  by code_simp+

lemma empty_transcript_yields_no_cues: "parse_vtt (''WEBVTT'' @ [CHR 0x0A]) = []"
  by code_simp

end
