(* ===== verification/Router.thy ===== *)
theory Router
  imports Browse
begin

text \<open>
  The route table of \<^verbatim>\<open>src/lib.rs\<close>, and the composition it makes: which handler a URL of
  this server reaches. Choosing among the templates that match a path is axum's work and a
  parameter, with its documented rules as \<open>documented_lookup\<close>: it answers a template that matches, it
  answers one whenever there is one, and a literal part is preferred to a capture. Decoding the
  percent escapes of a captured part is a parameter too.
\<close>

section \<open>The table\<close>

datatype http_method = GET | POST | PUT | DELETE

definition route_table :: "(string \<times> (http_method \<times> string) list) list" where
  "route_table =
    [
     (''/health'', [(GET, ''health'')]),
     (''/onboard.sh'', [(GET, ''onboard::onboard_script'')]),
     (''/v1/onboard/defaults'', [(GET, ''onboard::onboard_defaults'')]),
     (''/v1/auth/login'', [(POST, ''users::login'')]),
     (''/v1/me'', [(GET, ''users::me'')]),
     (''/v1/me/password'', [(POST, ''users::change_my_password'')]),
     (''/v1/admin/users'', [(GET, ''users::list_users''), (POST, ''users::create_user'')]),
     (''/v1/admin/users/{identity}'', [(POST, ''users::update_user''), (DELETE, ''users::delete_user'')]),
     (''/v1/admin/users/{identity}/password'', [(POST, ''users::admin_set_password'')]),
     (''/v2/pilotauth'', [(POST, ''v2::pilotauth'')]),
     (''/v2/pilotpair'', [(POST, ''v2::pilotpair'')]),
     (''/v1.4/{dongle_id}/upload_url'', [(GET, ''v1::upload_url'')]),
     (''/v1.4/{dongle_id}/upload_url/'', [(GET, ''v1::upload_url'')]),
     (''/v1/{dongle_id}/upload_urls'', [(POST, ''v1::upload_urls'')]),
     (''/v1/{dongle_id}/upload_urls/'', [(POST, ''v1::upload_urls'')]),
     (''/v1.1/devices/{dongle_id}'', [(GET, ''v1::device_info'')]),
     (''/v1.1/devices/{dongle_id}/stats'', [(GET, ''v1::device_stats'')]),
     (''/v1/devices/{dongle_id}/location'', [(GET, ''v1::device_location'')]),
     (''/v1/me/devices'', [(GET, ''v1::my_devices'')]),
     (''/v1/me/stats'', [(GET, ''v1::my_stats'')]),
     (''/v1/me/paths'', [(GET, ''v1::my_paths'')]),
     (''/v1/me/unpaired_devices'', [(GET, ''v1::unpaired_devices'')]),
     (''/v1/devices/{dongle_id}/claim'', [(POST, ''v1::claim_device'')]),
     (''/v1/devices/{dongle_id}/sync'', [(POST, ''devsync::sync_now'')]),
     (''/v1/devices/{dongle_id}/params'', [(GET, ''device_params::get_params''), (POST, ''device_params::set_param'')]),
     (''/v1/devices/{dongle_id}/update'', [(GET, ''device_update::get_update''), (POST, ''device_update::post_update'')]),
     (''/v1/devices/{dongle_id}/model'', [(GET, ''device_params::get_model''), (POST, ''device_params::set_model'')]),
     (''/v1/sync/queue'', [(GET, ''devsync::queue_stats'')]),
     (''/v1/movies/queue'', [(GET, ''v1::movie_queue'')]),
     (''/v1/route/{fullname}/sync'', [(GET, ''devsync::get_route_sync''), (POST, ''devsync::set_route_sync'')]),
     (''/v1/admin/retention'', [(GET, ''settings::get_retention''), (POST, ''settings::set_retention'')]),
     (''/v1/admin/retention/run'', [(POST, ''settings::run_retention'')]),
     (''/v1/admin/transcode'', [(GET, ''settings::get_transcode''), (POST, ''settings::set_transcode'')]),
     (''/v1/admin/sync'', [(GET, ''settings::get_sync''), (POST, ''settings::set_sync'')]),
     (''/v1/admin/encoding'', [(GET, ''settings::get_encoding''), (POST, ''settings::set_encoding'')]),
     (''/v1/admin/encoding/reencode'', [(POST, ''settings::reencode_movies'')]),
     (''/v1/admin/subs'', [(GET, ''settings::get_subs''), (POST, ''settings::set_subs'')]),
     (''/v1/admin/denoise'', [(GET, ''settings::get_denoise''), (POST, ''settings::set_denoise'')]),
     (''/v1/admin/subs/rebuild'', [(POST, ''settings::rebuild_subs'')]),
     (''/v1/admin/cam-calib'', [(GET, ''settings::get_cam_calib''), (POST, ''settings::set_cam_calib'')]),
     (''/v1/admin/ignore-rules'', [(GET, ''settings::get_ignore_rules''), (POST, ''settings::set_ignore_rules'')]),
     (''/v1/devices/{dongle_id}/routes_segments'', [(GET, ''v1::routes_segments'')]),
     (''/v1/route/{fullname}/download'', [(GET, ''manage::download'')]),
     (''/v1/route/{fullname}/delete'', [(POST, ''manage::delete'')]),
     (''/v1/route/{fullname}/info'', [(GET, ''v1::route_info'')]),
     (''/v1/route/{fullname}/public'', [(POST, ''v1::set_route_public'')]),
     (''/v1/route/{fullname}/movies'', [(GET, ''v1::route_movies'')]),
     (''/v1/route/{fullname}/subs'', [(GET, ''v1::route_subs''), (POST, ''v1::route_subs_action'')]),
     (''/v1/route/{fullname}/subs.vtt'', [(GET, ''serve::subs'')]),
     (''/v1/route/{fullname}/movie/{cam}'', [(GET, ''serve::movie''), (POST, ''v1::route_movie_action'')]),
     (''/v1/route/{fullname}/{cam}'', [(GET, ''v1::camera_m3u8'')]),
     (''/v1/transcode/{dongle}/{timestamp}/{segment}/{file}'', [(GET, ''serve::transcode'')]),
     (''/v1/audio/{dongle}/{timestamp}/{segment}/{file}'', [(GET, ''serve::audio'')]),
     (''/connectdata/{type}/{dongle}/{timestamp}/{segment}/{file}'', [(GET, ''serve::connectdata'')]),
     (''/connectdata/{dongle}/{timestamp}/{segment}/{file}'', [(GET, ''serve::connectdata_notype'')]),
     (''/connectincoming/{dongle}/{timestamp}/{segment}/{file}'', [(PUT, ''ingest::upload_driving'')]),
     (''/connectincoming/{dongle}/boot/{file}'', [(PUT, ''ingest::upload_boot'')]),
     (''/connectincoming/{dongle}/crash/{log_id}/{commit}/{name}'', [(PUT, ''ingest::upload_crash'')]),
     (''/ws/v2/{dongle_id}'', [(GET, ''athena::ws_handler'')]),
     (''/ws/{dongle_id}'', [(GET, ''athena::ws_handler'')])]"

text \<open>A template and a path, cut at the slashes; a capture stands for one part that is not empty.\<close>

datatype part = Lit string | Cap

definition part_of :: "string \<Rightarrow> part" where
  "part_of s = (if starts_with ''{'' s \<and> ends_with ''}'' s then Cap else Lit s)"

definition parts_of :: "string \<Rightarrow> part list" where
  "parts_of t = map part_of (split_on (CHR ''/'') t)"

fun match_parts :: "part list \<Rightarrow> string list \<Rightarrow> string list option" where
  "match_parts [] [] = Some []"
| "match_parts (Lit l # ps) (s # ss) = (if l = s then match_parts ps ss else None)"
| "match_parts (Cap # ps) (s # ss) = (if s = [] then None else map_option ((#) s) (match_parts ps ss))"
| "match_parts _ _ = None"

definition match_template :: "string \<Rightarrow> string \<Rightarrow> string list option" where
  "match_template t path = match_parts (parts_of t) (split_on (CHR ''/'') path)"

text \<open>The first part in which two templates differ in kind decides which one is preferred.\<close>

fun more_static :: "part list \<Rightarrow> part list \<Rightarrow> bool" where
  "more_static (Lit l # ps) (Cap # qs) = True"
| "more_static (Cap # ps) (Lit l # qs) = False"
| "more_static (p # ps) (q # qs) = more_static ps qs"
| "more_static _ _ = False"

definition documented_lookup :: "(string \<Rightarrow> (string \<times> string list) option) \<Rightarrow> bool" where
  "documented_lookup lk \<longleftrightarrow>
     (\<forall>path. case lk path of
        Some (t, caps) \<Rightarrow>
          t \<in> fst ` set route_table \<and> match_template t path = Some caps \<and>
          (\<forall>t' \<in> fst ` set route_table. match_template t' path \<noteq> None \<longrightarrow>
             \<not> more_static (parts_of t') (parts_of t))
      | None \<Rightarrow> \<forall>t \<in> fst ` set route_table. match_template t path = None)"

text \<open>
  The answer of the router: a handler with its decoded captures, 405, 400 for a capture that does not
  decode, or the single-page application for every other path.
\<close>

datatype dispatched = Handled string "string list" | MethodNotAllowed | BadCapture | Spa

fun decode_all :: "(string \<Rightarrow> string option) \<Rightarrow> string list \<Rightarrow> string list option" where
  "decode_all dec [] = Some []"
| "decode_all dec (c # cs) =
     (case (dec c, decode_all dec cs) of (Some d, Some ds) \<Rightarrow> Some (d # ds) | _ \<Rightarrow> None)"

definition dispatch ::
    "(string \<Rightarrow> (string \<times> string list) option) \<Rightarrow> (string \<Rightarrow> string option) \<Rightarrow> http_method \<Rightarrow> string \<Rightarrow> dispatched" where
  "dispatch lk dec method path =
     (case lk path of
        None \<Rightarrow> Spa
      | Some (t, caps) \<Rightarrow>
        (case Option.bind (map_of route_table t) (\<lambda>ms. map_of ms method) of
           None \<Rightarrow> MethodNotAllowed
         | Some h \<Rightarrow> (case decode_all dec caps of None \<Rightarrow> BadCapture | Some cs \<Rightarrow> Handled h cs)))"

text \<open>
  The path a client of this server asks for when it opens a URL: the fragment stays with the client,
  the query is not part of the path.
\<close>

definition request_path :: "string \<Rightarrow> string \<Rightarrow> string option" where
  "request_path public url =
     map_option (takeWhile (\<lambda>c. c \<noteq> CHR ''?'')) (strip_prefix public (takeWhile (\<lambda>c. c \<noteq> CHR ''#'') url))"

section \<open>Which templates can match\<close>

text \<open>A path known in some of its parts (\<open>None\<close> stands for a part that is not known).\<close>

fun could_match :: "part list \<Rightarrow> string option list \<Rightarrow> bool" where
  "could_match [] [] = True"
| "could_match (Lit l # ps) (k # ks) = ((case k of Some s \<Rightarrow> l = s | None \<Rightarrow> True) \<and> could_match ps ks)"
| "could_match (Cap # ps) (k # ks) = could_match ps ks"
| "could_match _ _ = False"

definition candidates :: "string option list \<Rightarrow> string list" where
  "candidates ks = filter (\<lambda>t. could_match (parts_of t) ks) (map fst route_table)"

definition fits :: "string option list \<Rightarrow> string list \<Rightarrow> bool" where
  "fits ks ss = list_all2 (\<lambda>k s. case k of Some x \<Rightarrow> x = s | None \<Rightarrow> True) ks ss"

lemma fits_simps [simp]:
  "fits [] ss = (ss = [])"
  "fits (None # ks) (s # ss) = fits ks ss"
  "fits (Some x # ks) (s # ss) = (x = s \<and> fits ks ss)"
  by (simp_all add: fits_def)

lemma match_could: "match_parts ps ss = Some caps \<Longrightarrow> fits ks ss \<Longrightarrow> could_match ps ks"
proof (induction ps ss arbitrary: caps ks rule: match_parts.induct)
  case (2 l ps s ss)
  then show ?case by (cases ks) (auto simp: fits_def split: if_splits option.splits)
next
  case (3 ps s ss)
  then show ?case by (cases ks) (auto simp: fits_def split: if_splits)
qed (auto simp: fits_def)

lemma lookup_in_candidates:
  assumes "documented_lookup lk" "fits ks (split_on (CHR ''/'') path)" "lk path = Some (t, caps)"
  shows "t \<in> set (candidates ks)" "match_template t path = Some caps"
proof -
  have t: "t \<in> fst ` set route_table" "match_template t path = Some caps"
    using assms(1)[unfolded documented_lookup_def, rule_format, of path] assms(3) by auto
  then show "match_template t path = Some caps" by simp
  have "could_match (parts_of t) ks"
    using t(2) assms(2) unfolding match_template_def by (rule match_could)
  then show "t \<in> set (candidates ks)" using t(1) by (simp add: candidates_def)
qed

text \<open>A path that only one template can match is looked up as that template.\<close>

lemma lookup_sole:
  assumes lk: "documented_lookup lk" and only: "candidates ks = [t]"
    and path: "fits ks (split_on (CHR ''/'') path)" and m: "match_template t path = Some caps"
  shows "lk path = Some (t, caps)"
proof (cases "lk path")
  case None
  have "t \<in> set (candidates ks)" using only by simp
  then have "t \<in> fst ` set route_table" by (auto simp: candidates_def)
  then show ?thesis using None m lk[unfolded documented_lookup_def, rule_format, of path] by auto
next
  case (Some p)
  then show ?thesis using lookup_in_candidates[OF lk path] only m by (cases p) auto
qed

section \<open>The table is unambiguous\<close>

definition shape :: "part list \<Rightarrow> string option list" where
  "shape ps = map (\<lambda>p. case p of Lit l \<Rightarrow> Some l | Cap \<Rightarrow> None) ps"

lemma shapes_differ:
  "match_parts ps ss = Some a \<Longrightarrow> match_parts qs ss = Some b \<Longrightarrow> shape ps \<noteq> shape qs \<Longrightarrow>
   more_static ps qs \<or> more_static qs ps"
proof (induction ps ss arbitrary: qs a b rule: match_parts.induct)
  case (1 qs)
  then show ?case by (cases qs) (auto elim: match_parts.elims)
next
  case (2 l ps s ss)
  from 2(3) obtain q qs' where q: "qs = q # qs'" by (cases qs) auto
  then show ?case using 2 by (cases q) (auto simp: shape_def split: if_splits)
next
  case (3 ps s ss)
  from 3(3) obtain q qs' where q: "qs = q # qs'" by (cases qs) auto
  then show ?case using 3 by (cases q) (auto simp: shape_def split: if_splits)
qed auto

lemma shapes_distinct: "distinct (map (\<lambda>t. shape (parts_of t)) (map fst route_table))"
  by code_simp

lemma same_shape:
  assumes "t \<in> fst ` set route_table" "t' \<in> fst ` set route_table" "shape (parts_of t) = shape (parts_of t')"
  shows "t = t'"
  using shapes_distinct assms unfolding distinct_map by (auto dest: inj_onD)

section \<open>URLs and their handlers\<close>

definition documented_decode :: "(string \<Rightarrow> string option) \<Rightarrow> bool" where
  "documented_decode dec \<longleftrightarrow> (\<forall>s. CHR ''%'' \<notin> set s \<longrightarrow> dec s = Some s)"

text \<open>A name that stands in a URL as it is.\<close>

definition url_part :: "string \<Rightarrow> bool" where
  "url_part s \<longleftrightarrow> s \<noteq> [] \<and> set s \<inter> {CHR ''/'', CHR ''?'', CHR ''#'', CHR ''%''} = {}"

text \<open>An address that a path can follow.\<close>

definition url_base :: "string \<Rightarrow> bool" where
  "url_base s \<longleftrightarrow> set s \<inter> {CHR ''?'', CHR ''#''} = {}"

definition url_path :: "string list \<Rightarrow> string" where
  "url_path ps = concat (map (\<lambda>p. ''/'' @ p) ps)"

definition reaches ::
    "(string \<Rightarrow> (string \<times> string list) option) \<Rightarrow> (string \<Rightarrow> string option) \<Rightarrow> string \<Rightarrow> http_method \<Rightarrow> string \<Rightarrow>
     string \<Rightarrow> string list \<Rightarrow> bool" where
  "reaches lk dec public method url handler args \<longleftrightarrow>
     (\<exists>path. request_path public url = Some path \<and> dispatch lk dec method path = Handled handler args)"

lemma split_url_path: "ps \<noteq> [] \<Longrightarrow> \<forall>p \<in> set ps. url_part p \<Longrightarrow> split_on (CHR ''/'') (url_path ps) = [] # ps"
proof -
  assume ps: "ps \<noteq> []" "\<forall>p \<in> set ps. url_part p"
  have "url_path qs = CHR ''/'' # join_with ''/'' qs" if "qs \<noteq> []" for qs
    using that
  proof (induction qs)
    case (Cons q qs)
    then show ?case by (cases qs) (simp_all add: url_path_def)
  qed simp
  then have "url_path ps = join_with ''/'' ([] # ps)" using ps(1) by (cases ps) auto
  moreover have "CHR ''/'' \<notin> set x" if "x \<in> set ([] # ps)" for x using that ps(2) by (auto simp: url_part_def)
  ultimately show ?thesis using split_on_join[of "[] # ps" "CHR ''/''"] by simp
qed

lemma captured_parts: "match_parts ps ss = Some caps \<Longrightarrow> set caps \<subseteq> set ss"
  by (induction ps ss arbitrary: caps rule: match_parts.induct) (auto split: if_splits)

lemma decode_plain: "documented_decode dec \<Longrightarrow> \<forall>c \<in> set cs. CHR ''%'' \<notin> set c \<Longrightarrow> decode_all dec cs = Some cs"
  by (induction cs) (auto simp: documented_decode_def)

lemma request_path_url:
  assumes "url_base public" "\<forall>p \<in> set ps. url_part p" "tail = [] \<or> (\<exists>q. tail = CHR ''?'' # q)"
  shows "request_path public (public @ url_path ps @ tail) = Some (url_path ps)"
proof -
  have u: "CHR ''#'' \<notin> set public" "CHR ''#'' \<notin> set (url_path ps)" "CHR ''?'' \<notin> set (url_path ps)"
    using assms(1,2) by (auto simp: url_base_def url_path_def url_part_def)
  have keep: "takeWhile (\<lambda>x. x \<noteq> c) (a @ b) = a @ takeWhile (\<lambda>x. x \<noteq> c) b" if "c \<notin> set a" for a b and c :: char
    using that by (intro takeWhile_append2) auto
  have "request_path public (public @ url_path ps @ tail) =
      Some (url_path ps @ takeWhile (\<lambda>c. c \<noteq> CHR ''?'') (takeWhile (\<lambda>c. c \<noteq> CHR ''#'') tail))"
    using keep[OF u(3)] by (simp add: request_path_def keep u(1,2) strip_prefix_append)
  moreover have "takeWhile (\<lambda>c. c \<noteq> CHR ''?'') (takeWhile (\<lambda>c. c \<noteq> CHR ''#'') tail) = []"
    using assms(3) by auto
  ultimately show ?thesis by simp
qed

lemma reaches_sole:
  assumes lk: "documented_lookup lk" and dec: "documented_decode dec"
    and only: "candidates ks = [t]" and t: "map_of route_table t = Some ms" "map_of ms method = Some h"
    and ps: "\<forall>p \<in> set ps. url_part p" "ps \<noteq> []" "fits ks ([] # ps)" "match_parts (parts_of t) ([] # ps) = Some caps"
    and url: "url = public @ url_path ps @ tail" "tail = [] \<or> (\<exists>q. tail = CHR ''?'' # q)" "url_base public"
  shows "reaches lk dec public method url h caps"
proof -
  note sp = split_url_path[OF ps(2,1)]
  have "lk (url_path ps) = Some (t, caps)"
    using lookup_sole[OF lk only, of "url_path ps" caps] ps(3,4) by (simp add: sp match_template_def)
  moreover have "decode_all dec caps = Some caps"
    using captured_parts[OF ps(4)] ps(1) by (intro decode_plain[OF dec]) (auto simp: url_part_def)
  ultimately show ?thesis
    using t request_path_url[OF url(3) ps(1) url(2)] by (auto simp: reaches_def dispatch_def url(1))
qed

lemma url_part_show_int [simp]: "url_part (show_int n)"
proof -
  have "c \<notin> set (show_int n)" if "c \<in> {CHR ''/'', CHR ''?'', CHR ''#'', CHR ''%''}" for c
    using show_int_chars[of c n] that by (auto simp: is_ascii_digit_def code_def)
  then show ?thesis by (auto simp: url_part_def)
qed

lemma known_candidates:
  "candidates [Some [], Some ''connectdata'', None, None, None, None, None] =
     [''/connectdata/{type}/{dongle}/{timestamp}/{segment}/{file}'']"
  "candidates [Some [], Some ''connectdata'', None, None, None, None] =
     [''/connectdata/{dongle}/{timestamp}/{segment}/{file}'']"
  "candidates [Some [], Some ''v1'', Some ''transcode'', None, None, None, None] =
     [''/v1/transcode/{dongle}/{timestamp}/{segment}/{file}'']"
  "candidates [Some [], Some ''v1'', Some ''audio'', None, None, None, None] =
     [''/v1/audio/{dongle}/{timestamp}/{segment}/{file}'']"
  "candidates [Some [], Some ''connectincoming'', None, None, None, None] =
     [''/connectincoming/{dongle}/{timestamp}/{segment}/{file}'']"
  "candidates [Some [], Some ''connectincoming'', None, Some ''boot'', None] =
     [''/connectincoming/{dongle}/boot/{file}'']"
  "candidates [Some [], Some ''connectincoming'', None, Some ''crash'', None, None, None] =
     [''/connectincoming/{dongle}/crash/{log_id}/{commit}/{name}'']"
  "candidates [Some [], Some ''v1'', Some ''route'', None, Some ''qcamera.m3u8''] = [''/v1/route/{fullname}/{cam}'']"
  by code_simp+

section \<open>Properties\<close>

text \<open>
  The route table is unambiguous. The documented rules leave axum no choice: any two routers that
  follow them send every request, whatever its method and path, to the same handler with the same
  captures. (No two templates are equal up to the names of their captures, which axum would refuse at
  start-up.)
\<close>

lemma routing_unambiguous:
  assumes "documented_lookup lk" "documented_lookup lk'"
  shows "dispatch lk dec method path = dispatch lk' dec method path"
proof -
  have "lk path = lk' path"
  proof (cases "lk path")
    case None
    then show ?thesis
      using assms[unfolded documented_lookup_def, rule_format, of path] by (auto split: option.splits)
  next
    case (Some p)
    obtain t caps where p: "p = (t, caps)" by (cases p)
    note A = assms(1)[unfolded documented_lookup_def, rule_format, of path, unfolded Some p, simplified]
    obtain t' caps' where p': "lk' path = Some (t', caps')"
      using A assms(2)[unfolded documented_lookup_def, rule_format, of path] by (cases "lk' path") auto
    note B = assms(2)[unfolded documented_lookup_def, rule_format, of path, unfolded p', simplified]
    have "shape (parts_of t) = shape (parts_of t')"
      using shapes_differ[of "parts_of t" _ caps "parts_of t'" caps'] A B by (auto simp: match_template_def)
    then have "t = t'" using same_shape A B by blast
    then show ?thesis using A B Some p p' by simp
  qed
  then show ?thesis by (simp add: dispatch_def)
qed

lemma signed_reaches:
  assumes lk: "documented_lookup lk" "documented_decode dec" "candidates ks = [t]"
    and t: "map_of route_table t = Some ms" "map_of ms method = Some h"
    and ps: "\<forall>p \<in> set ps. url_part p" "ps \<noteq> []" "fits ks ([] # ps)" "match_parts (parts_of t) ([] # ps) = Some caps"
    and url: "url = public @ url_path ps" "url_base public"
  shows "reaches lk dec public method (signed_url sig url) h caps"
proof (rule reaches_sole[OF lk t ps])
  have "CHR ''?'' \<notin> set url" using ps(1) url by (auto simp: url_path_def url_part_def url_base_def)
  then show "signed_url sig url = public @ url_path ps @ (if sig = [] then [] else ''?sig='' @ sig)"
    using url(1) by (simp add: signed_url_def)
qed (use url(2) in simp_all)

lemma parts_of_media:
  "parts_of ''/connectdata/{type}/{dongle}/{timestamp}/{segment}/{file}'' = [Lit [], Lit ''connectdata'', Cap, Cap, Cap, Cap, Cap]"
  "parts_of ''/connectdata/{dongle}/{timestamp}/{segment}/{file}'' = [Lit [], Lit ''connectdata'', Cap, Cap, Cap, Cap]"
  "parts_of ''/v1/transcode/{dongle}/{timestamp}/{segment}/{file}'' = [Lit [], Lit ''v1'', Lit ''transcode'', Cap, Cap, Cap, Cap]"
  "parts_of ''/v1/audio/{dongle}/{timestamp}/{segment}/{file}'' = [Lit [], Lit ''v1'', Lit ''audio'', Cap, Cap, Cap, Cap]"
  "parts_of ''/connectincoming/{dongle}/{timestamp}/{segment}/{file}'' = [Lit [], Lit ''connectincoming'', Cap, Cap, Cap, Cap]"
  "parts_of ''/connectincoming/{dongle}/boot/{file}'' = [Lit [], Lit ''connectincoming'', Cap, Lit ''boot'', Cap]"
  "parts_of ''/connectincoming/{dongle}/crash/{log_id}/{commit}/{name}'' =
     [Lit [], Lit ''connectincoming'', Cap, Lit ''crash'', Cap, Cap, Cap]"
  "parts_of ''/v1/route/{fullname}/{cam}'' = [Lit [], Lit ''v1'', Lit ''route'', Cap, Cap]"
  by code_simp+

lemma handlers_of_media:
  "map_of route_table ''/connectdata/{type}/{dongle}/{timestamp}/{segment}/{file}'' = Some [(GET, ''serve::connectdata'')]"
  "map_of route_table ''/connectdata/{dongle}/{timestamp}/{segment}/{file}'' = Some [(GET, ''serve::connectdata_notype'')]"
  "map_of route_table ''/v1/transcode/{dongle}/{timestamp}/{segment}/{file}'' = Some [(GET, ''serve::transcode'')]"
  "map_of route_table ''/v1/audio/{dongle}/{timestamp}/{segment}/{file}'' = Some [(GET, ''serve::audio'')]"
  "map_of route_table ''/connectincoming/{dongle}/{timestamp}/{segment}/{file}'' = Some [(PUT, ''ingest::upload_driving'')]"
  "map_of route_table ''/connectincoming/{dongle}/boot/{file}'' = Some [(PUT, ''ingest::upload_boot'')]"
  "map_of route_table ''/connectincoming/{dongle}/crash/{log_id}/{commit}/{name}'' = Some [(PUT, ''ingest::upload_crash'')]"
  "map_of route_table ''/v1/route/{fullname}/{cam}'' = Some [(GET, ''v1::camera_m3u8'')]"
  by code_simp+

lemmas media_routes = parts_of_media handlers_of_media

lemma connectdata_reaches:
  assumes "documented_lookup lk" "documented_decode dec" "url_base public"
    "url_part ty" "url_part dongle" "url_part ts" "url_part file"
  shows "reaches lk dec public GET (signed_url sig (connectdata_url public ty dongle ts n file))
      ''serve::connectdata'' [ty, dongle, ts, show_int n, file]"
  using assms
  by (intro signed_reaches[OF _ _ known_candidates(1), where ps = "[''connectdata'', ty, dongle, ts, show_int n, file]"])
    (simp_all add: media_routes url_path_def connectdata_url_def, simp_all add: url_part_def)

lemma media_url_reaches:
  assumes lk: "documented_lookup lk" "documented_decode dec" "url_base public"
    and names: "url_part dongle" "url_part ts"
    and url: "media_url public dongle ts camera s = Some url" "camera \<noteq> ''qcamera''"
  shows "reaches lk dec public GET (signed_url sig url) (if camera = ''audio'' then ''serve::audio'' else ''serve::transcode'')
        [dongle, ts, show_int (s_number s), camera @ ''.ts'']"
proof (cases "camera = ''audio''")
  case True
  then have u: "url = public @ url_path [''v1'', ''audio'', dongle, ts, show_int (s_number s), ''audio.ts'']"
    using url by (auto simp: media_url_def url_path_def split: if_splits)
  have "reaches lk dec public GET (signed_url sig url) ''serve::audio'' [dongle, ts, show_int (s_number s), ''audio.ts'']"
    using lk names u
    by (intro signed_reaches[OF _ _ known_candidates(4), where ps = "[''v1'', ''audio'', dongle, ts, show_int (s_number s), ''audio.ts'']"])
      (simp_all add: media_routes, simp_all add: url_part_def)
  then show ?thesis using True by simp
next
  case False
  then have cam: "camera \<in> {''fcamera'', ''dcamera'', ''ecamera''}"
    and u: "url = public @ url_path [''v1'', ''transcode'', dongle, ts, show_int (s_number s), camera @ ''.ts'']"
    using url by (auto simp: media_url_def url_path_def Let_def split: if_splits)
  have "url_part (camera @ ''.ts'')" using cam by (auto simp: url_part_def)
  then have "reaches lk dec public GET (signed_url sig url) ''serve::transcode'' [dongle, ts, show_int (s_number s), camera @ ''.ts'']"
    using lk names u
    by (intro signed_reaches[OF _ _ known_candidates(3), where ps = "[''v1'', ''transcode'', dongle, ts, show_int (s_number s), camera @ ''.ts'']"])
      (simp_all add: media_routes, simp_all add: url_part_def)
  then show ?thesis using False by simp
qed

lemma drive_links_reach:
  assumes lk: "documented_lookup lk" "documented_decode dec" and base: "url_base public"
    and names: "url_part dongle" "url_part ts" and r: "r_fullname r = fullname_of dongle ts" "CHR ''|'' \<notin> set dongle \<union> set ts"
  shows "reaches lk dec public GET (rv_url (route_json r public sig) @ ''/'' @ show_int n @ ''/coords.json'')
      ''serve::connectdata_notype'' [dongle, ts, show_int n, ''coords.json'']"
    "reaches lk dec public GET (rv_qcamera_m3u8 (route_json r public sig))
      ''v1::camera_m3u8'' [fullname_of dongle ts, ''qcamera.m3u8'']"
proof -
  have "replace_char (CHR ''|'') ''/'' x = x" if "CHR ''|'' \<notin> set x" for x
    using that by (induction x) (auto simp: replace_char_def)
  then have "replace_char (CHR ''|'') ''/'' (fullname_of dongle ts) = dongle @ ''/'' @ ts"
    using r(2) by (simp add: fullname_of_def replace_char_def)
  then show "reaches lk dec public GET (rv_url (route_json r public sig) @ ''/'' @ show_int n @ ''/coords.json'')
      ''serve::connectdata_notype'' [dongle, ts, show_int n, ''coords.json'']"
    using names base
    by (intro reaches_sole[OF lk known_candidates(2), where ps = "[''connectdata'', dongle, ts, show_int n, ''coords.json'']" and tail = "[]"])
      (simp_all add: media_routes url_path_def route_json_def r(1), simp_all add: url_part_def)
  have f: "url_part (fullname_of dongle ts)" using names by (auto simp: url_part_def fullname_of_def)
  show "reaches lk dec public GET (rv_qcamera_m3u8 (route_json r public sig))
      ''v1::camera_m3u8'' [fullname_of dongle ts, ''qcamera.m3u8'']"
    using f base
    by (intro reaches_sole[OF lk known_candidates(8), where ps = "[''v1'', ''route'', fullname_of dongle ts, ''qcamera.m3u8'']" and tail = "[]"])
      (simp_all add: media_routes url_path_def route_json_def r(1), simp_all add: url_part_def)
qed

lemma upload_links_reach:
  assumes lk: "documented_lookup lk" "documented_decode dec"
    and names: "url_part dongle" "url_part file" "url_base (c_public_url (cfg st))"
  shows "url_part ts \<Longrightarrow> no_dd file \<Longrightarrow> 0 \<le> n \<Longrightarrow>
      reaches lk dec (c_public_url (cfg st)) PUT (incoming_url st dongle (ts @ ''--'' @ show_int n @ ''--'' @ file))
        ''ingest::upload_driving'' [dongle, ts, show_int n, file]"
    "reaches lk dec (c_public_url (cfg st)) PUT (incoming_url st dongle (''boot/'' @ file)) ''ingest::upload_boot'' [dongle, file]"
    "url_part i \<Longrightarrow> url_part c \<Longrightarrow> CHR ''_'' \<notin> set i \<union> set c \<Longrightarrow>
      reaches lk dec (c_public_url (cfg st)) PUT (incoming_url st dongle (''crash/'' @ i @ ''_'' @ c @ ''_'' @ file))
        ''ingest::upload_crash'' [dongle, i, c, file]"
proof -
  assume ts: "url_part ts" "no_dd file" "0 \<le> n"
  let ?p = "ts @ ''--'' @ show_int n @ ''--'' @ file"
  have "CHR ''/'' \<notin> set ts" using ts(1) by (simp add: url_part_def)
  then have "transform_route_string ?p = ts @ ''/'' @ show_int n @ ''/'' @ file"
    using transform_segment[OF ts(2,3)] segment_path_kind by blast
  then show "reaches lk dec (c_public_url (cfg st)) PUT (incoming_url st dongle ?p) ''ingest::upload_driving'' [dongle, ts, show_int n, file]"
    using names ts(1)
    by (intro reaches_sole[OF lk known_candidates(5), where ps = "[''connectincoming'', dongle, ts, show_int n, file]" and tail = "[]"])
      (simp_all add: media_routes url_path_def incoming_url_def, simp_all add: url_part_def)
next
  have "transform_route_string (''boot/'' @ file) = ''boot/'' @ file"
    using strip_prefix_append[of "''boot/''" "file"] by (simp add: transform_route_string_def)
  then show "reaches lk dec (c_public_url (cfg st)) PUT (incoming_url st dongle (''boot/'' @ file)) ''ingest::upload_boot'' [dongle, file]"
    using names
    by (intro reaches_sole[OF lk known_candidates(6), where ps = "[''connectincoming'', dongle, ''boot'', file]" and tail = "[]"])
      (simp_all add: media_routes url_path_def incoming_url_def, simp_all add: url_part_def)
next
  assume ic: "url_part i" "url_part c" "CHR ''_'' \<notin> set i \<union> set c"
  let ?rest = "i @ ''_'' @ c @ ''_'' @ file"
  have "strip_prefix ''boot/'' (''crash/'' @ ?rest) = None" by (simp add: strip_prefix_def)
  moreover have "replacen_char (CHR ''_'') ''/'' 2 ?rest = i @ ''/'' @ c @ ''/'' @ file"
    using ic(3) by (simp add: numeral_2_eq_2 replacen_char_append)
  ultimately have "transform_route_string (''crash/'' @ ?rest) = ''crash/'' @ i @ ''/'' @ c @ ''/'' @ file"
    using strip_prefix_append[of "''crash/''" ?rest] by (simp add: transform_route_string_def)
  then show "reaches lk dec (c_public_url (cfg st)) PUT (incoming_url st dongle (''crash/'' @ ?rest)) ''ingest::upload_crash'' [dongle, i, c, file]"
    using names ic(1,2)
    by (intro reaches_sole[OF lk known_candidates(7), where ps = "[''connectincoming'', dongle, ''crash'', i, c, file]" and tail = "[]"])
      (simp_all add: media_routes url_path_def incoming_url_def, simp_all add: url_part_def)
qed

text \<open>
  C6: every URL the server gives out reaches the handler it is meant for, with the parts it was made
  of. Stored segment URLs and the playlist's links (signed or not) reach the media handlers, a drive's
  base URL its artifacts, its playlist link the playlist; the URLs a device is told to upload to reach
  the three upload handlers. Nothing else in the table gets in between.
\<close>

theorem links_reach_handlers:
  assumes lk: "documented_lookup lk" "documented_decode dec" and base: "url_base public" "public = c_public_url (cfg st)"
    and names: "url_part dongle" "url_part ts" "url_part file" "url_part ty" "CHR ''|'' \<notin> set dongle \<union> set ts"
    and drive: "no_dd file" "0 \<le> n"
    and crash: "url_part i" "url_part c" "CHR ''_'' \<notin> set i \<union> set c"
    and r: "r_fullname r = fullname_of dongle ts"
  shows "reaches lk dec public GET (signed_url sig (connectdata_url public ty dongle ts n file))
      ''serve::connectdata'' [ty, dongle, ts, show_int n, file] \<and>
    (media_url public dongle ts camera s = Some url \<longrightarrow> camera \<noteq> ''qcamera'' \<longrightarrow>
      reaches lk dec public GET (signed_url sig url) (if camera = ''audio'' then ''serve::audio'' else ''serve::transcode'')
        [dongle, ts, show_int (s_number s), camera @ ''.ts'']) \<and>
    reaches lk dec public GET (rv_url (route_json r public sig) @ ''/'' @ show_int n @ ''/coords.json'')
      ''serve::connectdata_notype'' [dongle, ts, show_int n, ''coords.json''] \<and>
    reaches lk dec public GET (rv_qcamera_m3u8 (route_json r public sig))
      ''v1::camera_m3u8'' [fullname_of dongle ts, ''qcamera.m3u8''] \<and>
    reaches lk dec public PUT (incoming_url st dongle (ts @ ''--'' @ show_int n @ ''--'' @ file))
      ''ingest::upload_driving'' [dongle, ts, show_int n, file] \<and>
    reaches lk dec public PUT (incoming_url st dongle (''boot/'' @ file)) ''ingest::upload_boot'' [dongle, file] \<and>
    reaches lk dec public PUT (incoming_url st dongle (''crash/'' @ i @ ''_'' @ c @ ''_'' @ file))
      ''ingest::upload_crash'' [dongle, i, c, file]"
  using connectdata_reaches[OF lk base(1) names(4,1,2,3)] media_url_reaches[OF lk base(1) names(1,2)]
    drive_links_reach[OF lk base(1) names(1,2) r names(5)]
    upload_links_reach(1)[OF lk names(1,3) _ names(2) drive] upload_links_reach(2)[OF lk names(1,3)]
    upload_links_reach(3)[OF lk names(1,3) _ crash]
  using base(1) unfolding base(2) by blast

section \<open>A router that follows the rules\<close>

text \<open>It tries the templates in order and takes the first matching one that none other is preferred to.\<close>

definition first_best :: "string \<Rightarrow> (string \<times> string list) option" where
  "first_best path =
     (let ms = filter (\<lambda>t. match_template t path \<noteq> None) (map fst route_table)
      in case find (\<lambda>t. \<forall>t' \<in> set ms. \<not> more_static (parts_of t') (parts_of t)) ms of
           None \<Rightarrow> None
         | Some t \<Rightarrow> map_option (Pair t) (match_template t path))"

fun static_weight :: "part list \<Rightarrow> nat" where
  "static_weight [] = 0"
| "static_weight (Lit _ # ps) = 2 ^ length ps + static_weight ps"
| "static_weight (Cap # ps) = static_weight ps"

lemma static_weight_less: "static_weight ps < 2 ^ length ps"
  by (induction ps rule: static_weight.induct) simp_all

lemma more_static_weight: "more_static ps qs \<Longrightarrow> length ps = length qs \<Longrightarrow> static_weight qs < static_weight ps"
proof (induction ps qs rule: more_static.induct)
  case (1 l ps qs)
  then show ?case using static_weight_less[of qs] by simp
qed auto

lemma match_parts_length: "match_parts ps ss = Some caps \<Longrightarrow> length ps = length ss"
  by (induction ps ss arbitrary: caps rule: match_parts.induct) (auto split: if_splits)

lemma first_best_documented: "documented_lookup first_best"
proof -
  have "case first_best path of
        Some (t, caps) \<Rightarrow>
          t \<in> fst ` set route_table \<and> match_template t path = Some caps \<and>
          (\<forall>t' \<in> fst ` set route_table. match_template t' path \<noteq> None \<longrightarrow>
             \<not> more_static (parts_of t') (parts_of t))
      | None \<Rightarrow> \<forall>t \<in> fst ` set route_table. match_template t path = None" for path
  proof -
    define ms where "ms = filter (\<lambda>t. match_template t path \<noteq> None) (map fst route_table)"
    let ?best = "\<lambda>t. \<forall>t' \<in> set ms. \<not> more_static (parts_of t') (parts_of t)"
    have fb: "first_best path = (case find ?best ms of None \<Rightarrow> None | Some t \<Rightarrow> map_option (Pair t) (match_template t path))"
      by (simp only: first_best_def ms_def Let_def)
    have len: "length (parts_of t) = length (split_on (CHR ''/'') path)" if "t \<in> set ms" for t
      using that match_parts_length by (auto simp: ms_def match_template_def)
    have ex: "ms = []" if "find ?best ms = None"
    proof (rule ccontr)
      assume "ms \<noteq> []"
      then have "Max ((\<lambda>t. static_weight (parts_of t)) ` set ms) \<in> (\<lambda>t. static_weight (parts_of t)) ` set ms"
        by (intro Max_in) auto
      then obtain t where "t \<in> set ms" "static_weight (parts_of t) = Max ((\<lambda>t. static_weight (parts_of t)) ` set ms)"
        by auto
      then have t: "t \<in> set ms" "\<And>t'. t' \<in> set ms \<Longrightarrow> static_weight (parts_of t') \<le> static_weight (parts_of t)"
        by simp_all
      then have "?best t" using more_static_weight len by fastforce
      then show False using that t(1) by (auto simp: find_None_iff)
    qed
    show ?thesis
    proof (cases "find ?best ms")
      case None
      then have "first_best path = None" using fb by simp
      then show ?thesis using ex[OF None] by (auto simp: ms_def filter_empty_conv)
    next
      case (Some t)
      then have t: "t \<in> set ms" "?best t" by (auto simp: find_Some_iff)
      then obtain caps where c: "match_template t path = Some caps" "t \<in> fst ` set route_table" by (auto simp: ms_def)
      have "first_best path = Some (t, caps)" using Some c fb by simp
      then show ?thesis using c t(2) by (auto simp: ms_def)
    qed
  qed
  then show ?thesis by (simp add: documented_lookup_def)
qed

lemma routing_unambiguous_witness: "\<exists>lk. documented_lookup lk \<and> dispatch lk Some GET ''/v1/me'' = Handled ''users::me'' []"
proof -
  have "dispatch first_best Some GET ''/v1/me'' = dispatch first_best Some GET ''/v1/me''"
    by (rule routing_unambiguous[OF first_best_documented first_best_documented])
  moreover have "dispatch first_best Some GET ''/v1/me'' = Handled ''users::me'' []" by code_simp
  ultimately show ?thesis using first_best_documented by blast
qed

theorem links_reach_handlers_witness:
  "reaches first_best Some ''http://hc'' PUT (incoming_url empty_state ''ab12'' (''2024'' @ ''--'' @ show_int 0 @ ''--'' @ ''qlog''))
      ''ingest::upload_driving'' [''ab12'', ''2024'', show_int 0, ''qlog'']"
proof -
  have pub: "c_public_url (cfg empty_state) = ''http://hc''" by (simp add: empty_state_def demo_config_def)
  have ub: "url_base ''http://hc''" by (simp add: url_base_def)
  have parts: "url_part ''ab12''" "url_part ''2024''" "url_part ''qlog''" "url_part ''qcam''" "url_part ''a''" "url_part ''b''"
    by (simp_all add: url_part_def)
  have nd: "no_dd ''qlog''" by (rule no_dd_no_dash) simp
  have dec: "documented_decode Some" by (simp add: documented_decode_def)
  show ?thesis
    using links_reach_handlers[OF first_best_documented dec ub pub[symmetric] parts(1-4) _ nd, of 0 "''a''" "''b''"
        "new_route (fullname_of ''ab12'' ''2024'') ''ab12'' 0" "[]" "[]" "new_segment [] [] 0 0" "[]"] parts
    by (simp add: new_route_def)
qed

end
