(* ===== verification/Pipeline.thy ===== *)
theory Pipeline
  imports Router
begin

text \<open>
  A drive's video from the device to the viewer: the upload handler, the segment table, the playlist,
  the route table and the media handler together.
\<close>

section \<open>Lemmas\<close>

lemma store_keeps_device: "dongle \<in> d_dongle_id ` set (devices st) \<Longrightarrow> dongle \<in> d_dongle_id ` set (devices (fst (store d k b st)))"
proof (cases rule: store_cases[of st k d b])
  case (io e)
  assume "dongle \<in> d_dongle_id ` set (devices st)"
  moreover have "devices (fst (blob_put st k b)) = devices st"
    by (cases rule: blob_put_cases[of st k b]) (auto simp: blob_put_def blob_write_def split: if_splits)
  ultimately show ?thesis using io by simp
next
  case stored
  assume "dongle \<in> d_dongle_id ` set (devices st)"
  then show ?thesis using stored by (simp add: keys_update)
qed simp

text \<open>The row of a registered file: the one there was, or a new one, with the URL set.\<close>

lemma set_segment_file_row:
  assumes reg: "set_segment_file d t n file st = (st', Inr ())" and k: "file_kind file = Some (ty, col)"
  shows "\<exists>s. s \<in> set (segments st') \<and>
      s_route s = (case find_segment st (canonical_of d t n) of Some s0 \<Rightarrow> s_route s0 | None \<Rightarrow> fullname_of d t) \<and>
      s_number s = (case find_segment st (canonical_of d t n) of Some s0 \<Rightarrow> s_number s0 | None \<Rightarrow> n) \<and>
      url_of col s = connectdata_url (c_public_url (cfg st)) ty d t n file"
proof -
  from reg k obtain st1 where st1: "ensure_route d t st = (st1, Inr ())"
    "st' = st1\<lparr>segments := tbl_update (\<lambda>s. s_canonical_name s = canonical_of d t n)
              (set_url col (connectdata_url (c_public_url (cfg st1)) ty d t n file))
              (tbl_insert_ignore s_canonical_name
                (new_segment (canonical_of d t n) (fullname_of d t) n (now_millis st1)) (segments st1))\<rparr>"
    by (cases rule: set_segment_file_cases[of "file" d t n st]) auto
  note E = ensure_route_ok[OF st1(1)]
  let ?new = "new_segment (canonical_of d t n) (fullname_of d t) n (now_millis st)"
  define s0 where "s0 = (case find_segment st (canonical_of d t n) of Some s \<Rightarrow> s | None \<Rightarrow> ?new)"
  let ?s = "set_url col (connectdata_url (c_public_url (cfg st)) ty d t n file) s0"
  have "tbl_find s_canonical_name (canonical_of d t n) (segments st') = Some ?s"
    using tbl_find_SomeD[of s_canonical_name "canonical_of d t n" "segments st"]
    by (auto simp: s0_def find_segment_def st1(2) E tbl_find_update tbl_find_insert_ignore new_segment_def split: option.splits)
  then have "?s \<in> set (segments st')" by (rule tbl_find_SomeD[THEN conjunct1])
  then show ?thesis
    by (intro exI[of _ ?s]) (auto simp: s0_def url_of_set_url[OF k] new_segment_def split: option.split)
qed

lemma upload_video_state:
  assumes up: "upload_driving auth dongle ts n ''qcamera.ts'' body st = (st', Inr 201, job)"
    and dev: "dongle \<in> d_dongle_id ` set (devices st)"
    and row: "\<forall>s. find_segment st (canonical_of dongle ts n) = Some s \<longrightarrow> s_route s = fullname_of dongle ts \<and> s_number s = n"
  shows "blob_get st' (blob_key dongle ts n ''qcamera.ts'') = Some body" "cfg st' = cfg st"
    "\<exists>s \<in> set (segments st'). s_route s = fullname_of dongle ts \<and> s_number s = n \<and>
       s_qcam_url s = connectdata_url (c_public_url (cfg st)) ''qcam'' dongle ts n ''qcamera.ts''"
proof -
  have k: "\<not> contains_str ''qlog'' ''qcamera.ts''" "file_kind ''qcamera.ts'' = Some (''qcam'', ''qcam_url'')" by code_simp+
  obtain st1 r where s: "store dongle (blob_key dongle ts n ''qcamera.ts'') body st = (st1, r)"
    by (cases "store dongle (blob_key dongle ts n ''qcamera.ts'') body st")
  obtain st2 r2 where g: "set_segment_file dongle ts n ''qcamera.ts'' st1 = (st2, r2)"
    by (cases "set_segment_file dongle ts n ''qcamera.ts'' st1")
  obtain status where r: "r = Inr status" using up s by (auto simp: upload_driving_def split: sum.splits)
  note S = store_ok_blob[OF s[unfolded r]]
  have "dongle \<in> d_dongle_id ` set (devices st1)" using store_keeps_device[OF dev] s by (metis fst_conv)
  then have "\<exists>st1'. ensure_route dongle ts st1 = (st1', Inr ())" by (simp add: ensure_route_def Let_def)
  then have r2: "r2 = Inr ()" using g by (auto simp: set_segment_file_def k(2) Let_def)
  have st': "st' = fst (recompute_route dongle ts st2)"
    using up s g r2 by (auto simp: upload_driving_def k(1) r split: sum.splits)
  have g2: "st2 = fst (set_segment_file dongle ts n ''qcamera.ts'' st1)" using g by simp
  show "blob_get st' (blob_key dongle ts n ''qcamera.ts'') = Some body"
    by (simp add: st' recompute_route_blob g2 set_segment_file_blob S(1))
  show "cfg st' = cfg st" by (simp add: st' recompute_route_frame g2 set_segment_file_frame S(4))
  have f: "find_segment st1 m = find_segment st m" for m by (simp add: find_segment_def S(5))
  show "\<exists>s \<in> set (segments st'). s_route s = fullname_of dongle ts \<and> s_number s = n \<and>
       s_qcam_url s = connectdata_url (c_public_url (cfg st)) ''qcam'' dongle ts n ''qcamera.ts''"
    using set_segment_file_row[OF g[unfolded r2] k(2)] row
    by (auto simp: st' recompute_route_frame f S(4) url_of_def split: option.splits)
qed

lemma playlist_has_entry: "p \<in> set ps \<Longrightarrow> sublist (signed_url sig (snd p)) (playlist sig ps)"
proof -
  assume p: "p \<in> set ps"
  then obtain i where i: "i < length ps" "ps ! i = p" by (auto simp: in_set_conv_nth)
  have "\<exists>a. playlist_entry sig p = a @ signed_url sig (snd p) @ nl"
    by (cases p) (auto simp: playlist_entry_def Let_def)
  then obtain c where "entry_text sig ps i = ((if gap_before ps i then ''#EXT-X-DISCONTINUITY'' @ nl else []) @ c) @ signed_url sig (snd p) @ nl"
    by (auto simp: entry_text_def i(2))
  then obtain a b where ab: "entry_text sig ps i = a @ signed_url sig (snd p) @ b" by blast
  have "[0..<length ps] = [0..<i] @ i # [Suc i..<length ps]"
    using i(1) upt_add_eq_append[of 0 i "length ps - i"] upt_conv_Cons[of i "length ps"] by simp
  then have "playlist sig ps = (playlist_head @ concat (map (entry_text sig ps) [0..<i]) @ a) @ signed_url sig (snd p) @
      (b @ concat (map (entry_text sig ps) [Suc i..<length ps]) @ ''#EXT-X-ENDLIST'' @ nl)"
    by (simp add: playlist_exact ab)
  then show ?thesis unfolding sublist_def by blast
qed

text \<open>
  C2: a video that was uploaded can be watched. When the upload handler has answered 201 for a segment's
  qcamera file, the drive's playlist as any viewer gets it contains a link, for that segment's number,
  which the route table takes to the media handler with exactly the parts of the file that was uploaded;
  and there whoever may view the drive gets the bytes the device sent, and nobody else gets any.
\<close>

theorem uploaded_video_is_watchable:
  assumes router: "documented_lookup lk" "documented_decode dec" "url_base (c_public_url (cfg st))"
    and names: "url_part dongle" "url_part ts" "CHR ''|'' \<notin> set dongle" "is_i64 n"
    and up: "upload_driving auth dongle ts n ''qcamera.ts'' body st = (st', Inr 201, job)" "length body < 2 ^ 64"
    and dev: "dongle \<in> d_dongle_id ` set (devices st)"
    and row: "\<forall>s. find_segment st (canonical_of dongle ts n) = Some s \<longrightarrow> s_route s = fullname_of dongle ts \<and> s_number s = n"
  shows "\<exists>url. (\<forall>jl viewer ct pl. camera_m3u8 jl st' (fullname_of dongle ts) ''qcamera.m3u8'' viewer = Inr (ct, pl) \<longrightarrow>
        (\<exists>sig. sublist (signed_url sig url) pl \<and>
          reaches lk dec (c_public_url (cfg st')) GET (signed_url sig url)
            ''serve::connectdata'' [''qcam'', dongle, ts, show_int n, ''qcamera.ts''])) \<and>
      parse_i64 (show_int n) = Some n \<and>
      (\<forall>viewer. if may_view st' dongle ts viewer
         then \<exists>r. serve_blob st' dongle ts n ''qcamera.ts'' viewer None = Inr r \<and> rs_status r = 200 \<and>
           rs_content_type r = ''video/mp2t'' \<and> rs_body r = body
         else \<exists>e. serve_blob st' dongle ts n ''qcamera.ts'' viewer None = Inl e)"
proof -
  let ?url = "connectdata_url (c_public_url (cfg st)) ''qcam'' dongle ts n ''qcamera.ts''"
  note U = upload_video_state[OF up(1) dev row]
  obtain s where s: "s \<in> set (segments st')" "s_route s = fullname_of dongle ts" "s_number s = n" "s_qcam_url s = ?url"
    using U(3) by blast
  have sfx: "strip_suffix ''.m3u8'' ''qcamera.m3u8'' = Some ''qcamera''" by code_simp
  have "media_url (c_public_url (cfg st')) dongle ts ''qcamera'' s = Some ?url" using s(4) by (simp add: media_url_def)
  then have mem: "(s, ?url) \<in> set (playable_segments st' (fullname_of dongle ts) dongle ts ''qcamera'')"
    using s(1,2) by (force simp: playable_segments_def List.map_filter_def)
  have reach: "reaches lk dec (c_public_url (cfg st')) GET (signed_url sig ?url)
      ''serve::connectdata'' [''qcam'', dongle, ts, show_int n, ''qcamera.ts'']" for sig
    unfolding U(2) using router names by (intro connectdata_reaches) (simp_all add: url_part_def)
  have link: "\<exists>sig. sublist (signed_url sig ?url) pl"
    if "camera_m3u8 jl st' (fullname_of dongle ts) ''qcamera.m3u8'' viewer = Inr (ct, pl)" for jl viewer ct pl
  proof -
    from that obtain sig where "pl = playlist sig (playable_segments st' (fullname_of dongle ts) dongle ts ''qcamera'')"
      using names(3) by (auto simp: camera_m3u8_def sfx split_fullname_of split: sum.splits)
    then show ?thesis using playlist_has_entry[OF mem, of sig] by auto
  qed
  have ct: "content_type ''qcamera.ts'' = ''video/mp2t''" by code_simp
  have b: "fs_get (files_on_disk st') (path_for st' (blob_key dongle ts n ''qcamera.ts'')) = Some body"
    using U(1) by (simp add: blob_get_def)
  have "parse_range None len = None" for len by (simp add: parse_range_def)
  then have served: "if may_view st' dongle ts viewer
         then \<exists>r. serve_blob st' dongle ts n ''qcamera.ts'' viewer None = Inr r \<and> rs_status r = 200 \<and>
           rs_content_type r = ''video/mp2t'' \<and> rs_body r = body
         else \<exists>e. serve_blob st' dongle ts n ''qcamera.ts'' viewer None = Inl e" for viewer
    using serve_file_None[OF b up(2)] gate_iff[of st' dongle ts viewer] gate_closed[of st' dongle ts viewer]
    by (cases "may_view st' dongle ts viewer") (auto simp: serve_blob_def ct)
  show ?thesis using reach link served parse_i64_show_int[OF names(4)] by (intro exI[of _ ?url]) blast
qed

theorem uploaded_video_is_watchable_witness:
  "\<exists>st' job. upload_driving (demo_auth ''ab12'') ''ab12'' ''2024'' 0 ''qcamera.ts'' ''video'' demo_device_state = (st', Inr 201, job) \<and>
    (\<exists>r. serve_blob st' ''ab12'' ''2024'' 0 ''qcamera.ts'' (Some (demo_auth ''ab12'')) None = Inr r \<and> rs_body r = ''video'')"
proof -
  let ?up = "upload_driving (demo_auth ''ab12'') ''ab12'' ''2024'' 0 ''qcamera.ts'' ''video'' demo_device_state"
  have "fst (snd ?up) = Inr 201"
    by code_simp
  then obtain st' job where up: "?up = (st', Inr 201, job)" by (metis surjective_pairing)
  have dec: "documented_decode Some" by (simp add: documented_decode_def)
  have "load_device (fst ?up) ''ab12'' \<noteq> None"
    by code_simp
  then have "load_device st' ''ab12'' \<noteq> None" using up by simp
  then have may: "may_view st' ''ab12'' ''2024'' (Some (demo_auth ''ab12''))"
    by (auto simp: may_view_def demo_auth_def demo_device_def)
  have "url_base (c_public_url (cfg demo_device_state))"
    by (simp add: url_base_def demo_device_state_def empty_state_def demo_config_def)
  moreover have "url_part ''ab12''" "url_part ''2024''" by (simp_all add: url_part_def)
  moreover have "is_i64 0" by (simp add: is_i64_def i64_min_def i64_max_def)
  moreover have "''ab12'' \<in> d_dongle_id ` set (devices demo_device_state)"
    by (simp add: demo_device_state_def demo_device_def)
  moreover have "find_segment demo_device_state m = None" for m
    by (simp add: demo_device_state_def empty_state_def find_segment_def tbl_find_def)
  ultimately show ?thesis
    using uploaded_video_is_watchable[OF first_best_documented dec, of demo_device_state "''ab12''" "''2024''" 0, OF _ _ _ _ _ up] up may
    by (auto split: if_splits)
qed

section \<open>What a playlist's links lead to\<close>

text \<open>
  The media handlers behind the route table, with axum's reading of the segment number, and a player's
  request for a URL of this server: the path, the template, the handler.
\<close>

definition media_handler ::
    "media_os \<Rightarrow> app_state \<Rightarrow> string \<Rightarrow> string list \<Rightarrow> auth option \<Rightarrow> string option \<Rightarrow> response res option" where
  "media_handler os st h args auth hdr =
     (case args of
        [ty, dongle, ts, n, file] \<Rightarrow>
          if h = ''serve::connectdata'' then map_option (\<lambda>n. serve_blob st dongle ts n file auth hdr) (parse_i64 n)
          else None
      | [dongle, ts, n, file] \<Rightarrow>
          if h = ''serve::transcode''
          then map_option (\<lambda>n. snd (serve_transcode os dongle ts n file auth hdr st)) (parse_i64 n)
          else if h = ''serve::audio'' then map_option (\<lambda>n. snd (serve_audio os dongle ts n auth hdr st)) (parse_i64 n)
          else None
      | _ \<Rightarrow> None)"

definition get_url ::
    "(string \<Rightarrow> (string \<times> string list) option) \<Rightarrow> (string \<Rightarrow> string option) \<Rightarrow> media_os \<Rightarrow> app_state \<Rightarrow> string \<Rightarrow>
     auth option \<Rightarrow> string option \<Rightarrow> response res option" where
  "get_url lk dec os st url auth hdr =
     (case request_path (c_public_url (cfg st)) url of
        None \<Rightarrow> None
      | Some path \<Rightarrow>
          (case dispatch lk dec GET path of Handled h args \<Rightarrow> media_handler os st h args auth hdr | _ \<Rightarrow> None))"

text \<open>
  The bytes a link of a camera's playlist stands for: the stored file of the qcamera, otherwise what the
  cache has, or what the tools make, of that segment.
\<close>

definition segment_media :: "media_os \<Rightarrow> app_state \<Rightarrow> string \<Rightarrow> string \<Rightarrow> string \<Rightarrow> string \<Rightarrow> int \<Rightarrow> string option" where
  "segment_media os st dongle ts camera file n =
     (let (st1, r) =
            (if camera = ''qcamera'' then (st, Inr (path_for st (blob_key dongle ts n file)))
             else if camera = ''audio'' then ensure_audio os dongle ts n st
             else ensure_transcode os dongle ts n camera st)
      in case r of Inl e \<Rightarrow> None | Inr path \<Rightarrow> fs_get (files_on_disk st1) path)"

lemma strip_suffix_append: "strip_suffix x (s @ x) = Some s"
  by (simp add: strip_suffix_def suffix_def)

lemma reaches_get_url:
  "reaches lk dec (c_public_url (cfg st)) GET url h args \<Longrightarrow> get_url lk dec os st url auth hdr = media_handler os st h args auth hdr"
  by (auto simp: reaches_def get_url_def)

lemma playable_segmentsD:
  assumes "(s, url) \<in> set (playable_segments st fullname dongle ts camera)"
  shows "s \<in> set (segments st)" "s_route s = fullname" "media_url (c_public_url (cfg st)) dongle ts camera s = Some url"
  using assms by (auto simp: playable_segments_def List.map_filter_def)

lemma whole_file:
  assumes "fs_get (files_on_disk st) path = Some c" "length c < 2 ^ 64"
  shows "\<exists>r. serve_file st path ct None = Inr r \<and> rs_status r = 200 \<and> rs_body r = c"
  using serve_file_None[OF assms, of None ct] by (auto simp: parse_range_def)

text \<open>A link of the playlist, asked for by anyone: refused at the gate, or answered with its bytes.\<close>

definition answers_for_media :: "response res \<Rightarrow> bool \<Rightarrow> string option \<Rightarrow> bool" where
  "answers_for_media x allowed media \<longleftrightarrow>
     (if allowed
      then \<forall>c. media = Some c \<and> length c < 2 ^ 64 \<longrightarrow> (\<exists>r. x = Inr r \<and> rs_status r = 200 \<and> rs_body r = c)
      else \<exists>e. x = Inl e \<and> fst (into_response e) \<in> {401, 403})"

lemma gate_refuses:
  "\<not> may_view st dongle ts v \<Longrightarrow>
   \<exists>e. check_route_access st (fullname_of dongle ts) dongle v = Inl e \<and> fst (into_response e) \<in> {401, 403}"
  using gate_closed[of st dongle ts v] by auto

lemma blob_answers:
  "answers_for_media (serve_blob st dongle ts n file v None) (may_view st dongle ts v)
     (segment_media os st dongle ts ''qcamera'' file n)"
  using gate_iff[of st dongle ts v] gate_refuses[of st dongle ts v]
  by (auto simp: answers_for_media_def segment_media_def serve_blob_def whole_file)

lemma audio_answers:
  "answers_for_media (snd (serve_audio os dongle ts n v None st)) (may_view st dongle ts v)
     (segment_media os st dongle ts ''audio'' file n)"
  using gate_iff[of st dongle ts v] gate_refuses[of st dongle ts v]
  by (auto simp: answers_for_media_def segment_media_def serve_audio_def whole_file split: prod.split sum.split)

lemma transcode_answers:
  assumes "camera \<noteq> ''qcamera''" "camera \<noteq> ''audio''"
  shows "answers_for_media (snd (serve_transcode os dongle ts n (camera @ ''.ts'') v None st)) (may_view st dongle ts v)
     (segment_media os st dongle ts camera file n)"
  using gate_iff[of st dongle ts v] gate_refuses[of st dongle ts v] assms strip_suffix_append[of "''.ts''" camera]
  by (auto simp: answers_for_media_def segment_media_def serve_transcode_def whole_file split: prod.split sum.split)

text \<open>A drive with one stored segment, looked at by its device and by an administrator.\<close>

definition demo_watch_segment :: segment where
  "demo_watch_segment = (new_segment (canonical_of ''ab12'' ''t'' 0) (fullname_of ''ab12'' ''t'') 0 0)
     \<lparr>s_qcam_url := connectdata_url (c_public_url demo_config) ''qcam'' ''ab12'' ''t'' 0 ''qcamera.ts''\<rparr>"

definition demo_watch_state :: app_state where
  "demo_watch_state = demo_device_state\<lparr>segments := [demo_watch_segment],
     files_on_disk := [(path_for demo_device_state (blob_key ''ab12'' ''t'' 0 ''qcamera.ts''), ''video'')]\<rparr>"

text \<open>
  C34: a playlist does not promise its segments. The playlist a caller gets, of any camera or of the audio,
  lists the drive's segments, each with a link which the route table takes to its media handler. Whoever
  asks for such a link may view the drive, and is answered 200 with the bytes of that segment (the stored
  file, or what the cache has or the tools make of it, if they make anything), or may not, and is refused
  with 401 or 403. And a logged-in caller who got the playlist may view the drive exactly when it is public or
  the caller owns or shares the device: an administrator of somebody else's device gets the playlist, and
  a refusal for every link in it. (The segment numbers are 64-bit, and the stored qcamera URLs
  those that registering a file writes.)
\<close>

theorem playlist_playable_iff:
  assumes router: "documented_lookup lk" "documented_decode dec" "url_base (c_public_url (cfg st))"
    and names: "url_part dongle" "url_part ts" "CHR ''|'' \<notin> set dongle"
    and rows: "\<And>s. s \<in> set (segments st) \<Longrightarrow> s_route s = fullname_of dongle ts \<Longrightarrow> is_i64 (s_number s) \<and> url_part (qfile s) \<and>
      s_qcam_url s \<in> {[], connectdata_url (c_public_url (cfg st)) ''qcam'' dongle ts (s_number s) (qfile s)}"
    and playlist: "camera_m3u8 jl st (fullname_of dongle ts) (camera @ ''.m3u8'') caller = Inr (ct, pl)"
  shows "\<exists>sig. pl = playlist sig (playable_segments st (fullname_of dongle ts) dongle ts camera) \<and>
    (\<forall>(s, url) \<in> set (playable_segments st (fullname_of dongle ts) dongle ts camera).
       sublist (signed_url sig url) pl \<and>
       (\<forall>viewer. \<exists>x. get_url lk dec os st (signed_url sig url) viewer None = Some x \<and>
          answers_for_media x (may_view st dongle ts viewer)
            (segment_media os st dongle ts camera (qfile s) (s_number s)))) \<and>
    (\<forall>a u d. caller = Some a \<and> a_device a = None \<and> a_user a = Some u \<and> load_device st dongle = Some d \<longrightarrow>
       (may_view st dongle ts caller \<longleftrightarrow> route_public st (fullname_of dongle ts) \<or> owns_or_shared st u d) \<and>
       (\<not> may_view st dongle ts caller \<longrightarrow> u_is_admin u \<noteq> 0))"
proof -
  have sfx: "strip_suffix ''.m3u8'' (camera @ ''.m3u8'') = Some camera" by (rule strip_suffix_append)
  have view: "allow_route_view st (fullname_of dongle ts) dongle caller = Inr ()"
    using playlist names(3) by (auto simp: camera_m3u8_def sfx split_fullname_of split: sum.splits)
  obtain sig where pl: "pl = playlist sig (playable_segments st (fullname_of dongle ts) dongle ts camera)"
    using playlist names(3) by (auto simp: camera_m3u8_def sfx split_fullname_of split: sum.splits)
  have link: "\<exists>x. get_url lk dec os st (signed_url sig url) v None = Some x \<and>
      answers_for_media x (may_view st dongle ts v) (segment_media os st dongle ts camera (qfile s) (s_number s))"
    if s: "(s, url) \<in> set (playable_segments st (fullname_of dongle ts) dongle ts camera)" for s url v
  proof -
    note S = playable_segmentsD[OF s]
    have row: "is_i64 (s_number s)" "url_part (qfile s)"
      "s_qcam_url s \<in> {[], connectdata_url (c_public_url (cfg st)) ''qcam'' dongle ts (s_number s) (qfile s)}"
      using rows[OF S(1,2)] by auto
    note n = parse_i64_show_int[OF row(1)]
    show ?thesis
    proof (cases "camera = ''qcamera''")
      case True
      then have "url = connectdata_url (c_public_url (cfg st)) ''qcam'' dongle ts (s_number s) (qfile s)"
        using S(3) row(3) by (auto simp: media_url_def split: if_splits)
      then have "reaches lk dec (c_public_url (cfg st)) GET (signed_url sig url) ''serve::connectdata''
          [''qcam'', dongle, ts, show_int (s_number s), qfile s]"
        using router names(1,2) row(2) by (simp only:) (intro connectdata_reaches, simp_all add: url_part_def)
      from reaches_get_url[OF this] show ?thesis using True blob_answers by (simp add: media_handler_def n)
    next
      case False
      note R = reaches_get_url[OF media_url_reaches[OF router names(1,2) S(3) False]]
      show ?thesis
      proof (cases "camera = ''audio''")
        case True
        then show ?thesis using R audio_answers by (simp add: media_handler_def n)
      next
        case f: False
        then show ?thesis using R transcode_answers[OF False f] by (simp add: media_handler_def n)
      qed
    qed
  qed
  have who: "(may_view st dongle ts caller \<longleftrightarrow> route_public st (fullname_of dongle ts) \<or> owns_or_shared st u d) \<and>
      (\<not> may_view st dongle ts caller \<longrightarrow> u_is_admin u \<noteq> 0)"
    if "caller = Some a" "a_device a = None" "a_user a = Some u" "load_device st dongle = Some d" for a u d
    using view that by (auto simp: may_view_def allow_route_view_def can_manage_loaded_iff split: if_splits)
  show ?thesis
    using link who playlist_has_entry[of _ _ sig] by (intro exI[of _ sig]) (force simp: pl)
qed

theorem playlist_playable_iff_witness:
  "\<exists>pl sig url x. camera_m3u8 demo_jwt demo_watch_state (fullname_of ''ab12'' ''t'') (''qcamera'' @ ''.m3u8'') (Some demo_admin_auth) =
      Inr (''application/vnd.apple.mpegurl'', pl) \<and> sublist (signed_url sig url) pl \<and>
    get_url first_best Some demo_media demo_watch_state (signed_url sig url) (Some demo_admin_auth) None = Some (Inl x) \<and>
    fst (into_response x) \<in> {401, 403} \<and>
    (\<exists>r. get_url first_best Some demo_media demo_watch_state (signed_url sig url) (Some (demo_auth ''ab12'')) None = Some (Inr r) \<and>
      rs_body r = ''video'')"
proof -
  let ?st = demo_watch_state
  let ?url = "connectdata_url (c_public_url (cfg ?st)) ''qcam'' ''ab12'' ''t'' 0 ''qcamera.ts''"
  have st: "segments ?st = [demo_watch_segment]" "devices ?st = [demo_device ''ab12'']" "routes ?st = []" "authorized_users ?st = []"
    "cfg ?st = demo_config"
    by (simp_all add: demo_watch_state_def demo_device_state_def empty_state_def)
  have dev: "load_device ?st ''ab12'' = Some (demo_device ''ab12'')"
    by (simp add: load_device_def st demo_device_def tbl_find_def)
  have priv: "\<not> route_public ?st (fullname_of ''ab12'' ''t'')"
    by (simp add: route_public_def find_route_def st)
  have own: "\<not> owns_or_shared ?st demo_admin (demo_device ''ab12'')"
    by (simp add: owns_or_shared_def st demo_device_def demo_admin_def)
  have "allow_route_view ?st (fullname_of ''ab12'' ''t'') ''ab12'' (Some demo_admin_auth) = Inr ()"
    using dev priv by (simp add: allow_route_view_def demo_admin_auth_def demo_admin_def can_manage_loaded_def)
  then obtain pl where
    pl: "camera_m3u8 demo_jwt ?st (fullname_of ''ab12'' ''t'') (''qcamera'' @ ''.m3u8'') (Some demo_admin_auth) =
      Inr (''application/vnd.apple.mpegurl'', pl)"
    using split_fullname_of[of "''ab12''" "''t''"] strip_suffix_append[of "''.m3u8''" "''qcamera''"]
    by (simp add: camera_m3u8_def viewer_sig_def demo_admin_auth_def issue_hs512_ttl_def demo_jwt_def)
  have base: "url_base (c_public_url (cfg ?st))" by (simp add: st demo_config_def url_base_def)
  have names: "url_part ''ab12''" "url_part ''t''" "url_part ''qcamera.ts''" by (simp_all add: url_part_def)
  have dec: "documented_decode Some" by (simp add: documented_decode_def)
  have rows: "is_i64 (s_number s) \<and> url_part ''qcamera.ts'' \<and>
      s_qcam_url s \<in> {[], connectdata_url (c_public_url (cfg ?st)) ''qcam'' ''ab12'' ''t'' (s_number s) ''qcamera.ts''}"
    if "s \<in> set (segments ?st)" for s
    using that names(3) by (simp add: st demo_watch_segment_def new_segment_def is_i64_def i64_min_def i64_max_def)
  have mem: "(demo_watch_segment, ?url) \<in> set (playable_segments ?st (fullname_of ''ab12'' ''t'') ''ab12'' ''t'' ''qcamera'')"
    by (simp add: playable_segments_def st media_url_def demo_watch_segment_def new_segment_def List.map_filter_def
        connectdata_url_def demo_config_def)
  have no: "\<not> may_view ?st ''ab12'' ''t'' (Some demo_admin_auth)"
    using dev priv own by (simp add: may_view_def demo_admin_auth_def)
  have yes: "may_view ?st ''ab12'' ''t'' (Some (demo_auth ''ab12''))"
    using dev by (simp add: may_view_def demo_auth_def demo_device_def)
  have media: "segment_media demo_media ?st ''ab12'' ''t'' ''qcamera'' ''qcamera.ts'' (s_number demo_watch_segment) = Some ''video''"
    by code_simp
  note P = playlist_playable_iff[OF first_best_documented dec base names(1,2) _ _ pl, where qfile = "\<lambda>_. ''qcamera.ts''" and os = demo_media]
  obtain sig where sig: "sublist (signed_url sig ?url) pl"
    "\<And>v. \<exists>x. get_url first_best Some demo_media ?st (signed_url sig ?url) v None = Some x \<and>
       answers_for_media x (may_view ?st ''ab12'' ''t'' v) (Some ''video'')"
    using P mem rows media by fastforce
  show ?thesis
    using pl sig(1) sig(2)[of "Some demo_admin_auth"] sig(2)[of "Some (demo_auth ''ab12'')"] no yes
    by (fastforce simp: answers_for_media_def)
qed

end
