(* ===== verification/Upkeep.thy ===== *)
theory Upkeep
  imports Browse Manage SettingsApi SyncApi DeviceParams DeviceUpdate ModelSelect Onboard Cli
begin

text \<open>
  What every part of the server does to the database, once and for all: the locale
  \<open>upkeep\<close> lists the elementary writes that the code outside the account and registration endpoints
  consists of (files, the in-memory parts, the tables without references, single columns of device,
  route and segment rows, new routes and segments, deleted routes), and a property that survives each of
  them survives every upload, log parse, sync, media, retention, deletion and settings operation,
  whatever the tools and the devices answer and whatever other requests do in between.
\<close>

locale upkeep =
  fixes I :: "app_state \<Rightarrow> bool"
  assumes sound: "I st \<Longrightarrow> db_ok st"
    and set_files: "I st \<Longrightarrow> I (st\<lparr>files_on_disk := fs\<rparr>)"
    and set_memory: "I st \<Longrightarrow> I (st\<lparr>now_millis := now, connections := c, syncing := s, queue := q, movie_q := m\<rparr>)"
    and set_settings: "I st \<Longrightarrow> tbl_ok fst ss \<Longrightarrow> I (st\<lparr>settings_tbl := ss\<rparr>)"
    and set_movies: "I st \<Longrightarrow> tbl_ok movie_pk ms \<Longrightarrow> I (st\<lparr>movies_tbl := ms\<rparr>)"
    and set_subs: "I st \<Longrightarrow> tbl_ok sb_fullname sb \<Longrightarrow> I (st\<lparr>subs_tbl := sb\<rparr>)"
    and set_params: "I st \<Longrightarrow> tbl_ok param_pk ps \<Longrightarrow> I (st\<lparr>device_params_tbl := ps\<rparr>)"
    and edit_device: "I st \<Longrightarrow> (\<And>d. d_dongle_id (fd d) = d_dongle_id d) \<Longrightarrow> (\<And>d. d_owner_id (fd d) = d_owner_id d) \<Longrightarrow>
          I (st\<lparr>devices := tbl_update pd fd (devices st)\<rparr>)"
    and edit_route: "I st \<Longrightarrow> (\<And>r. r_fullname (fr r) = r_fullname r) \<Longrightarrow>
          (\<And>r. r_device_dongle_id (fr r) = r_device_dongle_id r) \<Longrightarrow> I (st\<lparr>routes := tbl_update pr fr (routes st)\<rparr>)"
    and edit_segment: "I st \<Longrightarrow> (\<And>s. s_canonical_name (fg s) = s_canonical_name s) \<Longrightarrow> (\<And>s. s_route (fg s) = s_route s) \<Longrightarrow>
          (\<And>s. s_number (fg s) = s_number s) \<Longrightarrow> I (st\<lparr>segments := tbl_update pg fg (segments st)\<rparr>)"
    and new_route: "I st \<Longrightarrow> fullname_of d t \<notin> r_fullname ` set (routes st) \<Longrightarrow> d \<in> d_dongle_id ` set (devices st) \<Longrightarrow>
          I (st\<lparr>routes := routes st @ [new_route (fullname_of d t) d created]\<rparr>)"
    and new_segment: "I st \<Longrightarrow> s_route sg \<in> r_fullname ` set (routes st) \<Longrightarrow>
          s_canonical_name sg = s_route sg @ ''--'' @ show_int (s_number sg) \<Longrightarrow>
          s_canonical_name sg \<notin> s_canonical_name ` set (segments st) \<Longrightarrow> I (st\<lparr>segments := segments st @ [sg]\<rparr>)"
    and drop_segments: "I st \<Longrightarrow> I (st\<lparr>segments := tbl_delete pg (segments st)\<rparr>)"
    and drop_route: "I st \<Longrightarrow> (\<forall>s \<in> set (segments st). s_route s \<noteq> n) \<Longrightarrow>
          I (st\<lparr>routes := tbl_delete (\<lambda>r. r_fullname r = n) (routes st)\<rparr>)"
begin

text \<open>Files.\<close>

lemma by_files: "only_files st st' \<Longrightarrow> I st \<Longrightarrow> I st'"
  unfolding only_files_def using set_files by metis

lemma by_touches: "touches P st st' \<Longrightarrow> I st \<Longrightarrow> I st'"
  by (auto simp: touches_def intro: by_files)

lemma keep_remove: "I st \<Longrightarrow> I (remove_file p st)"
  by (simp add: remove_file_def set_files)

lemma keep_blob_delete: "I st \<Longrightarrow> I (blob_delete k st)"
  by (simp add: blob_delete_def keep_remove)

lemma keep_blob_put: "I st \<Longrightarrow> I (fst (blob_put st k v))"
  by (auto simp: blob_put_def blob_write_def set_files)

lemma keep_cleanup: "I st \<Longrightarrow> I (cleanup dir st)"
  by (simp add: cleanup_def set_files)

lemma keep_ssh: "I st \<Longrightarrow> I (fst (ssh_run os a c st))"
  by (rule by_files) (rule ssh_run_files)

lemma keep_public_key: "I st \<Longrightarrow> I (fst (public_key os st))"
  unfolding public_key_def by (rule by_files) (rule ensure_keypair_files)

lemma keep_ffmpeg: "I st \<Longrightarrow> I (fst (run_ffmpeg os args st))"
  by (rule by_touches[OF touches_ffmpeg[where P = UNIV]]) simp

lemma keep_transcode: "I st \<Longrightarrow> I (fst (ensure_transcode os d t n cam st))" "I st \<Longrightarrow> I (fst (ensure_audio os d t n st))"
  using by_touches[OF touches_ensure[where P = UNIV]] by_touches[OF touches_ensure_audio[where P = UNIV]] by simp_all

text \<open>Memory, settings and the tables without references.\<close>

lemma keep_memory:
  "I st \<Longrightarrow> I (st\<lparr>connections := c\<rparr>)" "I st \<Longrightarrow> I (st\<lparr>syncing := s\<rparr>)" "I st \<Longrightarrow> I (st\<lparr>queue := q\<rparr>)"
  "I st \<Longrightarrow> I (st\<lparr>movie_q := m\<rparr>)" "I st \<Longrightarrow> I (st\<lparr>now_millis := t\<rparr>)"
proof -
  assume st: "I st"
  show "I (st\<lparr>connections := c\<rparr>)" using set_memory[OF st, of "movie_q st" "queue st" "syncing st" c "now_millis st"] by simp
  show "I (st\<lparr>syncing := s\<rparr>)" using set_memory[OF st, of "movie_q st" "queue st" s "connections st" "now_millis st"] by simp
  show "I (st\<lparr>queue := q\<rparr>)" using set_memory[OF st, of "movie_q st" q "syncing st" "connections st" "now_millis st"] by simp
  show "I (st\<lparr>movie_q := m\<rparr>)" using set_memory[OF st, of m "queue st" "syncing st" "connections st" "now_millis st"] by simp
  show "I (st\<lparr>now_millis := t\<rparr>)" using set_memory[OF st, of "movie_q st" "queue st" "syncing st" "connections st" t] by simp
qed

lemma tables: "I st \<Longrightarrow> tbl_ok fst (settings_tbl st)" "I st \<Longrightarrow> tbl_ok movie_pk (movies_tbl st)"
  "I st \<Longrightarrow> tbl_ok sb_fullname (subs_tbl st)" "I st \<Longrightarrow> tbl_ok param_pk (device_params_tbl st)"
  using sound keys_okD by (auto simp: db_ok_def)

lemma keep_setting: "I st \<Longrightarrow> I (settings_set k v st)"
  by (simp add: settings_set_def set_settings tables tbl_ok_upsert)

lemma keep_flags: "I st \<Longrightarrow> I (set_setting_flag k b st)" "I st \<Longrightarrow> I (set_setting_u64 k n st)"
  by (simp_all add: set_setting_flag_def set_setting_u64_def keep_setting)

lemma by_settings_only: "settings_only ev \<Longrightarrow> (\<And>st. tbl_ok fst (settings_tbl st) \<Longrightarrow> tbl_ok fst (settings_tbl (ev st))) \<Longrightarrow> I st \<Longrightarrow> I (ev st)"
  unfolding settings_only_def using set_settings tables(1) by metis

lemma keep_sweep: "I st \<Longrightarrow> I (request_sweep st)"
  by (simp add: request_sweep_def keep_memory)

lemma keep_movie_q: "I st \<Longrightarrow> I (on_movie_q f st)"
  by (simp add: on_movie_q_def keep_memory)

lemma keep_movie_rows:
  "I st \<Longrightarrow> I (record_movie f c n b dur st)" "I st \<Longrightarrow> I (movie_delete d t c st)" "I st \<Longrightarrow> I (movie_disable d t c st)"
  "I st \<Longrightarrow> I (movie_start st)"
  using keep_blob_delete tables(2)
  by (auto simp: record_movie_def movie_delete_def movie_disable_def movie_start_def Let_def movie_pk_def
      intro!: set_movies tbl_ok_upsert tbl_ok_delete)

lemma keep_subs_rows:
  "I st \<Longrightarrow> I (record_subs f n c b st)" "I st \<Longrightarrow> I (subs_delete d t st)" "I st \<Longrightarrow> I (subs_disable d t st)"
  "I st \<Longrightarrow> I (subs_start st)"
  using keep_blob_delete tables(3)
  by (auto simp: record_subs_def subs_delete_def subs_disable_def subs_start_def Let_def
      intro!: set_subs tbl_ok_upsert tbl_ok_delete)

lemma keep_fold: "(\<And>x s. I s \<Longrightarrow> I (f x s)) \<Longrightarrow> I st \<Longrightarrow> I (fold f xs st)"
  by (rule fold_keeps[where P = I])

lemma keep_reencode: "I st \<Longrightarrow> I (fst (reencode_all st))" "I st \<Longrightarrow> I (fst (rebuild_all st))"
proof -
  assume st: "I st"
  have 1: "I (fold delete_movie_blob rows st)" "I (fold delete_subs_blob rows' st)" for rows rows'
    by (rule keep_fold[OF _ st]; auto simp: delete_movie_blob_def delete_subs_blob_def keep_blob_delete split: option.split prod.split)+
  then show "I (fst (reencode_all st))" "I (fst (rebuild_all st))"
    using tables(2,3) by (auto simp: reencode_all_def rebuild_all_def Let_def intro!: keep_sweep set_movies set_subs tbl_ok_delete)
qed

text \<open>The movie and subtitle builders, with other requests \<open>ev\<close> in between.\<close>

lemma keep_chunks:
  assumes "\<And>off s. I (fst s) \<Longrightarrow> I (fst (fst (body off s)))" "chunk_loop body len off s = Some r" "I (fst s)"
  shows "I (fst (fst r))"
  using assms by (rule chunk_loop_invariant[where I = "\<lambda>s. I (fst s)"])

lemma keep_wavs:
  "I st \<Longrightarrow> I (fst (extract_wav os rate ps lead out st))" "I st \<Longrightarrow> I (fst (slice_wav os src a b out st))"
  "I st \<Longrightarrow> I (fst (resample_wav os src out st))"
  by (simp_all add: extract_wav_def slice_wav_def resample_wav_def split_beta Let_def keep_ffmpeg)

lemma keep_build_wav: "build_wav os ht ps lead dir st = Some (st', r) \<Longrightarrow> I st \<Longrightarrow> I st'"
  by (rule by_touches) (rule build_wav_touches)

lemma keep_run: "\<forall>x. I x \<longrightarrow> I (ev x) \<Longrightarrow> I st \<Longrightarrow> I (fst (movie_run os ev args st))"
  by (simp add: movie_run_def split_beta Let_def keep_ffmpeg)

lemma keep_encode:
  assumes ev: "\<forall>x. I x \<longrightarrow> I (ev x)" and st: "I st"
  shows "I (fst (movie_encode os ev s v a audio lead tmp st))"
  using keep_run[OF ev st] keep_run[OF ev keep_remove[OF keep_run[OF ev st]]] keep_run[OF ev keep_run[OF ev st]] keep_remove[OF keep_run[OF ev st]] st
  by (auto simp: movie_encode_def split_beta Let_def split: option.split)

lemma keep_finish: "I st \<Longrightarrow> I (fst (movie_finish os f c n tmp out ok st))"
  by (auto simp: movie_finish_def Let_def intro!: keep_movie_rows keep_remove set_files)

lemma keep_movie_build:
  assumes ev: "\<forall>x. I x \<longrightarrow> I (ev x)" and run: "movie_build os ht ev d t cam st = Some (st', r)" and st: "I st"
  shows "I st'"
proof -
  have fin: "I (fst (movie_finish os f c n tmp out ok (cleanup w (fst (movie_encode os ev s v a audio lead tmp' st1)))))"
    if "I st1" for st1 f c n tmp out ok w s v a audio lead tmp'
    by (intro keep_finish keep_cleanup keep_encode ev that)
  show ?thesis
    using run st keep_build_wav[of os ht] fin
    by (auto simp: movie_build_def Let_def split_beta keep_movie_rows split: option.splits sum.splits if_splits)
      (metis fst_conv)+
qed

lemma keep_movie_builds:
  assumes ev: "\<forall>x. I x \<longrightarrow> I (ev x)"
  shows "movie_builds os ht ev todo st = Some st' \<Longrightarrow> I st \<Longrightarrow> I st'"
proof (induction todo arbitrary: st)
  case (Cons w todo)
  obtain d t cam where w: "w = (d, t, cam)" by (cases w)
  show ?case
    using Cons keep_movie_build[OF ev] keep_movie_q
    by (auto simp: w split: if_splits option.splits)
qed simp

lemma keep_movie_turn:
  assumes "\<forall>x. I x \<longrightarrow> I (ev x)" "movie_turn os ht ev st = Some (st', n)" "I st"
  shows "I st'"
  using assms(2,3) keep_movie_builds[OF assms(1)] keep_movie_q
  by (auto simp: movie_turn_def movie_sweep_def Let_def split: if_splits)

lemma keep_subs_chunk:
  assumes ev: "\<forall>x. I x \<longrightarrow> I (ev x)" and s: "I (fst s)"
  shows "I (fst (fst (subs_chunk os ht ev f url n dir off s)))"
  using ev[rule_format, OF s] keep_wavs(2)
  by (auto simp: subs_chunk_def Let_def split_beta intro!: keep_cleanup keep_remove keep_subs_rows split: sum.split)

lemma keep_subs_store: "I st \<Longrightarrow> I (fst (subs_store f d t n cues st))"
  using keep_blob_put[of st] by (auto simp: subs_store_def Let_def split_beta intro!: keep_subs_rows split: sum.split prod.split)

lemma keep_subs_transcribe:
  assumes ev: "\<forall>x. I x \<longrightarrow> I (ev x)" and run: "subs_transcribe os ht ev d t n dir st = Some (st', r)" and st: "I st"
  shows "I st'"
proof -
  have loop: "chunk_loop (subs_chunk os ht ev f url n dir) len f_zero (st, []) = Some ((st1, cues), e) \<Longrightarrow> I st1" for f url len st1 cues e
    using keep_chunks[of "subs_chunk os ht ev f url n dir" len f_zero "(st, [])"] keep_subs_chunk[OF ev] st by force
  then have "chunk_loop (subs_chunk os ht ev f url n dir) len f_zero (st, []) = Some ((st1, cues), e) \<Longrightarrow>
      I (fst (subs_store g d t n cues' (cleanup w st1)))" for f url len st1 cues e g cues' w
    by (intro keep_subs_store keep_cleanup) blast
  then show ?thesis
    using run st loop
    by (auto simp: subs_transcribe_def Let_def keep_cleanup split: if_splits option.splits flow.splits) (metis fst_conv)+
qed

lemma keep_subs_audio: "I st \<Longrightarrow> I (fst (subs_audio os ps lead dir clean st))"
  using keep_wavs by (auto simp: subs_audio_def Let_def split_beta intro!: keep_cleanup split: option.split)

lemma keep_subs_build:
  assumes ev: "\<forall>x. I x \<longrightarrow> I (ev x)" and run: "subs_build os ht ev d t st = Some (st', r)" and st: "I st"
  shows "I st'"
proof -
  have "I (fst (subs_audio os ps lead dir clean st1))" if "I st1" for ps lead dir clean st1 by (rule keep_subs_audio[OF that])
  then show ?thesis
    using run st keep_build_wav[of os ht] keep_subs_transcribe[OF ev] keep_cleanup keep_subs_rows(1)
    by (auto simp: subs_build_def Let_def split_beta split: option.splits if_splits)
qed

lemma keep_subs_builds:
  assumes ev: "\<forall>x. I x \<longrightarrow> I (ev x)"
  shows "subs_builds os ht ev rows rest st = Some st' \<Longrightarrow> I st \<Longrightarrow> I st'"
proof (induction rest arbitrary: st)
  case (Cons w rest)
  obtain r cov where w: "w = (r, cov)" by (cases w)
  show ?case
    using Cons keep_subs_build[OF ev] by (auto simp: w split: if_splits option.splits prod.splits)
qed simp

lemma keep_subs_turn:
  assumes "\<forall>x. I x \<longrightarrow> I (ev x)" "subs_turn os ht ev st = Some (st', n)" "I st"
  shows "I st'"
  using assms(2,3) keep_subs_builds[OF assms(1)]
  by (auto simp: subs_turn_def subs_sweep_def split: if_splits)

text \<open>Conversations with a device.\<close>

lemma by_talks: "talks addr P s s' \<Longrightarrow> I (fst s) \<Longrightarrow> I (fst s')"
  unfolding talks_def by (blast intro: by_files)

lemma keep_link: "I (fst s) \<Longrightarrow> I (fst (fst (link_run lk addr cmd s)))"
  using by_talks[OF link_run_talks[of cmd UNIV]] by simp

lemma keep_param_write: "I (fst s) \<Longrightarrow> I (fst (fst (param_write lk addr k v s)))"
  by (rule by_talks[OF param_write_facts(1)])

lemma keep_param_rows: "I st \<Longrightarrow> I (cache_set d k v st)" "I st \<Longrightarrow> I (clear_pending d k st)" "I st \<Longrightarrow> I (store_actual d kv st)"
  using tables(4)
  by (auto simp: cache_set_def clear_pending_def store_actual_def param_pk_def intro!: set_params tbl_ok_upsert tbl_ok_update)
    (auto simp: tbl_ok_update param_pk_def)

lemma keep_refresh: "I (fst s) \<Longrightarrow> I (fst (fst (refresh lk d addr s)))"
proof -
  assume s: "I (fst s)"
  obtain s1 r where "read_all lk addr s = (s1, r)" by fastforce
  moreover from this have "I (fst s1)"
    using s keep_link[of s lk addr read_all_cmd] by (auto simp: read_all_def split: prod.splits sum.splits)
  ultimately show ?thesis
    by (auto simp: refresh_def intro!: keep_fold keep_param_rows split: sum.split)
qed

lemma keep_flush:
  assumes ev: "\<forall>x. I x \<longrightarrow> I (ev x)" and s: "I (fst s)"
  shows "I (fst (fst (flush lk ev d addr s)))"
proof -
  have row: "I (fst (fst (flush_row lk ev d addr kv c)))" if "I (fst (fst c))" for kv c
    using that ev keep_param_write[of "fst c" lk addr "fst kv" "snd kv"] keep_param_rows(2)
    by (auto simp: flush_row_def split_beta split: prod.splits sum.splits)
  have "I (fst (fst (fold (flush_row lk ev d addr) rows (s, 0))))" for rows
    by (rule fold_keeps[where P = "\<lambda>c. I (fst (fst c))"]) (simp_all add: row s)
  then show ?thesis by (simp add: flush_def)
qed

lemma keep_params_on_connect:
  "\<forall>x. I x \<longrightarrow> I (ev x) \<Longrightarrow> I (fst s) \<Longrightarrow> I (fst (params_on_connect lk ev d s))"
  by (simp add: params_on_connect_def reconcile_def keep_refresh keep_flush split: option.split)

lemma keep_params_requests:
  "I (fst s) \<Longrightarrow> I (fst (fst (get_params lk u d s)))" "I st \<Longrightarrow> I (fst (set_param u d k v st))"
  by (auto simp: get_params_def set_param_def Let_def keep_refresh keep_param_rows split: sum.split)

lemma keep_update_requests:
  "I (fst s) \<Longrightarrow> I (fst (fst (get_update lk u d s)))" "I (fst s) \<Longrightarrow> I (fst (fst (post_update lk u d a s)))"
proof -
  assume s: "I (fst s)"
  have "link_run lk addr cmd s = (s', r) \<Longrightarrow> I (fst s')" for addr cmd s' r using keep_link[OF s] by (metis fst_conv)
  then have "update_status_of lk addr s = (s', r) \<Longrightarrow> I (fst s')" for addr s' r
    by (auto simp: update_status_of_def split: prod.splits sum.splits)
  then show "I (fst (fst (get_update lk u d s)))"
    using s by (auto simp: get_update_def and_then_def split: prod.split sum.split)
  have g: "gated lk addr s s' \<Longrightarrow> I (fst s')" for addr s' using s by (auto simp: gated_def intro: by_files)
  show "I (fst (fst (post_update lk u d a s)))"
    using s update_actions_gated[of lk _ s, THEN g] by (simp add: post_update_def Let_def split: sum.split)
qed

lemma keep_model_requests:
  "I (fst s) \<Longrightarrow> I (fst (fst (get_model js lk u d s)))" "I (fst s) \<Longrightarrow> I (fst (fst (set_model lk u d i s)))"
proof -
  assume s: "I (fst s)"
  have l: "link_run lk addr cmd s = (s', r) \<Longrightarrow> I (fst s')" for addr cmd s' r using keep_link[OF s] by (metis fst_conv)
  show "I (fst (fst (get_model js lk u d s)))" "I (fst (fst (set_model lk u d i s)))"
    using s by (auto simp: get_model_def get_models_def set_model_def model_select_def model_use_default_def
        split: sum.splits prod.splits dest: l)
qed

text \<open>Settings.\<close>

lemma keep_steps:
  "(\<And>y s. I s \<Longrightarrow> I (fst (act y s))) \<Longrightarrow> I st \<Longrightarrow> I (fst (when_some x act st))"
  "(\<And>s. I s \<Longrightarrow> I (fst (f s))) \<Longrightarrow> I st \<Longrightarrow> I (fst (admin_only u f st))"
  "(\<And>y s. I s \<Longrightarrow> I (g y s)) \<Longrightarrow> I st \<Longrightarrow> I (fst (stored g z st))"
  by (simp_all add: when_some_def admin_only_def stored_def split: option.split)

lemma keep_run_steps: "(\<And>f s. f \<in> set fs \<Longrightarrow> I s \<Longrightarrow> I (fst (f s))) \<Longrightarrow> I st \<Longrightarrow> I (fst (run_steps fs st))"
proof (induction fs arbitrary: st)
  case (Cons f fs)
  obtain s1 r where f: "f st = (s1, r)" by fastforce
  then have "I s1" using Cons.prems(1)[of f st] Cons.prems(2) by simp
  then show ?case using Cons by (simp add: f split: sum.split)
qed simp

lemma keep_then_answer: "(\<And>f s. f \<in> set fs \<Longrightarrow> I s \<Longrightarrow> I (fst (f s))) \<Longrightarrow> I st \<Longrightarrow> I (fst (then_answer fs v st))"
  using keep_run_steps[of fs st] by (auto simp: then_answer_def split: prod.split sum.split)

lemma keep_encode_settings: "I st \<Longrightarrow> I (fst (set_encode_settings sc crf pre st))"
  by (auto simp: set_encode_settings_def Let_def keep_setting split: option.splits sum.splits)

lemma keep_setters:
  "I st \<Longrightarrow> I (save_policy p st)" "I st \<Longrightarrow> I (sync_set_enabled b st)" "I st \<Longrightarrow> I (sync_set_interval n st)"
  "I st \<Longrightarrow> I (set_sync_types ts st)" "I st \<Longrightarrow> I (set_autoprune b st)" "I st \<Longrightarrow> I (set_movie_enabled b st)"
  "I st \<Longrightarrow> I (set_movie_interval n st)" "I st \<Longrightarrow> I (set_subs_enabled b st)" "I st \<Longrightarrow> I (set_denoise_enabled b st)"
  "I st \<Longrightarrow> I (set_device dev st)" "I st \<Longrightarrow> I (fst (set_whisper_url url st))" "I st \<Longrightarrow> I (fst (set_denoise_url url st))"
  "I st \<Longrightarrow> I (fst (set_atten_db db st))" "I st \<Longrightarrow> I (fst (save_rules js rules st))"
  by (simp_all add: save_policy_def settings_setters sync_set_enabled_def sync_set_interval_def set_sync_types_def set_autoprune_def
      set_url_setting_def set_atten_db_def save_rules_def keep_setting keep_flags Let_def split: option.split)

lemmas keep_endpoint = keep_steps keep_then_answer keep_setters keep_setting keep_encode_settings keep_reencode

lemma keep_settings_requests:
  "I st \<Longrightarrow> I (fst (set_retention u p st))" "I st \<Longrightarrow> I (fst (set_sync u sy st))" "I st \<Longrightarrow> I (fst (set_encoding u en st))"
  "I st \<Longrightarrow> I (fst (set_subs ht u su st))" "I st \<Longrightarrow> I (fst (set_denoise ht u dn st))"
  "I st \<Longrightarrow> I (fst (set_ignore_rules js u rules st))" "I st \<Longrightarrow> I (fst (set_cam_calib js u body st))"
  "I st \<Longrightarrow> I (fst (set_transcode mo u dev st))" "I st \<Longrightarrow> I (fst (reencode_movies u st))" "I st \<Longrightarrow> I (fst (rebuild_subs u st))"
proof -
  show "I st \<Longrightarrow> I (fst (set_retention u p st))" unfolding set_retention_def by (rule keep_steps) (simp add: keep_setters)
  show "I st \<Longrightarrow> I (fst (set_sync u sy st))" unfolding set_sync_def
    by (rule keep_steps, rule keep_then_answer) (auto intro!: keep_steps keep_setters)
  show "I st \<Longrightarrow> I (fst (set_encoding u en st))" unfolding set_encoding_def
    by (rule keep_steps, rule keep_then_answer) (auto intro!: keep_steps keep_setters keep_encode_settings)
  show "I st \<Longrightarrow> I (fst (set_subs ht u su st))" unfolding set_subs_def
    by (rule keep_steps, rule keep_then_answer) (auto intro!: keep_steps keep_setters)
  show "I st \<Longrightarrow> I (fst (set_denoise ht u dn st))" unfolding set_denoise_def
    by (rule keep_steps, rule keep_then_answer) (auto intro!: keep_steps keep_setters)
  show "I st \<Longrightarrow> I (fst (set_ignore_rules js u rules st))" unfolding set_ignore_rules_def
    by (rule keep_steps, rule keep_then_answer) (auto intro!: keep_setters)
  show "I st \<Longrightarrow> I (fst (set_cam_calib js u body st))" unfolding set_cam_calib_def
    by (rule keep_steps) (simp add: keep_setting)
  show "I st \<Longrightarrow> I (fst (set_transcode mo u dev st))" unfolding set_transcode_def
    by (rule keep_steps) (simp add: keep_setters)
  show "I st \<Longrightarrow> I (fst (reencode_movies u st))" unfolding reencode_movies_def
    by (rule keep_steps) (simp_all add: split_beta keep_reencode)
  show "I st \<Longrightarrow> I (fst (rebuild_subs u st))" unfolding rebuild_subs_def
    by (rule keep_steps) (simp_all add: split_beta keep_reencode)
qed

text \<open>Scanning and queueing.\<close>

lemma keep_scan: "I st \<Longrightarrow> I (fst (scan os d opts st))"
  using keep_ssh[of st os "d_last_addr d" listing_cmd]
  by (auto simp: scan_def split_beta keep_memory split: prod.splits sum.splits)

lemma keep_sync_locks: "I st \<Longrightarrow> I (fst (try_begin_sync g st))" "I st \<Longrightarrow> I (end_sync g st)"
  by (simp_all add: try_begin_sync_def end_sync_def keep_memory)

lemma keep_trigger: "I st \<Longrightarrow> I (sync_trigger os g st)"
proof -
  assume st: "I st"
  obtain st1 b where b: "try_begin_sync g st = (st1, b)" by fastforce
  then have "I st1" using keep_sync_locks(1)[OF st, of g] by simp
  then show ?thesis
    using st b by (cases b) (auto simp: sync_trigger_def keep_sync_locks keep_scan split: option.split)
qed

lemma keep_sync_devices: "I st \<Longrightarrow> I (sync_devices os ds st)"
proof (induction ds arbitrary: st)
  case (Cons d ds)
  obtain st1 b where b: "try_begin_sync (d_dongle_id d) st = (st1, b)" by fastforce
  then have "I st1" using keep_sync_locks(1)[OF Cons.prems, of "d_dongle_id d"] by simp
  then show ?case using b Cons.IH by (cases b) (simp_all add: keep_sync_locks keep_scan)
qed simp

lemma keep_sync_turn: "I st \<Longrightarrow> I (fst (sync_turn os st))"
  by (simp add: sync_turn_def sync_all_def Let_def keep_sync_devices)

lemma keep_worker: "worker_take st = Some (it, st') \<Longrightarrow> I st \<Longrightarrow> I st'" "I st \<Longrightarrow> I (worker_finish it st)"
  by (auto simp: worker_take_def worker_finish_def Let_def intro!: keep_memory keep_sweep)

lemma keep_prune: "I st \<Longrightarrow> I (fst (maybe_prune os a t n f k st))"
  by (simp add: maybe_prune_def keep_ssh)

lemma keep_delete_on_device: "I st \<Longrightarrow> I (fst (delete_on_device os d t fs st))"
  using keep_ssh[of st os "d_last_addr d"]
  by (auto simp: delete_on_device_def Let_def split: prod.split sum.split) (metis fst_conv)+

text \<open>Uploads and logs.\<close>

lemma keep_touch_gps: "I st \<Longrightarrow> I (touch_gps d acc st)"
  by (auto simp: touch_gps_def intro!: edit_device split: option.split)

lemma keep_store: "I st \<Longrightarrow> I (fst (store d k b st))"
proof (cases rule: store_cases[of st k d b])
  case stored
  assume "I st"
  then have "I ((st\<lparr>files_on_disk := fs\<rparr>)\<lparr>devices := tbl_update p
      (\<lambda>x. x\<lparr>d_server_storage := d_server_storage x + int (length b)\<rparr>) (devices (st\<lparr>files_on_disk := fs\<rparr>))\<rparr>)" for fs p
    by (intro edit_device set_files) simp_all
  then show ?thesis using stored by (simp add: blob_write_def)
qed (simp_all add: keep_blob_put)

lemma keep_ensure_route: "ensure_route d t st = (st1, r) \<Longrightarrow> I st \<Longrightarrow> I st1"
  by (auto simp: ensure_route_def Let_def intro!: new_route split: if_splits)

lemma canonical_full: "canonical_of d t n = fullname_of d t @ ''--'' @ show_int n"
  by (simp add: canonical_of_def fullname_of_def)

lemma keep_set_segment_file: "I st \<Longrightarrow> I (fst (set_segment_file d t n file st))"
proof (cases rule: set_segment_file_cases[of "file" d t n st])
  case (stored st1 ty col)
  assume "I st"
  then have ok: "I st1" using keep_ensure_route stored(2) by blast
  let ?new = "new_segment (canonical_of d t n) (fullname_of d t) n (now_millis st1)"
  have "I (st1\<lparr>segments := tbl_insert_ignore s_canonical_name ?new (segments st1)\<rparr>)"
    using ok ensure_route_ok(1)[OF stored(2)]
    by (auto simp: tbl_insert_ignore_def new_segment_def canonical_full intro!: new_segment)
  from edit_segment[OF this, of "set_url c u" p for c u p]
  show ?thesis using stored(3) by simp
qed simp_all

lemma keep_siblings: "I st \<Longrightarrow> I (fst (register_siblings d t n cams st))"
proof (induction cams arbitrary: st)
  case (Cons cam cams)
  obtain st1 r where r: "set_segment_file d t n cam st = (st1, r)" by fastforce
  then have "I st1" using keep_set_segment_file[OF Cons.prems, of d t n cam] by simp
  then show ?case using Cons r by (cases r) simp_all
qed simp

lemma keep_upsert_segment: "I st \<Longrightarrow> I (fst (upsert_segment d t n file acc st))"
proof -
  assume st: "I st"
  obtain st1 r where r: "ensure_route d t st = (st1, r)" by fastforce
  note ok = keep_ensure_route[OF r st]
  show ?thesis
  proof (cases r)
    case (Inr u)
    let ?row = "fill_segment acc (new_segment (canonical_of d t n) (fullname_of d t) n (now_millis st1))"
    let ?st2 = "st1\<lparr>segments := tbl_upsert s_canonical_name ?row (fill_segment acc) (segments st1)\<rparr>"
    have "I ?st2"
    proof (cases "s_canonical_name ?row \<in> s_canonical_name ` set (segments st1)")
      case True
      then show ?thesis using ok by (simp add: tbl_upsert_def edit_segment)
    next
      case False
      then have "I (st1\<lparr>segments := segments st1 @ [?row]\<rparr>)"
        using ok ensure_route_ok(1)[of d t st st1] r Inr
        by (intro new_segment) (simp_all add: new_segment_def canonical_full)
      then show ?thesis using False by (simp add: tbl_upsert_def)
    qed
    then show ?thesis
      using ok r Inr keep_set_segment_file[of ?st2 d t n "file"] keep_siblings
      by (auto simp: upsert_segment_def Let_def split: prod.splits sum.splits)
  qed (use ok r in \<open>simp add: upsert_segment_def\<close>)
qed

lemma keep_route_rows: "I st \<Longrightarrow> I (fst (recompute_route d t st))" "I st \<Longrightarrow> I (fst (write_route_meta d t acc st))"
  "I st \<Longrightarrow> I (set_route_override f ts st)" "I st \<Longrightarrow> I (fst (set_route_public st u f pub))"
  by (auto simp: recompute_route_def write_route_meta_def set_route_override_def set_route_public_def Let_def
      intro!: edit_route split: sum.split prod.split)

lemma keep_artifacts: "I st \<Longrightarrow> I (put_artifacts ll d t n acc st)"
  by (auto simp: put_artifacts_def put_artifact_def Let_def intro!: keep_blob_put split: option.split)

lemma keep_parse: "I st \<Longrightarrow> I (fst (parse_and_store ll d t n file raw st))"
proof (cases "decompress ll file raw")
  case (Inr data)
  assume st: "I st"
  define acc where "acc = accumulate_all (ll_libm ll) (ll_messages ll data)"
  define st0 where "st0 = put_artifacts ll d t n acc st"
  obtain st1 r1 where 1: "upsert_segment d t n file acc st0 = (st1, r1)" by fastforce
  obtain st2 r2 where 2: "recompute_route d t st1 = (st2, r2)" by fastforce
  obtain st3 r3 where 3: "write_route_meta d t acc st2 = (st3, r3)" by fastforce
  have "I st0" using st by (simp add: st0_def keep_artifacts)
  then have "I st1" using keep_upsert_segment[of st0 d t n "file" acc] 1 by simp
  moreover from this have "I st2" using keep_route_rows(1)[of st1 d t] 2 by simp
  moreover from this have "I st3" using keep_route_rows(2)[of st2 d t acc] 3 by simp
  ultimately show ?thesis
    using Inr 1 2 3 by (auto simp: parse_and_store_def acc_def[symmetric] st0_def[symmetric] Let_def
        intro: keep_touch_gps split: sum.split)
qed (simp add: parse_and_store_def)

lemma keep_parse_model: "I st \<Longrightarrow> I (fst (parse_model_and_store ll d t n file raw st))"
  using keep_blob_put[of st] by (auto simp: parse_model_and_store_def Let_def split_beta split: prod.split sum.split)

lemma keep_register: "I st \<Longrightarrow> I (fst (register_segment_file ll d t n f b st))"
proof -
  assume st: "I st"
  obtain st1 r where r: "set_segment_file d t n f st = (st1, r)" by fastforce
  then have "I st1" using keep_set_segment_file[OF st, of d t n f] by simp
  then show ?thesis using st r by (cases r) (simp_all add: register_segment_file_def keep_parse keep_route_rows)
qed

lemma keep_ingest: "I st \<Longrightarrow> I (fst (ingest_segment_file ll d t n f b st))"
proof -
  assume st: "I st"
  obtain st1 r1 where 1: "store d (blob_key d t n f) b st = (st1, r1)" by fastforce
  obtain st2 r2 where 2: "register_segment_file ll d t n f b st1 = (st2, r2)" by fastforce
  have "I st1" using keep_store[OF st, of d "blob_key d t n f" b] 1 by simp
  moreover from this have "I st2" using keep_register[of st1 ll d t n f b] 2 by simp
  ultimately show ?thesis using 1 2 by (cases r1; cases r2) (simp_all add: ingest_segment_file_def keep_parse_model)
qed

lemma keep_upload_driving: "I st \<Longrightarrow> I (fst (upload_driving a d t n f b st))"
proof -
  assume st: "I st"
  obtain st1 r1 where 1: "store d (blob_key d t n f) b st = (st1, r1)" by fastforce
  obtain st2 r2 where 2: "set_segment_file d t n f st1 = (st2, r2)" by fastforce
  have "I st1" using keep_store[OF st, of d "blob_key d t n f" b] 1 by simp
  moreover from this have "I st2" using keep_set_segment_file[of st1 d t n f] 2 by simp
  ultimately show ?thesis
    using 1 2 st by (cases r1; cases r2) (simp_all add: upload_driving_def keep_route_rows split: sum.split)
qed

lemma keep_uploads: "I st \<Longrightarrow> I (fst (upload_boot a d f b st))" "I st \<Longrightarrow> I (fst (upload_crash a d i c m b st))"
  by (simp_all add: upload_boot_def upload_crash_def keep_store split: sum.split)

lemma keep_reparse_one: "I st \<Longrightarrow> I (fst (reparse_one ll d t n fs st))" "I st \<Longrightarrow> I (fst (remodel_one ll d t n fs st))"
  by (induction fs) (auto simp: keep_parse keep_parse_model split_beta split: option.split)

lemma keep_reparse_list: "I st \<Longrightarrow> I (fst (reparse_list ll rows st))"
proof (induction rows arbitrary: st)
  case (Cons w rows)
  then show ?case by (cases w) (auto simp: keep_reparse_one keep_parse keep_parse_model split_beta Let_def split: option.split prod.split)
qed simp

lemma keep_remodel_list: "I st \<Longrightarrow> I (fst (remodel_list ll rows st))"
proof (induction rows arbitrary: st)
  case (Cons w rows)
  then show ?case by (cases w) (auto simp: keep_reparse_one keep_parse keep_parse_model split_beta Let_def split: option.split prod.split)
qed simp

lemma keep_reparse: "I st \<Longrightarrow> I (fst (reparse_all ll st))" "I st \<Longrightarrow> I (fst (reparse_model ll st))"
  by (simp_all add: reparse_all_def reparse_model_def keep_reparse_list keep_remodel_list)

lemma keep_ingest_step: "ingest_step ll st st' \<Longrightarrow> I st \<Longrightarrow> I st'"
  by (cases rule: ingest_step.cases)
    (auto simp: run_parse_job_def intro: keep_upload_driving keep_uploads keep_parse keep_ingest keep_register keep_reparse)

lemma keep_process: "I st \<Longrightarrow> I (fst (process_item os ll it st))"
proof -
  assume st: "I st"
  have pull: "I (fst (pull_item os ll it st))"
  proof -
    obtain st1 r where r: "pull_file os (q_addr it) (remote_path (q_ts it) (q_seg it) (q_file it)) (tmp_path st (q_key it)) st = (st1, r)"
      by fastforce
    have "I st1" using by_files[OF pull_file_files(1) st] r by (metis fst_conv)
    then show ?thesis
      using r keep_ingest[of st1 ll]
      by (auto simp: pull_item_def Let_def split_beta intro!: keep_remove split: sum.split option.split prod.split)
  qed
  obtain st1 r where r: "pull_item os ll it st = (st1, r)" by fastforce
  have reg: "register_segment_file ll (q_dongle it) (q_ts it) (q_seg it) (q_file it) x st = (st2, r2) \<Longrightarrow> I st2" for x st2 r2
    using keep_register[OF st] by (metis fst_conv)
  show ?thesis
    using st pull r reg keep_prune by (auto simp: process_item_def Let_def split: option.split sum.split prod.split)
qed

text \<open>Deletions.\<close>

lemma keep_delete_segment_files: "I st \<Longrightarrow> I (delete_segment_files d t n st)"
  by (auto simp: delete_segment_files_def intro!: keep_fold keep_remove keep_blob_delete)

lemma keep_delete_route: "I st \<Longrightarrow> I (delete_route n st)"
proof (cases "split_once_str ''|'' n")
  case (Some x)
  assume st: "I st"
  obtain d t where x: "x = (d, t)" by fastforce
  define st3 where "st3 = subs_delete d t (fold (movie_delete d t) movie_cams
    (fold (delete_segment_files d t) (map s_number (filter (\<lambda>s. s_route s = n) (segments st))) st))"
  have "I st3" unfolding st3_def using st
    by (auto intro!: keep_subs_rows keep_fold keep_movie_rows keep_delete_segment_files)
  then have "I (st3\<lparr>segments := tbl_delete (\<lambda>s. s_route s = n) (segments st3)\<rparr>)" by (rule drop_segments)
  from drop_route[OF this, of n] show ?thesis
    by (simp add: delete_route_def Some x st3_def[symmetric] Let_def tbl_delete_def)
qed (simp add: delete_route_def)

lemma keep_delete_orphan: "I st \<Longrightarrow> I (delete_orphan m st)"
  by (auto simp: delete_orphan_def intro: keep_movie_rows split: option.split)

lemma keep_retention: "run_once st = Some (st', n) \<Longrightarrow> I st \<Longrightarrow> I st'"
proof -
  assume run: "run_once st = Some (st', n)" and st: "I st"
  have "I (age_and_count_pass p st)" for p
    unfolding age_and_count_pass_def Let_def by (intro keep_fold keep_delete_orphan keep_delete_route st)
  then show ?thesis
    using run cap_loop_invariant[where I = I, OF keep_delete_route]
    by (auto simp: run_once_def Let_def split: if_splits)
qed

lemma keep_delete_type: "I (fst c) \<Longrightarrow> I (fst (delete_type d t n ty c))"
proof -
  assume c: "I (fst c)"
  have named: "I (fst (delete_named k c))" if "I (fst c)" for k c
    using that by (auto simp: delete_named_def keep_blob_delete split: prod.split option.split)
  have fold: "I (fst (fold (\<lambda>name. delete_named (blob_key d t n name)) names c))" for names
    by (rule fold_keeps[where P = "\<lambda>c. I (fst c)"]) (simp_all add: named c)
  have "I (clear_segment_col d t n col s)" if "I s" for col s
    using that unfolding clear_segment_col_def by (rule edit_segment) auto
  then show ?thesis
    using c fold by (auto simp: delete_type_def Let_def intro!: keep_remove split: option.split prod.split) (metis fst_conv)+
qed

lemma keep_delete_on_server: "I st \<Longrightarrow> I (fst (delete_on_server f d t segs types st))"
proof -
  assume st: "I st"
  obtain st1 m k where 1: "delete_server_files d t segs types st = (st1, m, k)" by (metis prod_cases3)
  have "I (fst (delete_server_files d t segs types st))"
    unfolding delete_server_files_def
    by (rule fold_keeps[where P = "\<lambda>c. I (fst c)"], rule fold_keeps[where P = "\<lambda>c. I (fst c)"]) (simp_all add: keep_delete_type st)
  then have i1: "I st1" using 1 by simp
  obtain st2 r where 2: "recompute_route d t st1 = (st2, r)" by fastforce
  then have i2: "I st2" using keep_route_rows(1)[OF i1, of d t] by simp
  then have "I (fold (\<lambda>ty s. if ty \<in> set movie_cams then movie_delete d t ty s else s) types st2)"
    by (intro keep_fold) (simp_all add: keep_movie_rows)
  then show ?thesis using 1 2 i2 by (cases r) (simp_all add: delete_on_server_def Let_def keep_route_rows)
qed

lemma keep_manage_delete: "I st \<Longrightarrow> I (fst (manage_delete os u f req st))"
proof -
  assume st: "I st"
  have dev: "delete_on_device os d t fs st = (s, r, c) \<Longrightarrow> I s" for d t fs s r c
    using keep_delete_on_device[OF st] by (metis fst_conv)
  have server: "delete_on_server f d t segs types s = (s', r) \<Longrightarrow> I s \<Longrightarrow> I s'" for d t segs types s s' r
    using keep_delete_on_server by (metis fst_conv)
  show ?thesis
    using st by (auto simp: manage_delete_def Let_def split: sum.splits prod.splits option.splits if_splits dest: dev server)
qed

lemma keep_download: "I st \<Longrightarrow> I (fst (download zw uuid u f q st))"
  by (auto simp: download_def Let_def intro!: set_files keep_remove split: sum.split prod.split)

text \<open>The other requests.\<close>

lemma keep_drive_requests:
  "I st \<Longrightarrow> I (fst (route_subs_action u f a st))" "I st \<Longrightarrow> I (fst (route_movie_action u f cam a st))"
  "I st \<Longrightarrow> I (fst (set_route_sync u f rq st))" "I st \<Longrightarrow> I (sync_now_job os job st)"
  "I st \<Longrightarrow> I (fst (onboard_script os st))"
  by (auto simp: route_subs_action_def route_movie_action_def set_route_sync_def sync_now_job_def onboard_script_def Let_def
      split_beta keep_subs_rows keep_movie_rows keep_sweep keep_route_rows keep_scan keep_public_key
      split: sum.split option.split prod.split)

lemma keep_media: "I st \<Longrightarrow> I (fst (serve_transcode os d t n f a h st))" "I st \<Longrightarrow> I (fst (serve_audio os d t n a h st))"
  "I st \<Longrightarrow> I (clean_cache_tmp st)"
  using keep_transcode[of st os]
  by (auto simp: serve_transcode_def serve_audio_def clean_cache_tmp_def Let_def intro!: set_files
      split: sum.split prod.split) (metis fst_conv)+

lemma keep_liveness: "I st \<Longrightarrow> I (mark_online g b st)" "I st \<Longrightarrow> I (touch_ping g st)" "I st \<Longrightarrow> I (reap st)"
  "I st \<Longrightarrow> I (connected g st)" "I st \<Longrightarrow> I (disconnected g st)"
  by (auto simp: mark_online_def touch_ping_def reap_def connected_def disconnected_def intro!: edit_device keep_memory)

lemma keep_socket: "I (fst s) \<Longrightarrow> I (fst (socket_step e s))"
  by (cases s; cases e) (auto simp: keep_liveness keep_memory split: option.split)

lemma keep_ws: "I st \<Longrightarrow> I (fst (ws_handler st g xff a))"
  by (auto simp: ws_handler_def intro!: edit_device split: option.split)

end

end
