(* ===== verification/System.thy ===== *)
theory System
  imports Upkeep ConfigEnv
begin

text \<open>
  The whole server: opening the state (\<open>build_state\<close> of \<^verbatim>\<open>src/lib.rs\<close>, \<open>init\<close> of
  \<^verbatim>\<open>src/db.rs\<close>), starting it (\<^verbatim>\<open>src/main.rs\<close>), and every step it can take
  afterwards, in any order and with other requests in between.
\<close>

section \<open>Start-up\<close>

text \<open>What a database file holds, and what a process finds around it.\<close>

record tables =
  tb_users :: "user list"
  tb_user_seq :: int
  tb_devices :: "device list"
  tb_routes :: "route list"
  tb_segments :: "segment list"
  tb_shares :: "share list"
  tb_settings :: "(string \<times> string) list"
  tb_movies :: "movie_row list"
  tb_subs :: "subs_row list"
  tb_params :: "param_row list"

record machine =
  mc_sha256 :: "string \<Rightarrow> string"
  mc_disk_ok :: "string \<Rightarrow> bool"
  mc_db_ok :: "string \<Rightarrow> bool"
  mc_bind_ok :: "string \<Rightarrow> bool"
  mc_now :: int
  mc_files :: files

text \<open>The file is created if it is missing, and the migrations create the tables, without any row.\<close>

definition open_database :: "machine \<Rightarrow> string \<Rightarrow> tables option \<Rightarrow> tables res" where
  "open_database m url file =
     (if \<not> mc_db_ok m url then Inl (Sqlx ''unable to open database file'')
      else case file of
        Some t \<Rightarrow> Inr t
      | None \<Rightarrow> Inr \<lparr>tb_users = [], tb_user_seq = 0, tb_devices = [], tb_routes = [], tb_segments = [], tb_shares = [],
                 tb_settings = [], tb_movies = [], tb_subs = [], tb_params = []\<rparr>)"

definition build_state :: "config \<Rightarrow> machine \<Rightarrow> tables option \<Rightarrow> app_state res" where
  "build_state c m file =
     (if \<not> mc_disk_ok m (c_data_dir c) then Inl (Other ''io error'')
      else case open_database m (db_url c) file of
        Inl e \<Rightarrow> Inl e
      | Inr t \<Rightarrow>
          if \<not> mc_disk_ok m (blobs_dir c) then Inl (Other ''io error'')
          else Inr \<lparr>cfg = c, sha256_hex = mc_sha256 m, disk_ok = mc_disk_ok m, now_millis = mc_now m,
            users = tb_users t, user_seq = tb_user_seq t, devices = tb_devices t, routes = tb_routes t,
            segments = tb_segments t, authorized_users = tb_shares t, settings_tbl = tb_settings t,
            movies_tbl = tb_movies t, subs_tbl = tb_subs t, device_params_tbl = tb_params t,
            files_on_disk = mc_files m, connections = [], syncing = [],
            queue = \<lparr>sq_pending = [], sq_pending_keys = [], sq_active = []\<rparr>,
            movie_q = \<lparr>mq_current = None, mq_queued = [], mq_wake = False\<rparr>\<rparr>)"

text \<open>What is left of a state when the process ends: the database, and the files of the machine.\<close>

definition tables_of :: "app_state \<Rightarrow> tables" where
  "tables_of st =
     \<lparr>tb_users = users st, tb_user_seq = user_seq st, tb_devices = devices st, tb_routes = routes st,
      tb_segments = segments st, tb_shares = authorized_users st, tb_settings = settings_tbl st,
      tb_movies = movies_tbl st, tb_subs = subs_tbl st, tb_params = device_params_tbl st\<rparr>"

text \<open>
  \<open>main\<close>: with arguments the command runs and the process ends; without, the background tasks are
  spawned and the router serves, unless the address cannot be bound. The configuration comes from the
  environment.
\<close>

datatype outcome = StartFailed app_error | Command string cli_end | Serving

definition main_run ::
    "pw_lib \<Rightarrow> ssh_os \<Rightarrow> log_lib \<Rightarrow> (string \<Rightarrow> string list) \<Rightarrow> string \<Rightarrow> (string \<Rightarrow> string option) \<Rightarrow> machine \<Rightarrow>
     tables option \<Rightarrow> string list \<Rightarrow> app_state option \<times> outcome" where
  "main_run pw os ll kinds uuid env m file args =
     (case build_state (from_env env) m file of
        Inl e \<Rightarrow> (None, StartFailed e)
      | Inr st \<Rightarrow>
          if length args > 1
          then (let (st1, out, e) = run_cli pw os ll kinds uuid (tl args) st in (Some st1, Command out e))
          else if mc_bind_ok m (c_bind (cfg st)) then (Some st, Serving)
          else (Some st, StartFailed (Other ''io error'')))"

section \<open>Steps\<close>

text \<open>
  The steps of everything but the account and registration endpoints; the tools, the devices and the
  caller are arbitrary in each of them. A step that waits takes what the rest of the server does
  meanwhile from \<open>R\<close>.
\<close>

inductive service_step :: "(app_state \<Rightarrow> app_state \<Rightarrow> bool) \<Rightarrow> app_state \<Rightarrow> app_state \<Rightarrow> bool" for R where
  upload: "ingest_step ll st st' \<Longrightarrow> service_step R st st'"
| remodel: "service_step R st (fst (reparse_model ll st))"
| socket: "service_step R st (fst (socket_step e (st, ss)))"
| connect: "service_step R st (fst (ws_handler st g xff a))"
| scan_turn: "service_step R st (fst (sync_turn os st))"
| scan_now: "service_step R st (sync_now_job os job st)"
| trigger: "service_step R st (sync_trigger os g st)"
| take: "worker_take st = Some (it, st') \<Longrightarrow> service_step R st st'"
| process: "service_step R st (fst (process_item os ll it st))"
| finish: "service_step R st (worker_finish it st)"
| transcode: "service_step R st (fst (serve_transcode mo d t n f au h st))"
| audio: "service_step R st (fst (serve_audio mo d t n au h st))"
| clean: "service_step R st (clean_cache_tmp st)"
| movies_start: "service_step R st (movie_start st)"
| movies: "(\<forall>x. R x (ev x)) \<Longrightarrow> movie_turn mo ht ev st = Some (st', secs) \<Longrightarrow> service_step R st st'"
| subs_start: "service_step R st (subs_start st)"
| subs: "(\<forall>x. R x (ev x)) \<Longrightarrow> subs_turn mo ht ev st = Some (st', secs) \<Longrightarrow> service_step R st st'"
| retain: "run_once st = Some (st', k) \<Longrightarrow> service_step R st st'"
| public: "service_step R st (fst (set_route_public st u f pub))"
| subs_action: "service_step R st (fst (route_subs_action u f act st))"
| movie_action: "service_step R st (fst (route_movie_action u f cam act st))"
| sync_types: "service_step R st (fst (set_route_sync u f rq st))"
| deletion: "service_step R st (fst (manage_delete os u f dr st))"
| archive: "service_step R st (fst (download zw uuid u f q st))"
| params_read: "service_step R st (fst (fst (get_params lk u d (st, sent))))"
| params_set: "service_step R st (fst (set_param u d k v st))"
| params_flush: "(\<forall>x. R x (ev x)) \<Longrightarrow> service_step R st (fst (params_on_connect lk ev d (st, sent)))"
| update_read: "service_step R st (fst (fst (get_update lk u d (st, sent))))"
| update_action: "service_step R st (fst (fst (post_update lk u d ua (st, sent))))"
| model_read: "service_step R st (fst (fst (get_model js lk u d (st, sent))))"
| model_set: "service_step R st (fst (fst (set_model lk u d i (st, sent))))"
| retention_set: "service_step R st (fst (set_retention u p st))"
| sync_set: "service_step R st (fst (set_sync u sy st))"
| encoding_set: "service_step R st (fst (set_encoding u en st))"
| subs_set: "service_step R st (fst (set_subs ht u su st))"
| denoise_set: "service_step R st (fst (set_denoise ht u dn st))"
| rules_set: "service_step R st (fst (set_ignore_rules js u rules st))"
| calib_set: "service_step R st (fst (set_cam_calib js u body st))"
| device_set: "service_step R st (fst (set_transcode mo u dev st))"
| reencode: "service_step R st (fst (reencode_movies u st))"
| resubs: "service_step R st (fst (rebuild_subs u st))"
| onboard: "service_step R st (fst (onboard_script os st))"

lemma service_step_mono [mono]: "R \<le> R' \<Longrightarrow> service_step R \<le> service_step R'"
proof (intro le_funI le_boolI)
  fix st st'
  assume R: "R \<le> R'" and s: "service_step R st st'"
  have "\<forall>x. R x (ev x) \<Longrightarrow> \<forall>x. R' x (ev x)" for ev using R by (auto simp: le_fun_def)
  with s show "service_step R' st st'" by cases (auto intro: service_step.intros)
qed

text \<open>
  Services among themselves, and the server with all its requests. A command of the administrator's
  may run on the database and the files while the server is up.
\<close>

inductive quiet_step :: "app_state \<Rightarrow> app_state \<Rightarrow> bool" where
  "service_step quiet_step\<^sup>*\<^sup>* st st' \<Longrightarrow> quiet_step st st'"

inductive server_step :: "app_state \<Rightarrow> app_state \<Rightarrow> bool" where
  service: "service_step server_step\<^sup>*\<^sup>* st st' \<Longrightarrow> server_step st st'"
| account: "server_step st (handle_user_req pw c r st)"
| register: "server_step st (fst (pilotauth jl st p))"
| pair: "u \<in> set (users st) \<Longrightarrow> server_step st (fst (pilotpair jl st u token))"
| claim: "u \<in> set (users st) \<Longrightarrow> server_step st (fst (claim_device st u d))"
| command: "server_step st (fst (run_cli pw os ll kinds uuid args st))"

text \<open>
  The life of an installation: steps, and new processes on what the last one left in the database, on
  whatever machine, with whatever configuration and arguments.
\<close>

inductive lives :: "app_state \<Rightarrow> app_state \<Rightarrow> bool" where
  born: "lives st st"
| step: "lives st st' \<Longrightarrow> server_step st' st'' \<Longrightarrow> lives st st''"
| restart: "lives st st' \<Longrightarrow> main_run pw os ll kinds uuid env m (Some (tables_of st')) args = (Some st'', e) \<Longrightarrow>
    lives st st''"

text \<open>A property that survives the elementary writes survives every service.\<close>

context upkeep
begin

lemma keep_service:
  assumes step: "service_step R st st'" and R: "\<And>x y. R x y \<Longrightarrow> I x \<Longrightarrow> I y" and st: "I st"
  shows "I st'"
  using step
proof cases
  case (movies ev mo ht secs)
  then show ?thesis using keep_movie_turn R st by blast
next
  case (subs ev mo ht secs)
  then show ?thesis using keep_subs_turn R st by blast
next
  case (params_flush ev lk d sent)
  then have "\<forall>x. I x \<longrightarrow> I (ev x)" using R by blast
  then show ?thesis using keep_params_on_connect[of ev "(st, sent)"] params_flush(1) st by simp
qed (use st in \<open>auto intro: keep_ingest_step keep_reparse keep_ws keep_sync_turn keep_trigger keep_worker keep_process
       keep_media keep_movie_rows keep_subs_rows keep_retention keep_route_rows keep_drive_requests keep_manage_delete
       keep_download keep_params_requests keep_update_requests keep_model_requests keep_settings_requests keep_socket\<close>)

lemma keep_runs: "(\<lambda>x y. R x y \<and> (I x \<longrightarrow> I y))\<^sup>*\<^sup>* x y \<Longrightarrow> I x \<Longrightarrow> I y"
  by (induction rule: rtranclp_induct) auto

lemma keep_quiet: "quiet_step st st' \<Longrightarrow> I st \<Longrightarrow> I st'"
proof (induction rule: quiet_step.induct)
  case (1 st st')
  show ?case using 1(1) keep_runs 1(2) by (rule keep_service)
qed

lemma keep_cli:
  assumes "\<And>pw i n p e x. I x \<Longrightarrow> I (fst (create_user_row pw x i n p e True))" and st: "I st"
  shows "I (fst (run_cli pw os ll kinds uuid args st))"
proof -
  have "I (fst (create_user_row pw st i n p e True))" for i n p e using assms by blast
  moreover have "I (fst (reparse_all ll st))" "I (fst (reparse_model ll st))" "I (fst (public_key os st))"
    using st by (simp_all add: keep_reparse keep_public_key)
  ultimately show ?thesis using st
    by (simp add: run_cli_def Let_def split_beta split: list.split prod.split sum.split)
qed

lemma keep_server:
  assumes accounts: "\<And>pw c r x. I x \<Longrightarrow> I (handle_user_req pw c r x)"
    and register: "\<And>jl p x. I x \<Longrightarrow> I (fst (pilotauth jl x p))"
    and pair: "\<And>jl u token x. I x \<Longrightarrow> u \<in> set (users x) \<Longrightarrow> I (fst (pilotpair jl x u token))"
    and claim: "\<And>u d x. I x \<Longrightarrow> u \<in> set (users x) \<Longrightarrow> I (fst (claim_device x u d))"
    and cli: "\<And>pw i n p e x. I x \<Longrightarrow> I (fst (create_user_row pw x i n p e True))"
  shows "server_step st st' \<Longrightarrow> I st \<Longrightarrow> I st'"
proof (induction rule: server_step.induct)
  case (service st st')
  show ?case using service(1) keep_runs service(2) by (rule keep_service)
qed (use assms in \<open>auto intro: keep_cli\<close>)

end

section \<open>The database invariant survives every elementary write\<close>

lemma db_ok_writes:
  assumes "db_ok st"
  shows "db_ok (st\<lparr>now_millis := now, connections := c, syncing := s, queue := q, movie_q := m\<rparr>)"
    "tbl_ok fst ss \<Longrightarrow> db_ok (st\<lparr>settings_tbl := ss\<rparr>)" "tbl_ok movie_pk ms \<Longrightarrow> db_ok (st\<lparr>movies_tbl := ms\<rparr>)"
    "tbl_ok sb_fullname sb \<Longrightarrow> db_ok (st\<lparr>subs_tbl := sb\<rparr>)" "tbl_ok param_pk ps \<Longrightarrow> db_ok (st\<lparr>device_params_tbl := ps\<rparr>)"
    "db_ok (st\<lparr>segments := tbl_delete pg (segments st)\<rparr>)"
  using assms by (auto simp: db_ok_def keys_ok_def refs_ok_def tbl_ok_delete)

lemma db_ok_edit_segment:
  assumes "db_ok st" "\<And>s. s_canonical_name (fg s) = s_canonical_name s" "\<And>s. s_route (fg s) = s_route s"
  shows "db_ok (st\<lparr>segments := tbl_update pg fg (segments st)\<rparr>)"
  using assms by (intro db_ok_segments) (auto simp: set_tbl_update tbl_ok_update db_ok_def keys_ok_def refs_ok_def)

lemma db_ok_new_route:
  assumes "db_ok st" "fullname_of d t \<notin> r_fullname ` set (routes st)" "d \<in> d_dongle_id ` set (devices st)"
  shows "db_ok (st\<lparr>routes := routes st @ [new_route (fullname_of d t) d created]\<rparr>)"
  using assms by (intro db_ok_routes) (auto simp: db_ok_def keys_ok_def refs_ok_def tbl_ok_def new_route_def)

lemma db_ok_new_segment:
  assumes "db_ok st" "s_route sg \<in> r_fullname ` set (routes st)" "s_canonical_name sg \<notin> s_canonical_name ` set (segments st)"
  shows "db_ok (st\<lparr>segments := segments st @ [sg]\<rparr>)"
  using assms by (intro db_ok_segments) (auto simp: db_ok_def keys_ok_def refs_ok_def tbl_ok_def)

lemma db_ok_drop_route:
  assumes "db_ok st" "\<forall>s \<in> set (segments st). s_route s \<noteq> n"
  shows "db_ok (st\<lparr>routes := tbl_delete (\<lambda>r. r_fullname r = n) (routes st)\<rparr>)"
proof -
  have "\<forall>s \<in> set (segments st). s_route s \<in> r_fullname ` set (tbl_delete (\<lambda>r. r_fullname r = n) (routes st))"
    using assms by (fastforce simp: tbl_delete_def db_ok_def refs_ok_def)
  then show ?thesis using assms(1) by (auto simp: db_ok_def keys_ok_def refs_ok_def tbl_delete_def tbl_ok_def distinct_map_filter)
qed

lemmas db_ok_upkeep = db_ok_writes db_ok_edit_segment db_ok_new_route db_ok_new_segment db_ok_drop_route
  db_ok_devices db_ok_route_update

text \<open>A segment row is named by its drive and its number.\<close>

definition segments_named :: "app_state \<Rightarrow> bool" where
  "segments_named st \<longleftrightarrow> (\<forall>s \<in> set (segments st). s_canonical_name s = s_route s @ ''--'' @ show_int (s_number s))"

definition server_ok :: "app_state \<Rightarrow> bool" where
  "server_ok st \<longleftrightarrow> users_inv st \<and> routes_named st \<and> segments_named st"

lemmas server_ok_defs = server_ok_def users_inv_def has_admin_def admin_flags_ok_def routes_named_def segments_named_def

interpretation server: upkeep server_ok
proof unfold_locales
  fix st :: app_state
  assume st: "server_ok st"
  then have db: "db_ok st" by (simp add: server_ok_def users_inv_def)
  show "db_ok st" by (rule db)
  show "server_ok (st\<lparr>files_on_disk := fs\<rparr>)" for fs using st by (simp add: server_ok_defs)
  show "server_ok (st\<lparr>now_millis := now, connections := c, syncing := s, queue := q, movie_q := m\<rparr>)" for now c s q m
    using st db_ok_writes(1)[OF db] by (simp add: server_ok_defs)
  show "tbl_ok fst ss \<Longrightarrow> server_ok (st\<lparr>settings_tbl := ss\<rparr>)" for ss using st db_ok_writes(2)[OF db] by (simp add: server_ok_defs)
  show "tbl_ok movie_pk ms \<Longrightarrow> server_ok (st\<lparr>movies_tbl := ms\<rparr>)" for ms using st db_ok_writes(3)[OF db] by (simp add: server_ok_defs)
  show "tbl_ok sb_fullname sb \<Longrightarrow> server_ok (st\<lparr>subs_tbl := sb\<rparr>)" for sb using st db_ok_writes(4)[OF db] by (simp add: server_ok_defs)
  show "tbl_ok param_pk ps \<Longrightarrow> server_ok (st\<lparr>device_params_tbl := ps\<rparr>)" for ps using st db_ok_writes(5)[OF db] by (simp add: server_ok_defs)
  show "server_ok (st\<lparr>segments := tbl_delete pg (segments st)\<rparr>)" for pg
    using st db_ok_writes(6)[OF db] by (simp add: server_ok_defs tbl_delete_def)
  show "server_ok (st\<lparr>devices := tbl_update pd fd (devices st)\<rparr>)"
    if "\<And>d. d_dongle_id (fd d) = d_dongle_id d" "\<And>d. d_owner_id (fd d) = d_owner_id d" for pd fd
    using st db_ok_devices[OF db, of fd pd] that by (simp add: server_ok_defs)
  show "server_ok (st\<lparr>routes := tbl_update pr fr (routes st)\<rparr>)"
    if "\<And>r. r_fullname (fr r) = r_fullname r" "\<And>r. r_device_dongle_id (fr r) = r_device_dongle_id r" for pr fr
    using st db_ok_route_update[OF db, of fr pr] that by (auto simp: server_ok_defs set_tbl_update)
  show "server_ok (st\<lparr>segments := tbl_update pg fg (segments st)\<rparr>)"
    if "\<And>s. s_canonical_name (fg s) = s_canonical_name s" "\<And>s. s_route (fg s) = s_route s" "\<And>s. s_number (fg s) = s_number s" for pg fg
    using st db_ok_edit_segment[OF db, of fg pg] that by (auto simp: server_ok_defs set_tbl_update)
  show "server_ok (st\<lparr>routes := routes st @ [new_route (fullname_of d t) d created]\<rparr>)"
    if "fullname_of d t \<notin> r_fullname ` set (routes st)" "d \<in> d_dongle_id ` set (devices st)" for d t created
    using st db_ok_new_route[OF db that] by (auto simp: server_ok_defs new_route_def fullname_of_def)
  show "server_ok (st\<lparr>segments := segments st @ [sg]\<rparr>)"
    if "s_route sg \<in> r_fullname ` set (routes st)" "s_canonical_name sg = s_route sg @ ''--'' @ show_int (s_number sg)"
      "s_canonical_name sg \<notin> s_canonical_name ` set (segments st)" for sg
    using st db_ok_new_segment[OF db that(1,3)] that(2) by (auto simp: server_ok_defs)
  show "server_ok (st\<lparr>routes := tbl_delete (\<lambda>r. r_fullname r = n) (routes st)\<rparr>)"
    if "\<forall>s \<in> set (segments st). s_route s \<noteq> n" for n
    using st db_ok_drop_route[OF db that] by (auto simp: server_ok_defs tbl_delete_def)
qed

text \<open>Who has which rights: the accounts, the owners of the devices, and the shares.\<close>

definition rights :: "app_state \<Rightarrow> (user list \<times> int) \<times> (string \<times> int option) list \<times> share list" where
  "rights st = ((users st, user_seq st), map (\<lambda>d. (d_dongle_id d, d_owner_id d)) (devices st), authorized_users st)"

interpretation rights: upkeep "\<lambda>st. db_ok st \<and> rights st = r" for r
proof unfold_locales
  fix st :: app_state
  assume st: "db_ok st \<and> rights st = r"
  then have db: "db_ok st" ..
  show "db_ok (st\<lparr>devices := tbl_update pd fd (devices st)\<rparr>) \<and> rights (st\<lparr>devices := tbl_update pd fd (devices st)\<rparr>) = r"
    if "\<And>d. d_dongle_id (fd d) = d_dongle_id d" "\<And>d. d_owner_id (fd d) = d_owner_id d" for pd fd
    using st db_ok_devices[OF db, of fd pd] that tbl_update_keys[of "\<lambda>d. (d_dongle_id d, d_owner_id d)" fd pd "devices st"]
    by (simp add: rights_def)
  show "db_ok (st\<lparr>segments := segments st @ [sg]\<rparr>) \<and> rights (st\<lparr>segments := segments st @ [sg]\<rparr>) = r"
    if "s_route sg \<in> r_fullname ` set (routes st)" "s_canonical_name sg \<notin> s_canonical_name ` set (segments st)" for sg
    using st db_ok_new_segment[OF db that] by (simp add: rights_def)
qed (auto simp: rights_def intro: db_ok_upkeep)

section \<open>Accounts and registration\<close>

text \<open>The account requests do not touch drives.\<close>

lemma user_req_drives: "routes (handle_user_req pw c r st) = routes st" "segments (handle_user_req pw c r st) = segments st"
  by (cases r; auto simp: create_user_def create_user_row_def update_user_def update_user_commit_def admin_set_password_def
      store_password_def delete_user_def delete_user_commit_def change_my_password_def Let_def split: sum.split option.split)+

lemma server_ok_devices:
  assumes "server_ok st" "tbl_ok d_dongle_id ds" "d_dongle_id ` set (devices st) \<subseteq> d_dongle_id ` set ds"
    "\<forall>d \<in> set ds. \<forall>i. d_owner_id d = Some i \<longrightarrow> i \<in> u_id ` set (users st)"
  shows "server_ok (st\<lparr>devices := ds\<rparr>)"
  using assms by (fastforce simp: server_ok_defs db_ok_def keys_ok_def refs_ok_def)

lemma server_ok_register: "server_ok st \<Longrightarrow> server_ok (fst (pilotauth jl st p))"
proof -
  assume st: "server_ok st"
  then have ok: "tbl_ok d_dongle_id (devices st)" "\<forall>d \<in> set (devices st). \<forall>i. d_owner_id d = Some i \<longrightarrow> i \<in> u_id ` set (users st)"
    by (simp_all add: server_ok_defs db_ok_def keys_ok_def refs_ok_def)
  have "server_ok (st\<lparr>devices := tbl_upsert d_dongle_id (new_device g p now)
      (\<lambda>d. d\<lparr>d_serial := s, d_imei := a, d_imei2 := b, d_public_key := k\<rparr>) (devices st)\<rparr>)" (is "server_ok (st\<lparr>devices := ?ds\<rparr>)")
    for g now s a b k
  proof (rule server_ok_devices[OF st])
    show "tbl_ok d_dongle_id ?ds" by (rule tbl_ok_upsert) (simp_all add: ok)
    show "d_dongle_id ` set (devices st) \<subseteq> d_dongle_id ` set ?ds" unfolding tbl_upsert_def by (auto simp add: keys_update)
    show "\<forall>d \<in> set ?ds. \<forall>i. d_owner_id d = Some i \<longrightarrow> i \<in> u_id ` set (users st)"
      using ok(2) by (auto simp: tbl_upsert_def set_tbl_update new_device_def split: if_splits)
  qed
  then show ?thesis using st by (auto simp: pilotauth_def Let_def split: sum.split)
qed

lemma server_ok_owner:
  assumes "server_ok st" "i \<in> u_id ` set (users st)"
  shows "server_ok (set_owner i g P st)"
  unfolding set_owner_def
proof (rule server_ok_devices[OF assms(1)])
  have ok: "tbl_ok d_dongle_id (devices st)" "\<forall>d \<in> set (devices st). \<forall>i. d_owner_id d = Some i \<longrightarrow> i \<in> u_id ` set (users st)"
    using assms(1) by (simp_all add: server_ok_defs db_ok_def keys_ok_def refs_ok_def)
  let ?ds = "tbl_update (\<lambda>d. d_dongle_id d = g \<and> P d) (\<lambda>d. d\<lparr>d_owner_id := Some i\<rparr>) (devices st)"
  show "tbl_ok d_dongle_id ?ds" using ok(1) by (simp add: tbl_ok_update)
  show "d_dongle_id ` set (devices st) \<subseteq> d_dongle_id ` set ?ds" by (simp add: keys_update)
  show "\<forall>d \<in> set ?ds. \<forall>j. d_owner_id d = Some j \<longrightarrow> j \<in> u_id ` set (users st)"
    using ok(2) assms(2) by (auto simp: set_tbl_update split: if_splits)
qed

lemma server_ok_share:
  assumes "insert_share i g c st = Inr st'" "server_ok st"
  shows "server_ok st'"
proof (cases "st' = st")
  case False
  then obtain t where st': "\<not> is_shared st i g" "i \<in> u_id ` set (users st)" "g \<in> d_dongle_id ` set (devices st)"
    "st' = st\<lparr>authorized_users := authorized_users st @ [\<lparr>sh_user_id = i, sh_dongle_id = g, sh_created_at = t\<rparr>]\<rparr>"
    using assms(1) by (auto simp: insert_share_def split: option.splits if_splits)
  then have "(i, g) \<notin> share_key ` set (authorized_users st)" by (auto simp: is_shared_iff share_key_def)
  then have "tbl_ok share_key (authorized_users st @ [\<lparr>sh_user_id = i, sh_dongle_id = g, sh_created_at = t\<rparr>])"
    using assms(2) by (simp add: server_ok_defs db_ok_def keys_ok_def tbl_ok_def share_key_def)
  then show ?thesis using assms(2) st' by (simp add: server_ok_defs db_ok_def keys_ok_def refs_ok_def)
qed (use assms in simp)

lemma server_ok_create_user: "server_ok st \<Longrightarrow> server_ok (fst (create_user_row pw st i n p e a))"
  using create_user_row_inv[of st pw i n p e a]
  by (auto simp: server_ok_def routes_named_def segments_named_def create_user_row_def Let_def split: option.splits if_splits)

lemma server_ok_step: "server_step st st' \<Longrightarrow> server_ok st \<Longrightarrow> server_ok st'"
proof (rule server.keep_server)
  show "server_ok (handle_user_req pw c r x)" if "server_ok x" for pw c r x
    using that handle_user_req_inv[of x pw c r] by (simp add: server_ok_def routes_named_def segments_named_def user_req_drives)
  show "server_ok (fst (pilotauth jl x p))" if "server_ok x" for jl p x using that by (rule server_ok_register)
  show "server_ok (fst (pilotpair jl x u token))" if x: "server_ok x" and u: "u \<in> set (users x)" for jl u token x
    using x u server_ok_owner[OF x, of "u_id u"] server_ok_share
    by (auto simp: pilotpair_def Let_def split: option.split sum.split)
  show "server_ok (fst (create_user_row pw x i n p e True))" if "server_ok x" for pw i n p e x
    using that by (rule server_ok_create_user)
  show "server_ok (fst (claim_device x u d))" if x: "server_ok x" and u: "u \<in> set (users x)" for u d x
    using x u server_ok_owner[OF x, of "u_id u"] server_ok_share
    by (auto simp: claim_device_def claim_commit_def Let_def split: sum.split claim_outcome.split)
qed

lemma build_state_tables:
  assumes "build_state c m file = Inr st"
  obtains t where "open_database m (db_url c) file = Inr t" "tables_of st = t" "files_on_disk st = mc_files m" "cfg st = c"
  using assms that by (auto simp: build_state_def tables_of_def split: sum.splits if_splits)

lemma server_ok_tables: "tables_of st' = tables_of st \<Longrightarrow> server_ok st \<Longrightarrow> server_ok st'"
  by (simp add: tables_of_def server_ok_defs db_ok_def keys_ok_def refs_ok_def)

lemma server_ok_restart:
  assumes "main_run pw os ll kinds uuid env m (Some (tables_of st)) args = (Some st', e)" "server_ok st"
  shows "server_ok st'"
proof -
  obtain st0 where st0: "build_state (from_env env) m (Some (tables_of st)) = Inr st0"
    using assms(1) by (auto simp: main_run_def split: sum.splits)
  then have "tables_of st0 = tables_of st" by (rule build_state_tables) (auto simp: open_database_def split: if_splits)
  then have "server_ok st0" using assms(2) by (rule server_ok_tables)
  then have "server_ok (fst (run_cli pw os ll kinds uuid (tl args) st0))" by (intro server.keep_cli server_ok_create_user)
  then show ?thesis using assms(1) \<open>server_ok st0\<close> by (auto simp: main_run_def st0 Let_def split: if_splits prod.splits)
qed

lemma server_ok_lives: "lives st st' \<Longrightarrow> server_ok st \<Longrightarrow> server_ok st'"
  by (induction rule: lives.induct) (blast intro: server_ok_step server_ok_restart)+

text \<open>The first administrator of a new installation.\<close>

lemma first_admin:
  assumes "main_run pw os ll kinds uuid env m None [prog, ''create-user'', name, password] = (Some st, Command out CliOk)"
  shows "server_ok st \<and> map u_username (users st) = [name]"
proof -
  obtain st0 where st0: "build_state (from_env env) m None = Inr st0"
    using assms by (cases "build_state (from_env env) m None") (auto simp: main_run_def)
  then have e: "users st0 = []" "devices st0 = []" "routes st0 = []" "segments st0 = []" "authorized_users st0 = []"
    "settings_tbl st0 = []" "movies_tbl st0 = []" "subs_tbl st0 = []" "device_params_tbl st0 = []"
    by (rule build_state_tables; auto simp: open_database_def tables_of_def split: if_splits)+
  have "run_cli pw os ll kinds uuid [''create-user'', name, password] st0 = (st, out, CliOk)"
    using assms st0 by (simp add: main_run_def split: prod.splits)
  then obtain r where "create_user_row pw st0 uuid name password None True = (st, Inr r)"
    by (auto simp: run_cli_def Let_def split: prod.splits sum.splits)
  then obtain hash new where new: "st = st0\<lparr>users := users st0 @ [new], user_seq := user_seq st0 + 1\<rparr>" "u_username new = name"
    "u_is_admin new = 1" "u_id new = user_seq st0 + 1"
    by (auto simp: create_user_row_def Let_def split: if_splits option.splits)
  then show ?thesis using e by (simp add: server_ok_defs db_ok_def keys_ok_def refs_ok_def tbl_ok_def)
qed

section \<open>Properties\<close>

text \<open>
  C1: an installation stays sound for its whole life. Once the command line has created its first
  administrator, then after any steps in any order - uploads, scans, device connections, transcodes,
  movies, subtitles, retention, deletions, settings, accounts, pairing, commands - and after any number
  of restarts, keys are unique and every reference of the database resolves, there is an
  administrator, and drives and segments carry well-formed names. Whatever else runs while the
  movie and subtitle tasks or a device connection wait is covered; each account and pairing request is one step (two demotions
  that interleave are the subject of a property of Users).
\<close>

theorem server_stays_sound:
  assumes "main_run pw os ll kinds uuid env m None [prog, ''create-user'', name, password] = (Some st0, Command out CliOk)"
    and "lives st0 st"
  shows "db_ok st \<and> has_admin st \<and> admin_flags_ok st \<and> routes_named st \<and> segments_named st"
  using server_ok_lives[OF assms(2)] first_admin[OF assms(1)] by (simp add: server_ok_def users_inv_def)

definition demo_machine :: machine where
  "demo_machine = \<lparr>mc_sha256 = (\<lambda>_. ''0a1b''), mc_disk_ok = (\<lambda>_. True), mc_db_ok = (\<lambda>_. True), mc_bind_ok = (\<lambda>_. True),
     mc_now = 0, mc_files = []\<rparr>"

lemma demo_main:
  "\<exists>st. main_run demo_pw (demo_os [] []) demo_log_lib (\<lambda>_. []) ''id1'' (\<lambda>_. None) demo_machine None
      [''homeconnect'', ''create-user'', ''ann'', ''secret''] = (Some st, Command (''created admin user '' @ [CHR 0x27] @ ''ann'' @ [CHR 0x27]) CliOk)"
proof -
  have ann: "trim ''ann'' \<noteq> []" by code_simp
  show ?thesis using ann
    by (simp add: main_run_def build_state_def open_database_def demo_machine_def run_cli_def create_user_row_def demo_pw_def Let_def)
qed

lemma demo_restart:
  "\<exists>st'. main_run pw os ll kinds uuid env demo_machine (Some (tables_of st)) [] = (Some st', Serving) \<and> users st' = users st"
  by (simp add: main_run_def build_state_def open_database_def demo_machine_def tables_of_def)

theorem server_stays_sound_witness:
  "\<exists>st0 out st st1. main_run demo_pw (demo_os [] []) demo_log_lib (\<lambda>_. []) ''id1'' (\<lambda>_. None) demo_machine None
      [''homeconnect'', ''create-user'', ''ann'', ''secret''] = (Some st0, Command out CliOk) \<and>
    main_run demo_pw (demo_os [] []) demo_log_lib (\<lambda>_. []) ''id1'' (\<lambda>_. None) demo_machine (Some (tables_of st0)) [] = (Some st1, Serving) \<and>
    st = handle_user_req demo_pw (hd (users st1)) (CreateReq ''id2'' ''bob'' ''secret'' None False) st1 \<and> db_ok st \<and> has_admin st"
proof -
  obtain st0 out where st0: "main_run demo_pw (demo_os [] []) demo_log_lib (\<lambda>_. []) ''id1'' (\<lambda>_. None) demo_machine None
      [''homeconnect'', ''create-user'', ''ann'', ''secret''] = (Some st0, Command out CliOk)"
    using demo_main by blast
  obtain st1 where st1: "main_run demo_pw (demo_os [] []) demo_log_lib (\<lambda>_. []) ''id1'' (\<lambda>_. None) demo_machine (Some (tables_of st0)) [] = (Some st1, Serving)"
    using demo_restart by blast
  have "lives st0 st1" using born st1 by (rule lives.restart)
  then show ?thesis using server_stays_sound[OF st0 lives.step[OF _ server_step.account]] st0 st1 by blast
qed

lemma find_rights:
  assumes "map (\<lambda>d. (d_dongle_id d, d_owner_id d)) ds = map (\<lambda>d. (d_dongle_id d, d_owner_id d)) ds'"
  shows "map_option (\<lambda>d. (d_dongle_id d, d_owner_id d)) (tbl_find d_dongle_id g ds) =
    map_option (\<lambda>d. (d_dongle_id d, d_owner_id d)) (tbl_find d_dongle_id g ds')"
  using assms
proof (induction ds arbitrary: ds')
  case (Cons d ds)
  then obtain d' ds'' where "ds' = d' # ds''" "d_dongle_id d = d_dongle_id d'" "d_owner_id d = d_owner_id d'"
    "map (\<lambda>d. (d_dongle_id d, d_owner_id d)) ds = map (\<lambda>d. (d_dongle_id d, d_owner_id d)) ds''"
    by (cases ds') auto
  with Cons.IH[of ds''] show ?case by (simp add: tbl_find_def)
qed simp

text \<open>
  C7: nothing but an account, pairing or command request changes who may do what. Whatever the other
  endpoints and the background tasks do, in any order and interleaving, the accounts, the owners of the devices
  and the shares stay as they are: every user may manage exactly the devices they could manage
  before, every caller may view the private drives of exactly the same devices, and logging in
  accepts the same passwords for the same roles.
\<close>

theorem services_grant_nothing:
  assumes "quiet_step\<^sup>*\<^sup>* st st'" and "db_ok st"
  shows "users st' = users st \<and> authorized_users st' = authorized_users st \<and>
    (\<forall>user dongle. is_ok (can_manage_device st' user dongle) = is_ok (can_manage_device st user dongle)) \<and>
    (\<forall>auth dongle. can_view_route st' auth dongle = can_view_route st auth dongle)"
proof -
  have "db_ok st' \<and> rights st' = rights st"
    using assms(1) by (induction rule: rtranclp_induct) (use assms(2) in \<open>auto dest: rights.keep_quiet\<close>)
  then have r: "users st' = users st" "authorized_users st' = authorized_users st"
    "map (\<lambda>d. (d_dongle_id d, d_owner_id d)) (devices st') = map (\<lambda>d. (d_dongle_id d, d_owner_id d)) (devices st)"
    by (simp_all add: rights_def)
  have shared: "is_shared st' i g = is_shared st i g" for i g by (simp add: is_shared_def r(2))
  have "is_ok (can_manage_device st' u g) = is_ok (can_manage_device st u g) \<and> can_view_route st' a g = can_view_route st a g" for u a g
    using find_rights[OF r(3), of g]
    by (cases "tbl_find d_dongle_id g (devices st)"; cases "tbl_find d_dongle_id g (devices st')";
        auto simp: can_manage_device_def can_manage_loaded_def can_view_route_def can_view_dongle_def can_view_device_def
        load_device_def shared split: option.splits)
  then show ?thesis using r(1,2) by blast
qed

theorem services_grant_nothing_witness:
  "\<exists>st'. fst (upload_driving (demo_auth ''ab12'') ''ab12'' ''2024'' 0 ''qcamera.ts'' ''video'' demo_device_state) = st' \<and>
    quiet_step demo_device_state st' \<and> (\<forall>auth. can_view_route st' auth ''ab12'' = can_view_route demo_device_state auth ''ab12'')"
proof -
  let ?st' = "fst (upload_driving (demo_auth ''ab12'') ''ab12'' ''2024'' 0 ''qcamera.ts'' ''video'' demo_device_state)"
  have step: "quiet_step demo_device_state ?st'" by (rule quiet_step.intros) (rule service_step.upload, rule ingest_step.driving)
  have "db_ok demo_device_state"
    by (simp add: db_ok_def keys_ok_def refs_ok_def tbl_ok_def demo_device_state_def demo_device_def empty_state_def)
  then show ?thesis using services_grant_nothing[OF r_into_rtranclp[of quiet_step, OF step]] step by blast
qed

end
