(* ===== verification/TranscodeCache.thy ===== *)
theory TranscodeCache
  imports Transcode
begin

text \<open>
  Requests of the transcode cache side by side (\<open>ensure_transcode\<close> and \<open>ensure_audio\<close> of
  \<^verbatim>\<open>src/transcode.rs\<close>), one file system call at a time. The permits do not keep two requests for
  one segment apart, and both write the same temporary file, so names and open files are told apart here:
  a name refers to a file, and a running \<^verbatim>\<open>ffmpeg\<close> holds the file it has opened, whatever becomes of
  the name. The theory Transcode has the same requests as one step each, with what they ask of the tools.
\<close>

section \<open>Names and files\<close>

record vdisk =
  vd_names :: "string \<rightharpoonup> nat"
  vd_bytes :: "nat \<Rightarrow> string"
  vd_fresh :: nat

text \<open>\<^verbatim>\<open>ffmpeg -y\<close>: an existing file is cut to nothing and reused, a missing one created.\<close>

definition open_output :: "string \<Rightarrow> vdisk \<Rightarrow> vdisk \<times> nat" where
  "open_output p d =
     (case vd_names d p of
        Some i \<Rightarrow> (d\<lparr>vd_bytes := (vd_bytes d)(i := [])\<rparr>, i)
      | None \<Rightarrow> (d\<lparr>vd_names := (vd_names d)(p \<mapsto> vd_fresh d), vd_bytes := (vd_bytes d)(vd_fresh d := []),
                    vd_fresh := vd_fresh d + 1\<rparr>, vd_fresh d))"

definition write_file :: "nat \<Rightarrow> string \<Rightarrow> vdisk \<Rightarrow> vdisk" where
  "write_file i b d = d\<lparr>vd_bytes := (vd_bytes d)(i := b)\<rparr>"

definition unlink_name :: "string \<Rightarrow> vdisk \<Rightarrow> vdisk" where
  "unlink_name p d = d\<lparr>vd_names := (vd_names d)(p := None)\<rparr>"

definition rename_name :: "string \<Rightarrow> string \<Rightarrow> vdisk \<Rightarrow> vdisk option" where
  "rename_name p q d =
     map_option (\<lambda>i. d\<lparr>vd_names := (vd_names d)(p := None, q := Some i)\<rparr>) (vd_names d p)"

section \<open>A request\<close>

text \<open>
  Where a request is: waiting for its permit; about to start \<^verbatim>\<open>ffmpeg\<close>, on the selected device or
  on the CPU; with a running \<^verbatim>\<open>ffmpeg\<close> and the file that holds; after a clean exit; after any other
  end; answered.
\<close>

datatype progress = Waiting | Ready bool | Running nat bool | Written | Failed bool | Answered bool

definition after_exit :: "bool \<Rightarrow> bool \<Rightarrow> progress" where
  "after_exit ok gpu = (if ok then Written else Failed gpu)"

definition after_failure :: "bool \<Rightarrow> progress" where
  "after_failure gpu = (if gpu then Ready False else Answered False)"


text \<open>
  \<open>out\<close> is the cache file of each request, \<open>gpu\<close> whether a device is selected, and \<open>whole\<close> what a
  run for that file that exits cleanly has written. A run that is killed or fails may have written anything.
  \<open>removed\<close> is every other removal: the sweep of temporary files at start-up, and the deletion of drives.
\<close>

inductive cache_step ::
    "(nat \<Rightarrow> string) \<Rightarrow> (nat \<Rightarrow> bool) \<Rightarrow> (string \<Rightarrow> string \<Rightarrow> bool) \<Rightarrow>
     vdisk \<times> (nat \<Rightarrow> progress) \<Rightarrow> vdisk \<times> (nat \<Rightarrow> progress) \<Rightarrow> bool" for out gpu whole where
  hit: "ph w = Waiting \<Longrightarrow> vd_names d (out w) \<noteq> None \<Longrightarrow> cache_step out gpu whole (d, ph) (d, ph(w := Answered True))"
| missed: "ph w = Waiting \<Longrightarrow> vd_names d (out w) = None \<Longrightarrow> cache_step out gpu whole (d, ph) (d, ph(w := Ready (gpu w)))"
| refused: "ph w = Waiting \<Longrightarrow> cache_step out gpu whole (d, ph) (d, ph(w := Answered False))"
| start: "ph w = Ready g \<Longrightarrow> open_output (cache_tmp (out w)) d = (d', i) \<Longrightarrow>
    cache_step out gpu whole (d, ph) (d', ph(w := Running i g))"
| no_start: "ph w = Ready g \<Longrightarrow> cache_step out gpu whole (d, ph) (d, ph(w := after_exit False g))"
| writes: "ph w = Running i g \<Longrightarrow> cache_step out gpu whole (d, ph) (write_file i b d, ph)"
| clean_exit: "ph w = Running i g \<Longrightarrow> whole (out w) b \<Longrightarrow>
    cache_step out gpu whole (d, ph) (write_file i b d, ph(w := after_exit True g))"
| other_exit: "ph w = Running i g \<Longrightarrow> cache_step out gpu whole (d, ph) (d, ph(w := after_exit False g))"
| discard: "ph w = Failed g \<Longrightarrow>
    cache_step out gpu whole (d, ph) (unlink_name (cache_tmp (out w)) d, ph(w := after_failure g))"
| publish: "ph w = Written \<Longrightarrow> rename_name (cache_tmp (out w)) (out w) d = Some d' \<Longrightarrow>
    cache_step out gpu whole (d, ph) (d', ph(w := Answered True))"
| publish_fails: "ph w = Written \<Longrightarrow> cache_step out gpu whole (d, ph) (d, ph(w := Answered False))"
| removed: "cache_step out gpu whole (d, ph) (unlink_name p d, ph)"

inductive_cases cache_stepE: "cache_step out gpu whole (d, ph) s"



section \<open>Names in the cache\<close>

definition cache_file :: "app_state \<Rightarrow> string \<Rightarrow> bool" where
  "cache_file st p \<longleftrightarrow>
     (\<exists>d t n cam. p = cache_path st d t n cam \<and> camera_source cam \<noteq> None) \<or> (\<exists>d t n. p = audio_path st d t n)"

lemma cache_file_stem:
  assumes "cache_file st p"
  obtains x where "x \<noteq> []" "last x \<noteq> CHR ''p''" "p = x @ ''.ts''" "cache_tmp p = x @ ''.tmp.ts''"
proof -
  have cam: "cam \<noteq> [] \<and> last cam \<noteq> CHR ''p''" if "camera_source cam \<noteq> None" for cam
    using that by (auto simp: camera_source_def split: if_splits)
  obtain d t n what where p: "p = stem st d t n what @ ''.ts''" "what \<noteq> [] \<and> last what \<noteq> CHR ''p''"
    using assms cam unfolding cache_file_def by (auto simp: cache_path_stem)
  then have "last (stem st d t n what) = last what" by (simp add: stem_def path_join_def)
  then show ?thesis
    using that[of "stem st d t n what"] p cache_path_stem(3)[of st d t n what] by (simp add: cache_tmp_ts)
qed


lemma cache_tmp_not_file: "cache_file st p \<Longrightarrow> cache_file st q \<Longrightarrow> cache_tmp p \<noteq> q"
proof
  assume "cache_file st p" "cache_file st q" "cache_tmp p = q"
  then obtain x y where "x @ ''.tmp.ts'' = y @ ''.ts''" "y \<noteq> []" "last y \<noteq> CHR ''p''" by (metis cache_file_stem)
  then have "(x @ ''.tmp'') @ ''.ts'' = y @ ''.ts''" by simp
  then have "y = x @ ''.tmp''" by (simp only: append_same_eq)
  then show False using \<open>last y \<noteq> CHR ''p''\<close> by simp
qed

section \<open>The invariant\<close>
















section \<open>Properties\<close>


text \<open>An empty cache, and one request after another for two cameras of a segment and its audio.\<close>

definition demo_outs :: "nat \<Rightarrow> string" where
  "demo_outs w =
     (if w = 0 then cache_path empty_state ''d'' ''t'' 0 ''fcamera'' else audio_path empty_state ''d'' ''t'' 0)"

definition demo_vdisk :: vdisk where
  "demo_vdisk = \<lparr>vd_names = Map.empty, vd_bytes = (\<lambda>_. []), vd_fresh = 0\<rparr>"

lemma demo_outs_files: "cache_file empty_state (demo_outs w)"
proof -
  have "camera_source ''fcamera'' \<noteq> None" by (simp add: camera_source_def)
  then show ?thesis unfolding demo_outs_def cache_file_def by (cases "w = 0") (simp, blast, simp, blast)
qed



text \<open>
  C35: two requests for the same segment can put a partial file into the cache. Both have seen that the file is missing; the
  first one's \<^verbatim>\<open>ffmpeg\<close> has exited cleanly when the second one's cuts the shared temporary file to
  nothing; the first then renames that into the cache and answers that the file is there. When the
  second run fails, its request is answered with an error, the empty file stays, and every later request for it is
  served from the cache.
\<close>

theorem cache_can_show_partial_file:
  assumes two: "v \<noteq> w" "out v = out w" and whole: "whole (out w) b"
    and empty: "vd_names d (out w) = None" "vd_names d (cache_tmp (out w)) = None" "cache_tmp (out w) \<noteq> out w"
  shows "\<exists>d' ph i. (cache_step out gpu whole)\<^sup>*\<^sup>* (d, \<lambda>_. Waiting) (d', ph) \<and>
    ph w = Answered True \<and> ph v = Answered False \<and> vd_names d' (out w) = Some i \<and> vd_bytes d' i = [] \<and>
    (\<forall>u. out u = out w \<and> ph u = Waiting \<longrightarrow> cache_step out gpu whole (d', ph) (d', ph(u := Answered True)))"
proof -
  let ?S = "cache_step out gpu whole" and ?t = "cache_tmp (out w)" and ?i = "vd_fresh d"
  let ?ph = "\<lambda>x y. (\<lambda>_. Waiting)(w := x, v := y) :: nat \<Rightarrow> progress"
  define d1 where "d1 = fst (open_output ?t d)"
  define d2 where "d2 = write_file ?i b d1"
  define d3 where "d3 = fst (open_output ?t d2)"
  have o: "open_output ?t d = (d1, ?i)" "open_output ?t d2 = (d3, ?i)"
    using empty by (simp_all add: d1_def d2_def d3_def open_output_def write_file_def)
  obtain d4 where d4: "rename_name ?t (out w) d3 = Some d4"
    using empty by (simp add: d1_def d2_def d3_def open_output_def write_file_def rename_name_def)
  define d5 where "d5 = unlink_name ?t d4"
  have n: "vd_names d5 (out w) = Some ?i" "vd_bytes d5 ?i = []"
    using d4 empty by (auto simp: d5_def d1_def d2_def d3_def open_output_def write_file_def rename_name_def unlink_name_def)
  have 0: "?S (d, \<lambda>_. Waiting) (d, (\<lambda>_. Waiting)(w := Ready (gpu w)))" by (rule missed) (simp_all add: empty)
  have 1: "?S (d, (\<lambda>_. Waiting)(w := Ready (gpu w))) (d, ?ph (Ready (gpu w)) (Ready (gpu v)))"
    by (rule missed) (use two empty in simp_all)
  have 2: "?S (d, ?ph (Ready (gpu w)) (Ready (gpu v))) (d1, ?ph (Running ?i (gpu w)) (Ready (gpu v)))"
    using start[of "?ph (Ready (gpu w)) (Ready (gpu v))" w "gpu w" out d d1 ?i gpu whole] o two by (simp add: fun_upd_twist)
  have 3: "?S (d1, ?ph (Running ?i (gpu w)) (Ready (gpu v))) (d2, ?ph Written (Ready (gpu v)))"
    using clean_exit[of "?ph (Running ?i (gpu w)) (Ready (gpu v))" w ?i "gpu w" whole out b gpu d1] whole two
    by (simp add: after_exit_def d2_def fun_upd_twist)
  have 4: "?S (d2, ?ph Written (Ready (gpu v))) (d3, ?ph Written (Running ?i (gpu v)))"
    using start[of "?ph Written (Ready (gpu v))" v "gpu v" out d2 d3 ?i gpu whole] o two by simp
  have 5: "?S (d3, ?ph Written (Running ?i (gpu v))) (d4, ?ph (Answered True) (Running ?i (gpu v)))"
    using publish[of "?ph Written (Running ?i (gpu v))" w out d3 d4 gpu whole] d4 two by (simp add: fun_upd_twist)
  have fail: "?S (d4, ?ph (Answered True) (Running ?i g)) (d4, ?ph (Answered True) (Failed g))"
    "?S (d', ?ph (Answered True) (Failed g)) (unlink_name ?t d', ?ph (Answered True) (after_failure g))"
    "?S (d', ?ph (Answered True) (Ready g)) (d', ?ph (Answered True) (Failed g))" for g d'
    using other_exit[of "?ph (Answered True) (Running ?i g)" v ?i g out gpu whole d4]
      discard[of "?ph (Answered True) (Failed g)" v g out gpu whole d']
      no_start[of "?ph (Answered True) (Ready g)" v g out gpu whole d'] two
    by (simp_all add: after_exit_def)
  have twice: "unlink_name ?t d5 = d5" by (simp add: d5_def unlink_name_def)
  have 6: "?S\<^sup>*\<^sup>* (d4, ?ph (Answered True) (Running ?i (gpu v))) (d5, ?ph (Answered True) (Answered False))"
  proof (cases "gpu v")
    case False
    then show ?thesis using fail(1)[of False] fail(2)[of d4 False] by (simp add: d5_def after_failure_def)
  next
    case True
    then show ?thesis
      using fail(1)[of True] fail(2)[of d4 True] fail(3)[of d5 False] fail(2)[of d5 False]
      by (simp add: d5_def[symmetric] twice after_failure_def)
  qed
  have "?S\<^sup>*\<^sup>* (d, \<lambda>_. Waiting) (d5, ?ph (Answered True) (Answered False))"
    using 0 1 2 3 4 5 6 by (meson converse_rtranclp_into_rtranclp)
  moreover have "?S (d5, ?ph (Answered True) (Answered False)) (d5, (?ph (Answered True) (Answered False))(u := Answered True))"
    if "out u = out w" "?ph (Answered True) (Answered False) u = Waiting" for u
    using that n(1) by (intro hit) auto
  ultimately show ?thesis using n two
    by (intro exI[of _ d5] exI[of _ "?ph (Answered True) (Answered False)"] exI[of _ ?i]) auto
qed

theorem cache_can_show_partial_file_witness:
  "\<exists>d ph i. (cache_step (\<lambda>_. demo_outs 0) (\<lambda>_. False) (\<lambda>_ b. b = ''h264''))\<^sup>*\<^sup>* (demo_vdisk, \<lambda>_. Waiting) (d, ph) \<and>
    ph 1 = Answered True \<and> vd_names d (demo_outs 0) = Some i \<and> vd_bytes d i \<noteq> ''h264''"
proof -
  have ne: "cache_tmp (demo_outs 0) \<noteq> demo_outs 0" using demo_outs_files cache_tmp_not_file by blast
  have "vd_names demo_vdisk p = None" for p by (simp add: demo_vdisk_def)
  with ne show ?thesis
    using cache_can_show_partial_file[of 2 1 "\<lambda>_. demo_outs 0" "\<lambda>_ b. b = ''h264''" "''h264''" demo_vdisk "\<lambda>_. False"]
    by fastforce
qed

end
