(* ===== verification/Spec2Isabelle.thy ===== *)
theory Spec2Isabelle
  imports Prelude RustStd F64 F64Text Models Storage Settings Auth Access Users Devices SyncQueue
    Telemetry Segments Ingest DeviceSsh DevSync Transcode Denoise Vtt Movie Subs Serve Retention
    DeviceParams DeviceUpdate Ignore ModelSelect Manage Browse
    SettingsApi SyncApi Onboard ConfigEnv StoreSpec Cli UnitTests Router Pipeline Upkeep System TranscodeCache
begin

text \<open>
  \<^bold>\<open>homeconnect.\<close> A self-hosted server for openpilot dashcams (Rust, \<^verbatim>\<open>src/src\<close>).
  Devices register and upload or are pulled from over ssh; their logs are parsed into a database of
  drives (routes) and segments; background tasks transcode, stitch movies, enhance and transcribe
  audio, and delete by a retention policy; users browse, share, configure and delete through HTTP
  endpoints. This library models that program function by function and proves what its parts promise.

  \<^bold>\<open>The state.\<close> \<open>app_state\<close> (Models) is the whole server: the configuration, the rows of
  every table of \<^verbatim>\<open>src/migrations\<close> (lists in insertion order, with \<open>tbl_ok\<close> for the keys the
  schema enforces), the files on disk as a list of paths and contents, the open device connections,
  the sync queue and the movie queue. An operation that can change something is a function from the
  state to the state and an answer; an answer that can fail is an \<open>app_error\<close> or a value
  (\<open>'a res\<close>, Prelude), so that every early return and every \<open>?\<close> of the code is a branch. SQL
  statements are the table operations of Prelude. An \<open>i64\<close> is an \<open>int\<close> with its wrap-around
  (\<open>i64_wrap\<close>) written out where the code computes with it, a \<open>u64\<close> of the range requests a
  64-bit word, an \<open>f64\<close> the values of F64, with IEEE rounding to nearest of rational results.

  \<^bold>\<open>Parameters.\<close> What is not in the repository is an argument: the JWT, password, JSON and zip
  crates (\<open>jwt_lib\<close>, \<open>pw_lib\<close>, \<open>json_lib\<close>), decompressors, image and Cap'n Proto code
  (\<open>log_lib\<close>), \<^verbatim>\<open>ssh\<close> and the device behind it (\<open>ssh_os\<close>, and \<open>ssh_link\<close>, a
  device that answers each command depending on all it was sent before), \<^verbatim>\<open>ffmpeg\<close> and the
  graphics drivers (\<open>media_os\<close>), the whisper and enhancement servers (\<open>http_os\<close>), SHA-256 and
  the disk's refusals (components of the state). Properties hold for every value of them; the
  witnesses use concrete ones.

  \<^bold>\<open>Theories.\<close>
  Foundations: Prelude (errors, tables, and the locales \<open>kv_store\<close> and \<open>kv_store_del\<close>), RustStd
  (the string and number functions of the standard library), F64 and F64Text (floating point, its
  text), Json, Models (\<^verbatim>\<open>models.rs\<close>, \<^verbatim>\<open>state.rs\<close>, \<^verbatim>\<open>config.rs\<close>), ConfigEnv
  (\<open>from_env\<close>).
  Storage and StoreSpec (\<^verbatim>\<open>storage.rs\<close>): the blob store, and its contract, a map; the locale
  \<open>implements\<close> carries a step-wise simulation to runs. Settings (\<^verbatim>\<open>settings.rs\<close>): the table
  and the typed settings over any \<open>kv_store\<close>.
  Accounts: Auth (\<^verbatim>\<open>auth.rs\<close>), Access (\<^verbatim>\<open>access.rs\<close> and both gates), Users
  (\<^verbatim>\<open>api/users.rs\<close>), Devices (\<^verbatim>\<open>api/v2.rs\<close>, \<^verbatim>\<open>athena.rs\<close>), Cli (\<^verbatim>\<open>main.rs\<close>).
  Drives in: Ingest (\<^verbatim>\<open>ingest.rs\<close>), Telemetry and Segments (\<^verbatim>\<open>parse.rs\<close>), SyncQueue
  (\<^verbatim>\<open>sync_queue.rs\<close>, with the locale \<open>work_queue\<close>), DeviceSsh (\<^verbatim>\<open>device_ssh.rs\<close>),
  DevSync (\<^verbatim>\<open>devsync.rs\<close>), SyncApi (\<^verbatim>\<open>api/devsync.rs\<close>).
  Media: Transcode, Denoise, Movie, Vtt and Subs (\<^verbatim>\<open>transcode.rs\<close>, \<^verbatim>\<open>denoise.rs\<close>,
  \<^verbatim>\<open>movie.rs\<close>, \<^verbatim>\<open>subs.rs\<close>), Serve (\<^verbatim>\<open>serve.rs\<close>), TranscodeCache (requests of the
  transcode cache side by side, one file system call at a time).
  Drives out: Retention (\<^verbatim>\<open>retention.rs\<close>), Manage (\<^verbatim>\<open>api/manage.rs\<close>).
  The device's own settings: DeviceLink (the conversation and the shell line shared by the next
  three), ParamSpecs and DeviceParams (\<^verbatim>\<open>device_params.rs\<close>), DeviceUpdate
  (\<^verbatim>\<open>device_update.rs\<close>), ModelSelect (\<^verbatim>\<open>model_select.rs\<close>), with their endpoints.
  The rest of the API: Browse (\<^verbatim>\<open>api/v1.rs\<close>), Ignore (\<^verbatim>\<open>ignore.rs\<close>), SettingsApi
  (\<^verbatim>\<open>api/settings.rs\<close>), Onboard (\<^verbatim>\<open>api/onboard.rs\<close>).
  The whole: Router (the route table of \<^verbatim>\<open>lib.rs\<close> and what its URLs reach), Pipeline (a
  video from its upload to its viewer, and a playlist's links with what they answer, through Ingest,
  Segments, Browse, Router, Transcode and Serve), Upkeep (the
  locale \<open>upkeep\<close>: a property that survives the elementary writes of the tables survives every
  upload, sync, media, settings, retention and deletion operation) and System (\<open>build_state\<close>,
  \<open>init\<close> of \<^verbatim>\<open>db.rs\<close>, \<open>main\<close>, and the step relation of the running server with its
  restarts, on which \<open>upkeep\<close> is interpreted). UnitTests evaluates the repository's own unit tests.

  \<^bold>\<open>What the lemmas show.\<close> Invariants over sequences of requests: an administrator remains
  (Users), the database keeps its keys and references through the whole life of an installation
  (System; for the single components Ingest and Retention), only account, pairing and command
  requests change anybody's rights (System), the queue never holds or
  hands out a file twice under any interleaving (SyncQueue). Composition: every URL the
  server gives out reaches its handler (Router), and what was uploaded can be watched by exactly those who may
  (Pipeline). Exactness against a declarative
  description: what a scan queues (DevSync), what a movie sweep builds (Movie), driving statistics and
  the state timeline (Telemetry), what deleting a drive removes and leaves (Retention), a playlist and who can
  play it (Browse, Pipeline), range
  requests (Serve). Refinement: the blob store is a map, whatever writes and removals the disk refuses
  (StoreSpec). Safety: the shell lines that delete a drive on request (DevSync), write parameters
  (DeviceParams) and update (DeviceUpdate) carry only vetted text (auto-prune, \<open>maybe_prune\<close> of DevSync, is not
  among them: it vets the file's name, not the drive's), nothing is sent to a car that is on
  (DeviceUpdate), nobody without the right reaches media (Serve) and such a request has no effect,
  nothing that arrives overwrites a device's file (Ingest), partial transcodes are never published as long as no
  two requests work on the same file (TranscodeCache), settings
  requests change settings only (SettingsApi). Round trips: subtitles, ignore rules, chunked downloads,
  settings. Termination: every sweep, build and retention pass ends. Where the code does not do what it
  means to, the theorem says what it does: the last-administrator race (Users), two transcodes of one
  segment (the second fails, Transcode; or a partial file is shown for good, TranscodeCache), a movie of no probed
  duration (Movie), a movie deleted while it is built, an edit during a flush, audio tracks that retention never
  deletes and age limits that wrap, playlists an administrator cannot play.

  \<^bold>\<open>Loops.\<close> Structural recursion wherever a list is consumed. Loops whose end depends on the
  state are \<open>partial_function (option)\<close>, with \<open>None\<close> for a run without end: the chunk loop of
  Denoise, which Subs shares, and the storage loop of Retention. Builds, sweeps and passes that contain
  one answer an option as well, and that they
  return is proved (\<open>build_wav_returns\<close>, \<open>movie_sweep_returns\<close>, \<open>subs_sweep_returns\<close>,
  \<open>retention_pass_settles\<close>). No fuel is used. Interleavings are explicit: step relations for user
  requests, ingest, the queue, the transcode cache and the whole server; a parameter \<open>ev\<close> for what other requests do while a long step
  waits; check and commit as separate steps for the races.

  \<^bold>\<open>Not modelled.\<close> The SQL of the migrations beyond the empty tables they leave, the
  options of the connection pool, and the web application's files. The HTTP
  framework: a handler takes the parsed path, caller and body, and
  axum's choice among matching templates and its percent decoding are parameters with their
  documented rules (\<open>documented_lookup\<close>, \<open>documented_decode\<close>). In the step relation of System an
  account or pairing request is one step; interleaved account requests are in Users. A request for
  a transcode is one step of Transcode and Serve; interleaved ones are in TranscodeCache. The disk may refuse any
  write; it refuses a removal only in \<open>blob_unlink\<close> and its contract, since every caller drops that
  answer: elsewhere a file that is removed is gone. What the JSON crate returns for a
  number it printed is a parameter of the ignore rules' round trip, as without its feature
  \<^verbatim>\<open>float_roundtrip\<close> it may be off in the last place. The generated log schema
  (\<^verbatim>\<open>cereal\<close>): decoded messages are datatypes. Log lines, the once-per-process caches of probes,
  sleeping and semaphores. Database errors other than those the schema raises. The order of rows that a
  statement leaves open is taken as table order.
\<close>

end
